(* ===== verification/Smpp_Prelude.thy ===== *)
theory Smpp_Prelude
  imports Complex_Main "HOL-Library.Word" "HOL-Library.AList"
begin

text \<open>
  Shared vocabulary of the development: the machine types of the Rust code, the
  \<open>?\<close> operator on \<open>Result\<close>, and the part of the Rust string library the sources
  call. A Rust \<open>String\<close> is its UTF-8 byte sequence, one \<^typ>\<open>char\<close> per byte; a
  \<open>Vec<u8>\<close> is a list of 8-bit words.
\<close>

named_theorems smpp_defs \<open>definitions of operations, unfolded by the component proofs\<close>

type_synonym u8 = "8 word"
type_synonym u16 = "16 word"
type_synonym u32 = "32 word"
type_synonym u64 = "64 word"
type_synonym bytes = "u8 list"

section \<open>Results\<close>

type_synonym ('e, 'a) result = "'e + 'a"

text \<open>The \<open>?\<close> operator: leave with the error, go on with the value.\<close>

definition rbind :: "('e, 'a) result \<Rightarrow> ('a \<Rightarrow> ('e, 'b) result) \<Rightarrow> ('e, 'b) result" where
  "rbind r f = (case r of Inl e \<Rightarrow> Inl e | Inr a \<Rightarrow> f a)"

definition ok_or :: "'a option \<Rightarrow> 'e \<Rightarrow> ('e, 'a) result" where
  "ok_or x e = (case x of None \<Rightarrow> Inl e | Some a \<Rightarrow> Inr a)"

definition map_err :: "('e \<Rightarrow> 'f) \<Rightarrow> ('e, 'a) result \<Rightarrow> ('f, 'a) result" where
  "map_err f r = (case r of Inl e \<Rightarrow> Inl (f e) | Inr a \<Rightarrow> Inr a)"

definition unwrap_or :: "'a \<Rightarrow> 'a option \<Rightarrow> 'a" where
  "unwrap_or d x = (case x of None \<Rightarrow> d | Some a \<Rightarrow> a)"

lemma rbind_simps [simp]:
  "rbind (Inl e) f = Inl e"
  "rbind (Inr a) f = f a"
  by (simp_all add: rbind_def)

lemma ok_or_simps [simp]:
  "ok_or None e = Inl e"
  "ok_or (Some a) e = Inr a"
  by (simp_all add: ok_or_def)

lemma map_err_simps [simp]:
  "map_err f (Inl e) = Inl (f e)"
  "map_err f (Inr a) = Inr a"
  by (simp_all add: map_err_def)

lemma unwrap_or_simps [simp]:
  "unwrap_or d None = d"
  "unwrap_or d (Some a) = a"
  by (simp_all add: unwrap_or_def)

lemma rbind_Inr_iff: "rbind r f = Inr b \<longleftrightarrow> (\<exists>a. r = Inr a \<and> f a = Inr b)"
  by (cases r) auto

lemma rbind_Inl_iff: "rbind r f = Inl e \<longleftrightarrow> r = Inl e \<or> (\<exists>a. r = Inr a \<and> f a = Inl e)"
  by (cases r) auto

lemma ok_or_Inr_iff: "ok_or x e = Inr a \<longleftrightarrow> x = Some a"
  by (cases x) auto

lemma map_err_Inr_iff [simp]: "map_err f r = Inr a \<longleftrightarrow> r = Inr a"
  by (cases r) auto

lemmas result_iffs = rbind_Inr_iff rbind_Inl_iff ok_or_Inr_iff

section \<open>Lists\<close>

lemma map_filter_append [simp]: "List.map_filter f (xs @ ys) = List.map_filter f xs @ List.map_filter f ys"
  by (simp add: map_filter_def)

lemma map_filter_map: "List.map_filter f (map g xs) = List.map_filter (f \<circ> g) xs"
  by (simp add: map_filter_def comp_def filter_map)

lemma enumerate_map: "enumerate n (map f xs) = map (\<lambda>(i, x). (i, f x)) (enumerate n xs)"
  by (induction xs arbitrary: n) simp_all

section \<open>State machines\<close>

text \<open>
  The contract of a step relation with an invariant, and of one whose runs end: every step
  makes a measure smaller, and a state that is not final can take one.
\<close>

locale machine =
  fixes start :: "'s \<Rightarrow> bool" and step :: "'s \<Rightarrow> 's \<Rightarrow> bool" and inv :: "'s \<Rightarrow> bool"
  assumes inv_start: "start s \<Longrightarrow> inv s"
    and inv_step: "inv s \<Longrightarrow> step s s' \<Longrightarrow> inv s'"
begin

lemma inv_run: "step\<^sup>*\<^sup>* s s' \<Longrightarrow> inv s \<Longrightarrow> inv s'"
  by (induction rule: rtranclp_induct) (auto intro: inv_step)

lemma inv_reachable: "start s \<Longrightarrow> step\<^sup>*\<^sup>* s s' \<Longrightarrow> inv s'"
  using inv_start inv_run by blast

end

locale ending_machine = machine +
  fixes measure_of :: "'s \<Rightarrow> nat" and final :: "'s \<Rightarrow> bool"
  assumes decreases: "step s s' \<Longrightarrow> measure_of s' < measure_of s"
    and progress: "inv s \<Longrightarrow> \<not> final s \<Longrightarrow> \<exists>s'. step s s'"
begin

lemma steps_bounded: "(step ^^ n) s s' \<Longrightarrow> n + measure_of s' \<le> measure_of s"
proof (induction n arbitrary: s')
  case (Suc n)
  then obtain s1 where "(step ^^ n) s s1" "step s1 s'" by auto
  with Suc.IH[of s1] decreases[of s1 s'] show ?case by simp
qed simp

lemma stuck_final: "start s \<Longrightarrow> step\<^sup>*\<^sup>* s s' \<Longrightarrow> \<nexists>s''. step s' s'' \<Longrightarrow> final s'"
  using inv_reachable progress by blast

lemma run_ends: "inv s \<Longrightarrow> \<exists>s'. step\<^sup>*\<^sup>* s s' \<and> final s'"
proof (induction "measure_of s" arbitrary: s rule: less_induct)
  case less
  show ?case
  proof (cases "final s")
    case False
    then obtain s1 where s1: "step s s1" using progress less.prems by blast
    with less.hyps[OF decreases inv_step[OF less.prems]] show ?thesis
      by (meson converse_rtranclp_into_rtranclp)
  qed blast
qed

end

section \<open>Strings\<close>

subsection \<open>Prefixes and searching\<close>

fun strip_prefix :: "string \<Rightarrow> string \<Rightarrow> string option" where
  "strip_prefix [] s = Some s"
| "strip_prefix (c # p) [] = None"
| "strip_prefix (c # p) (d # s) = (if c = d then strip_prefix p s else None)"

lemma strip_prefix_Some_iff: "strip_prefix p s = Some r \<longleftrightarrow> s = p @ r"
  by (induction p s rule: strip_prefix.induct) auto

lemma strip_prefix_append [simp]: "strip_prefix p (p @ r) = Some r"
  by (simp add: strip_prefix_Some_iff)

definition starts_with :: "string \<Rightarrow> string \<Rightarrow> bool" where
  "starts_with p s = (strip_prefix p s \<noteq> None)"

lemma starts_with_iff: "starts_with p s \<longleftrightarrow> (\<exists>r. s = p @ r)"
  by (auto simp: starts_with_def strip_prefix_Some_iff)

text \<open>\<open>str::find\<close>: the byte offset of the first occurrence.\<close>

fun find_str :: "string \<Rightarrow> string \<Rightarrow> nat option" where
  "find_str n [] = (if n = [] then Some 0 else None)"
| "find_str n (c # s) =
     (if starts_with n (c # s) then Some 0 else map_option Suc (find_str n s))"

lemma find_str_Some:
  "find_str n s = Some i \<Longrightarrow> i + length n \<le> length s \<and> starts_with n (drop i s)"
proof (induction s arbitrary: i)
  case Nil
  then show ?case by (auto simp: starts_with_iff split: if_splits)
next
  case (Cons c s)
  show ?case
  proof (cases "starts_with n (c # s)")
    case True
    then obtain r where "c # s = n @ r" by (auto simp: starts_with_iff)
    then have "length n \<le> length (c # s)" by simp
    with True Cons.prems show ?thesis by auto
  next
    case False
    with Cons show ?thesis by auto
  qed
qed

lemma find_str_least: "find_str n s = Some i \<Longrightarrow> j < i \<Longrightarrow> \<not> starts_with n (drop j s)"
proof (induction s arbitrary: i j)
  case Nil
  then show ?case by (auto split: if_splits)
next
  case (Cons c s)
  then show ?case by (cases j) (auto split: if_splits)
qed

lemma find_str_None:
  "find_str n s = None \<Longrightarrow> \<not> starts_with n (drop j s)"
proof (induction s arbitrary: j)
  case Nil
  then show ?case by (cases n) (auto simp: starts_with_iff split: if_splits)
next
  case (Cons c s)
  then have none: "find_str n s = None" and no: "\<not> starts_with n (c # s)"
    by (auto split: if_splits)
  show ?case
    using no Cons.IH[OF none] by (cases j) auto
qed

text \<open>\<open>split_once\<close> cuts at the first occurrence of the separator.\<close>

definition split_once :: "string \<Rightarrow> string \<Rightarrow> (string \<times> string) option" where
  "split_once sep s = map_option (\<lambda>i. (take i s, drop (i + length sep) s)) (find_str sep s)"

lemma split_once_Some: "split_once sep s = Some (a, b) \<Longrightarrow> s = a @ sep @ b"
proof -
  assume "split_once sep s = Some (a, b)"
  then obtain i where "find_str sep s = Some i" and a: "a = take i s"
    and b: "b = drop (i + length sep) s"
    by (auto simp: split_once_def)
  then obtain r where r: "drop i s = sep @ r"
    by (auto dest!: find_str_Some simp: starts_with_iff)
  then have "b = r"
    by (simp add: b add.commute[of i] flip: drop_drop)
  then show ?thesis
    using r append_take_drop_id[of i s] by (simp add: a)
qed

text \<open>\<open>split(c)\<close>: all the pieces between separators, the empty ones included.\<close>

fun split_char :: "char \<Rightarrow> string \<Rightarrow> string list" where
  "split_char sep [] = [[]]"
| "split_char sep (c # s) =
     (if c = sep then [] # split_char sep s
      else (case split_char sep s of [] \<Rightarrow> [[c]] | w # ws \<Rightarrow> (c # w) # ws))"

subsection \<open>ASCII case\<close>

definition ascii_upper_char :: "char \<Rightarrow> char" where
  "ascii_upper_char c = (if 97 \<le> (of_char c :: nat) \<and> (of_char c :: nat) \<le> 122
     then char_of ((of_char c :: nat) - 32) else c)"

definition ascii_lower_char :: "char \<Rightarrow> char" where
  "ascii_lower_char c = (if 65 \<le> (of_char c :: nat) \<and> (of_char c :: nat) \<le> 90
     then char_of ((of_char c :: nat) + 32) else c)"

definition to_ascii_uppercase :: "string \<Rightarrow> string" where
  "to_ascii_uppercase s = map ascii_upper_char s"

definition to_ascii_lowercase :: "string \<Rightarrow> string" where
  "to_ascii_lowercase s = map ascii_lower_char s"

lemma length_to_ascii_lowercase [simp]: "length (to_ascii_lowercase s) = length s"
  by (simp add: to_ascii_lowercase_def)

lemma of_char_less: "(of_char c :: nat) < 256"
  by (simp add: of_char_def)

lemma ascii_upper_idem [simp]: "ascii_upper_char (ascii_upper_char c) = ascii_upper_char c"
  by (auto simp: ascii_upper_char_def)

lemma ascii_lower_idem [simp]: "ascii_lower_char (ascii_lower_char c) = ascii_lower_char c"
  by (auto simp: ascii_lower_char_def)

lemma to_ascii_uppercase_lower [simp]:
  "to_ascii_uppercase (to_ascii_lowercase s) = to_ascii_uppercase s"
  by (auto simp: to_ascii_uppercase_def to_ascii_lowercase_def ascii_upper_char_def
      ascii_lower_char_def)

subsection \<open>Trimming\<close>

text \<open>
  \<open>str::trim\<close> removes every leading and trailing Unicode \<open>White_Space\<close> character. These
  are their UTF-8 encodings: U+0009..U+000D, U+0020, U+0085, U+00A0, U+1680,
  U+2000..U+200A, U+2028, U+2029, U+202F, U+205F and U+3000.
\<close>

definition white_space :: "string list" where
  "white_space =
     map (\<lambda>c. [c]) [CHR 0x09, CHR 0x0A, CHR 0x0B, CHR 0x0C, CHR 0x0D, CHR 0x20]
     @ [[CHR 0xC2, CHR 0x85], [CHR 0xC2, CHR 0xA0], [CHR 0xE1, CHR 0x9A, CHR 0x80]]
     @ map (\<lambda>c. [CHR 0xE2, CHR 0x80, c])
         [CHR 0x80, CHR 0x81, CHR 0x82, CHR 0x83, CHR 0x84, CHR 0x85, CHR 0x86, CHR 0x87,
          CHR 0x88, CHR 0x89, CHR 0x8A, CHR 0xA8, CHR 0xA9, CHR 0xAF]
     @ [[CHR 0xE2, CHR 0x81, CHR 0x9F], [CHR 0xE3, CHR 0x80, CHR 0x80]]"

function strip_all :: "string list \<Rightarrow> string \<Rightarrow> string" where
  "strip_all ws s =
     (case find (\<lambda>w. w \<noteq> [] \<and> starts_with w s) ws of
        None \<Rightarrow> s
      | Some w \<Rightarrow> strip_all ws (drop (length w) s))"
  by pat_completeness auto
termination
  by (relation "measure (\<lambda>(ws, s). length s)")
    (auto simp: find_Some_iff starts_with_iff)

declare strip_all.simps [simp del]

definition trim :: "string \<Rightarrow> string" where
  "trim s = rev (strip_all (map rev white_space) (rev (strip_all white_space s)))"

lemma strip_all_suffix: "\<exists>p. s = p @ strip_all ws s"
proof (induction ws s rule: strip_all.induct)
  case (1 ws s)
  show ?case
  proof (cases "find (\<lambda>w. w \<noteq> [] \<and> starts_with w s) ws")
    case None
    then show ?thesis by (simp add: strip_all.simps[of ws s])
  next
    case (Some w)
    with 1 obtain p where "drop (length w) s = p @ strip_all ws (drop (length w) s)" by blast
    then have "s = (take (length w) s @ p) @ strip_all ws (drop (length w) s)"
      by (metis append.assoc append_take_drop_id)
    moreover have "strip_all ws s = strip_all ws (drop (length w) s)"
      using Some by (simp add: strip_all.simps[of ws s])
    ultimately show ?thesis by metis
  qed
qed

lemma trim_infix: "\<exists>p q. s = p @ trim s @ q"
proof -
  obtain p where p: "s = p @ strip_all white_space s"
    using strip_all_suffix by blast
  obtain q where "rev (strip_all white_space s) =
      q @ strip_all (map rev white_space) (rev (strip_all white_space s))"
    using strip_all_suffix by blast
  then have "rev (rev (strip_all white_space s)) = trim s @ rev q"
    unfolding trim_def by (metis rev_append)
  then have "s = p @ trim s @ rev q"
    using p by simp
  then show ?thesis by blast
qed

text \<open>A visible ASCII character; trimming leaves a word of these alone.\<close>

definition graphic :: "char \<Rightarrow> bool" where
  "graphic c \<longleftrightarrow> 33 \<le> (of_char c :: nat) \<and> (of_char c :: nat) \<le> 126"

lemma white_space_not_graphic:
  "w \<in> set white_space \<Longrightarrow> w \<noteq> [] \<and> \<not> graphic (hd w) \<and> \<not> graphic (last w)"
  by (auto simp: white_space_def graphic_def)

lemma strip_all_same:
  assumes "s = [] \<or> graphic (hd s)" and "\<And>w. w \<in> set ws \<Longrightarrow> w \<noteq> [] \<Longrightarrow> \<not> graphic (hd w)"
  shows "strip_all ws s = s"
proof -
  have "\<not> (w \<noteq> [] \<and> starts_with w s)" if "w \<in> set ws" for w
    using assms(1) assms(2)[OF that] by (cases w) (auto simp: starts_with_iff)
  then have "find (\<lambda>w. w \<noteq> [] \<and> starts_with w s) ws = None"
    by (simp add: find_None_iff)
  then show ?thesis by (simp add: strip_all.simps[of ws s])
qed

lemma trim_same:
  assumes "s = [] \<or> graphic (hd s) \<and> graphic (last s)"
  shows "trim s = s"
proof -
  have "strip_all white_space s = s"
    using assms white_space_not_graphic by (intro strip_all_same) auto
  moreover have "strip_all (map rev white_space) (rev s) = rev s"
    using assms white_space_not_graphic by (intro strip_all_same) (auto simp: hd_rev)
  ultimately show ?thesis by (simp add: trim_def)
qed

lemma trim_graphic: "list_all graphic s \<Longrightarrow> trim s = s"
  by (rule trim_same) (auto simp: list_all_iff)

lemma graphic_lower [simp]: "graphic (ascii_lower_char c) \<longleftrightarrow> graphic c"
  by (auto simp: graphic_def ascii_lower_char_def)

section \<open>Numbers in text\<close>

definition hex_char :: "nat \<Rightarrow> char" where
  "hex_char d = char_of (if d < 10 then 48 + d else 55 + d)"

fun hex_digits :: "nat \<Rightarrow> string" where
  "hex_digits n = (if n < 16 then [hex_char n] else hex_digits (n div 16) @ [hex_char (n mod 16)])"

declare hex_digits.simps [simp del]

text \<open>\<open>{:0wX}\<close>: upper-case hexadecimal, zero-padded to at least \<open>w\<close> digits.\<close>

definition hex_upper :: "nat \<Rightarrow> nat \<Rightarrow> string" where
  "hex_upper w n = replicate (w - length (hex_digits n)) (CHR ''0'') @ hex_digits n"

text \<open>Reading such a numeral back, the inverse the injectivity lemmas use.\<close>

definition hex_digit_val :: "char \<Rightarrow> nat" where
  "hex_digit_val c = (if (of_char c :: nat) < 58 then of_char c - 48 else of_char c - 55)"

definition of_hex :: "string \<Rightarrow> nat" where
  "of_hex s = foldl (\<lambda>n c. 16 * n + hex_digit_val c) 0 s"

lemma hex_digit_val_hex_char [simp]: "d < 16 \<Longrightarrow> hex_digit_val (hex_char d) = d"
  by (auto simp: hex_digit_val_def hex_char_def)

lemma of_hex_hex_digits: "of_hex (hex_digits n) = n"
proof (induction n rule: hex_digits.induct)
  case (1 n)
  then show ?case
    by (auto simp: hex_digits.simps[of n] of_hex_def)
qed

lemma of_hex_zeros [simp]: "of_hex (replicate k (CHR ''0'') @ s) = of_hex s"
  by (induction k) (auto simp: of_hex_def hex_digit_val_def)

lemma of_hex_hex_upper [simp]: "of_hex (hex_upper w n) = n"
  by (simp add: hex_upper_def of_hex_hex_digits)

lemma hex_upper_inject [simp]: "hex_upper w m = hex_upper w n \<longleftrightarrow> m = n"
  by (metis of_hex_hex_upper)

text \<open>\<open>{:0wx}\<close>: the same in lower case.\<close>

definition hex_lower :: "nat \<Rightarrow> nat \<Rightarrow> string" where
  "hex_lower w n = to_ascii_lowercase (hex_upper w n)"

lemma hex_digits_chars: "c \<in> set (hex_digits n) \<Longrightarrow> \<exists>d < 16. c = hex_char d"
proof (induction n rule: hex_digits.induct)
  case (1 n)
  then show ?case
    by (cases "n < 16") (auto simp: hex_digits.simps[of n] intro: exI[of _ n] exI[of _ "n mod 16"])
qed

lemma hex_char_range:
  "d < 16 \<Longrightarrow> ascii_upper_char (ascii_lower_char (hex_char d)) = hex_char d"
  "d < 16 \<Longrightarrow> 48 \<le> (of_char (ascii_lower_char (hex_char d)) :: nat) \<and> (of_char (ascii_lower_char (hex_char d)) :: nat) \<le> 102"
  by (auto simp: ascii_upper_char_def ascii_lower_char_def hex_char_def)

lemma lower_hex_chars:
  "c \<in> set (to_ascii_lowercase (hex_digits n)) \<Longrightarrow> 48 \<le> (of_char c :: nat) \<and> (of_char c :: nat) \<le> 102"
  using hex_char_range(2) by (auto simp: to_ascii_lowercase_def dest!: hex_digits_chars)

lemma lower_hex_inject: "to_ascii_lowercase (hex_digits m) = to_ascii_lowercase (hex_digits n) \<longleftrightarrow> m = n"
proof
  have up: "to_ascii_uppercase (to_ascii_lowercase (hex_digits k)) = hex_digits k" for k
    unfolding to_ascii_uppercase_def to_ascii_lowercase_def map_map comp_def
    by (intro map_idI) (auto dest!: hex_digits_chars simp: hex_char_range)
  assume "to_ascii_lowercase (hex_digits m) = to_ascii_lowercase (hex_digits n)"
  then have "hex_digits m = hex_digits n" using up by metis
  then show "m = n" by (metis of_hex_hex_digits)
qed simp

text \<open>\<open>{}\<close> of an unsigned integer.\<close>

fun dec_digits :: "nat \<Rightarrow> string" where
  "dec_digits n = (if n < 10 then [char_of (48 + n)] else dec_digits (n div 10) @ [char_of (48 + n mod 10)])"

declare dec_digits.simps [simp del]

lemma dec_digits_chars: "c \<in> set (dec_digits n) \<Longrightarrow> 48 \<le> (of_char c :: nat) \<and> (of_char c :: nat) \<le> 57"
proof (induction n rule: dec_digits.induct)
  case (1 n)
  then show ?case by (cases "n < 10") (auto simp: dec_digits.simps[of n])
qed

text \<open>The number the digits were printed from.\<close>

definition of_dec :: "string \<Rightarrow> nat" where
  "of_dec s = foldl (\<lambda>n c. 10 * n + (of_char c - 48)) 0 s"

lemma of_dec_digits: "of_dec (dec_digits n) = n"
proof (induction n rule: dec_digits.induct)
  case (1 n)
  then show ?case by (auto simp: dec_digits.simps[of n] of_dec_def)
qed

lemma dec_digits_inject: "dec_digits m = dec_digits n \<longleftrightarrow> m = n"
  by (metis of_dec_digits)

text \<open>
  \<open>str::parse\<close> for an unsigned integer of a given width: an optional \<open>+\<close>, then at least
  one decimal digit and nothing else, the value below \<open>2 ^ width\<close>. The digits are read
  from the left and the first failure is the error.
\<close>

datatype parse_int_error = Empty | InvalidDigit | PosOverflow

fun parse_digits :: "nat \<Rightarrow> nat \<Rightarrow> string \<Rightarrow> (parse_int_error, nat) result" where
  "parse_digits w n [] = Inr n"
| "parse_digits w n (c # s) =
     (if (of_char c :: nat) < 48 \<or> 57 < (of_char c :: nat) then Inl InvalidDigit
      else if 2 ^ w \<le> 10 * n + (of_char c - 48) then Inl PosOverflow
      else parse_digits w (10 * n + (of_char c - 48)) s)"

definition parse_uint :: "nat \<Rightarrow> string \<Rightarrow> (parse_int_error, nat) result" where
  "parse_uint w s =
     (if s = [] then Inl Empty
      else if s = ''+'' \<or> s = ''-'' then Inl InvalidDigit
      else parse_digits w 0 (if hd s = CHR ''+'' then tl s else s))"

lemma parse_digits_bound: "n < 2 ^ w \<Longrightarrow> parse_digits w n s = Inr m \<Longrightarrow> m < 2 ^ w"
  by (induction w n s rule: parse_digits.induct) (auto split: if_splits)

lemma parse_uint_bound: "parse_uint w s = Inr m \<Longrightarrow> m < 2 ^ w"
  by (auto simp: parse_uint_def split: if_splits intro: parse_digits_bound[of 0 w])

section \<open>Big-endian octets\<close>

text \<open>The low \<open>w\<close> octets of a number, most significant first.\<close>

fun be_bytes :: "nat \<Rightarrow> nat \<Rightarrow> bytes" where
  "be_bytes 0 n = []"
| "be_bytes (Suc w) n = be_bytes w (n div 256) @ [of_nat n]"

definition of_be_bytes :: "bytes \<Rightarrow> nat" where
  "of_be_bytes bs = foldl (\<lambda>n b. 256 * n + unat b) 0 bs"

lemma length_be_bytes [simp]: "length (be_bytes w n) = w"
  by (induction w arbitrary: n) auto

lemma of_be_bytes_be_bytes: "of_be_bytes (be_bytes w n) = n mod 256 ^ w"
proof (induction w arbitrary: n)
  case 0
  then show ?case by (simp add: of_be_bytes_def)
next
  case (Suc w)
  have "of_be_bytes (be_bytes (Suc w) n) = 256 * (n div 256 mod 256 ^ w) + n mod 256"
    using Suc by (simp add: of_be_bytes_def unat_of_nat)
  also have "\<dots> = n mod (256 * 256 ^ w)"
    by (simp add: mod_mult2_eq)
  finally show ?case by simp
qed

lemma of_be_bytes_snoc: "of_be_bytes (bs @ [b]) = 256 * of_be_bytes bs + unat b"
  by (simp add: of_be_bytes_def)

text \<open>A string of octets is the big-endian form of the number it reads as.\<close>

lemma of_be_bytes_inverse: "be_bytes (length bs) (of_be_bytes bs) = bs"
proof (induction bs rule: rev_induct)
  case Nil
  then show ?case by simp
next
  case (snoc b bs)
  have "unat b < 256"
    using unsigned_less[of b, where ?'a = nat] by simp
  then have "(256 * of_be_bytes bs + unat b) div 256 = of_be_bytes bs"
    by simp
  moreover have "(256 :: u8) = 0" by simp
  then have "(of_nat (256 * of_be_bytes bs + unat b) :: u8) = b"
    by (simp only: of_nat_add of_nat_mult of_nat_numeral mult_zero_left add_0 of_nat_unat ucast_id)
  ultimately show ?case
    using snoc by (simp only: of_be_bytes_snoc length_append_singleton be_bytes.simps)
qed

lemma drop_be_bytes: "k \<le> w \<Longrightarrow> drop (w - k) (be_bytes w n) = be_bytes k n"
proof (induction k arbitrary: w n)
  case (Suc k)
  then obtain v where "w = Suc v" by (cases w) auto
  with Suc show ?case by simp
qed simp

section \<open>Lists\<close>

lemma find_append: "find P (xs @ ys) = (case find P xs of None \<Rightarrow> find P ys | Some x \<Rightarrow> Some x)"
  by (induction xs) auto

lemma find_filter_None [simp]: "find P (filter (\<lambda>x. \<not> P x) xs) = None"
  by (auto simp: find_None_iff)

lemma find_filter_same: "(\<And>x. P x \<Longrightarrow> Q x) \<Longrightarrow> find P (filter Q xs) = find P xs"
  by (induction xs) auto

lemma sorted_le_last: "sorted xs \<Longrightarrow> x \<in> set xs \<Longrightarrow> x \<le> last xs"
  by (induction xs) (auto split: if_splits)

lemma find_SomeD: "find P xs = Some x \<Longrightarrow> P x \<and> x \<in> set xs"
  by (auto simp: find_Some_iff)

end
