(* ===== verification/Smpp_Status.thy ===== *)
theory Smpp_Status
  imports Smpp_Prelude
begin

text \<open>
  SMPP command statuses: the status enumeration as the sources name it, its numbers
  (Table 5-2 of SMPP 3.4, the table of \<open>src/src/outcome.rs\<close>), the names scripts use for
  it (\<open>parse_smpp_status\<close> of \<open>src/src/pyclasses.rs\<close>) and the names scripts read back
  (\<open>status_name\<close> of \<open>src/src/outcome.rs\<close>). The codec's decoder of a raw status,
  \<open>SmppError::from_command_status\<close>, is a parameter.
\<close>

section \<open>The status enumeration\<close>

datatype SmppError =
    ESME_ROK | ESME_RINVMSGLEN | ESME_RINVCMDLEN | ESME_RINVCMDID | ESME_RINVBNDSTS
    | ESME_RALYBND | ESME_RINVPRTFLG | ESME_RINVREGDLVFLG | ESME_RSYSERR | ESME_RINVSRCADR
    | ESME_RINVDSTADR | ESME_RINVMSGID | ESME_RBINDFAIL | ESME_RINVPASWD | ESME_RINVSYSID
    | ESME_RCANCELFAIL | ESME_RREPLACEFAIL | ESME_RMSGQFUL | ESME_RINVSERTYP
    | ESME_RINVNUMDESTS | ESME_RINVDLNAME | ESME_RINVDESTFLAG | ESME_RINVSUBREP
    | ESME_RINVESMCLASS | ESME_RCNTSUBDL | ESME_RSUBMITFAIL | ESME_RINVSRCTON
    | ESME_RINVSRCNPI | ESME_RINVDSTTON | ESME_RINVDSTNPI | ESME_RINVSYSTYP
    | ESME_RINVREPFLAG | ESME_RINVNUMMSGS | ESME_RTHROTTLED | ESME_RINVSCHED
    | ESME_RINVEXPIRY | ESME_RINVDFTMSGID | ESME_RX_T_APPN | ESME_RX_P_APPN | ESME_RX_R_APPN
    | ESME_RQUERYFAIL | ESME_RINVOPTPARSTREAM | ESME_ROPTPARNOTALLWD | ESME_RINVPARLEN
    | ESME_RMISSINGOPTPARAM | ESME_RINVOPTPARAMVAL | ESME_RDELIVERYFAILURE
    | ESME_RUNKNOWNERR

text \<open>The discriminant (\<open>as u32\<close>) of each variant.\<close>

primrec status_code :: "SmppError \<Rightarrow> u32" where
  "status_code ESME_ROK = 0x00"
| "status_code ESME_RINVMSGLEN = 0x01"
| "status_code ESME_RINVCMDLEN = 0x02"
| "status_code ESME_RINVCMDID = 0x03"
| "status_code ESME_RINVBNDSTS = 0x04"
| "status_code ESME_RALYBND = 0x05"
| "status_code ESME_RINVPRTFLG = 0x06"
| "status_code ESME_RINVREGDLVFLG = 0x07"
| "status_code ESME_RSYSERR = 0x08"
| "status_code ESME_RINVSRCADR = 0x0A"
| "status_code ESME_RINVDSTADR = 0x0B"
| "status_code ESME_RINVMSGID = 0x0C"
| "status_code ESME_RBINDFAIL = 0x0D"
| "status_code ESME_RINVPASWD = 0x0E"
| "status_code ESME_RINVSYSID = 0x0F"
| "status_code ESME_RCANCELFAIL = 0x11"
| "status_code ESME_RREPLACEFAIL = 0x13"
| "status_code ESME_RMSGQFUL = 0x14"
| "status_code ESME_RINVSERTYP = 0x15"
| "status_code ESME_RINVNUMDESTS = 0x33"
| "status_code ESME_RINVDLNAME = 0x34"
| "status_code ESME_RINVDESTFLAG = 0x40"
| "status_code ESME_RINVSUBREP = 0x42"
| "status_code ESME_RINVESMCLASS = 0x43"
| "status_code ESME_RCNTSUBDL = 0x44"
| "status_code ESME_RSUBMITFAIL = 0x45"
| "status_code ESME_RINVSRCTON = 0x48"
| "status_code ESME_RINVSRCNPI = 0x49"
| "status_code ESME_RINVDSTTON = 0x50"
| "status_code ESME_RINVDSTNPI = 0x51"
| "status_code ESME_RINVSYSTYP = 0x53"
| "status_code ESME_RINVREPFLAG = 0x54"
| "status_code ESME_RINVNUMMSGS = 0x55"
| "status_code ESME_RTHROTTLED = 0x58"
| "status_code ESME_RINVSCHED = 0x61"
| "status_code ESME_RINVEXPIRY = 0x62"
| "status_code ESME_RINVDFTMSGID = 0x63"
| "status_code ESME_RX_T_APPN = 0x64"
| "status_code ESME_RX_P_APPN = 0x65"
| "status_code ESME_RX_R_APPN = 0x66"
| "status_code ESME_RQUERYFAIL = 0x67"
| "status_code ESME_RINVOPTPARSTREAM = 0xC0"
| "status_code ESME_ROPTPARNOTALLWD = 0xC1"
| "status_code ESME_RINVPARLEN = 0xC2"
| "status_code ESME_RMISSINGOPTPARAM = 0xC3"
| "status_code ESME_RINVOPTPARAMVAL = 0xC4"
| "status_code ESME_RDELIVERYFAILURE = 0xFE"
| "status_code ESME_RUNKNOWNERR = 0xFF"

text \<open>The \<open>Debug\<close> form of a variant is its name.\<close>

primrec status_debug :: "SmppError \<Rightarrow> string" where
  "status_debug ESME_ROK = ''ESME_ROK''"
| "status_debug ESME_RINVMSGLEN = ''ESME_RINVMSGLEN''"
| "status_debug ESME_RINVCMDLEN = ''ESME_RINVCMDLEN''"
| "status_debug ESME_RINVCMDID = ''ESME_RINVCMDID''"
| "status_debug ESME_RINVBNDSTS = ''ESME_RINVBNDSTS''"
| "status_debug ESME_RALYBND = ''ESME_RALYBND''"
| "status_debug ESME_RINVPRTFLG = ''ESME_RINVPRTFLG''"
| "status_debug ESME_RINVREGDLVFLG = ''ESME_RINVREGDLVFLG''"
| "status_debug ESME_RSYSERR = ''ESME_RSYSERR''"
| "status_debug ESME_RINVSRCADR = ''ESME_RINVSRCADR''"
| "status_debug ESME_RINVDSTADR = ''ESME_RINVDSTADR''"
| "status_debug ESME_RINVMSGID = ''ESME_RINVMSGID''"
| "status_debug ESME_RBINDFAIL = ''ESME_RBINDFAIL''"
| "status_debug ESME_RINVPASWD = ''ESME_RINVPASWD''"
| "status_debug ESME_RINVSYSID = ''ESME_RINVSYSID''"
| "status_debug ESME_RCANCELFAIL = ''ESME_RCANCELFAIL''"
| "status_debug ESME_RREPLACEFAIL = ''ESME_RREPLACEFAIL''"
| "status_debug ESME_RMSGQFUL = ''ESME_RMSGQFUL''"
| "status_debug ESME_RINVSERTYP = ''ESME_RINVSERTYP''"
| "status_debug ESME_RINVNUMDESTS = ''ESME_RINVNUMDESTS''"
| "status_debug ESME_RINVDLNAME = ''ESME_RINVDLNAME''"
| "status_debug ESME_RINVDESTFLAG = ''ESME_RINVDESTFLAG''"
| "status_debug ESME_RINVSUBREP = ''ESME_RINVSUBREP''"
| "status_debug ESME_RINVESMCLASS = ''ESME_RINVESMCLASS''"
| "status_debug ESME_RCNTSUBDL = ''ESME_RCNTSUBDL''"
| "status_debug ESME_RSUBMITFAIL = ''ESME_RSUBMITFAIL''"
| "status_debug ESME_RINVSRCTON = ''ESME_RINVSRCTON''"
| "status_debug ESME_RINVSRCNPI = ''ESME_RINVSRCNPI''"
| "status_debug ESME_RINVDSTTON = ''ESME_RINVDSTTON''"
| "status_debug ESME_RINVDSTNPI = ''ESME_RINVDSTNPI''"
| "status_debug ESME_RINVSYSTYP = ''ESME_RINVSYSTYP''"
| "status_debug ESME_RINVREPFLAG = ''ESME_RINVREPFLAG''"
| "status_debug ESME_RINVNUMMSGS = ''ESME_RINVNUMMSGS''"
| "status_debug ESME_RTHROTTLED = ''ESME_RTHROTTLED''"
| "status_debug ESME_RINVSCHED = ''ESME_RINVSCHED''"
| "status_debug ESME_RINVEXPIRY = ''ESME_RINVEXPIRY''"
| "status_debug ESME_RINVDFTMSGID = ''ESME_RINVDFTMSGID''"
| "status_debug ESME_RX_T_APPN = ''ESME_RX_T_APPN''"
| "status_debug ESME_RX_P_APPN = ''ESME_RX_P_APPN''"
| "status_debug ESME_RX_R_APPN = ''ESME_RX_R_APPN''"
| "status_debug ESME_RQUERYFAIL = ''ESME_RQUERYFAIL''"
| "status_debug ESME_RINVOPTPARSTREAM = ''ESME_RINVOPTPARSTREAM''"
| "status_debug ESME_ROPTPARNOTALLWD = ''ESME_ROPTPARNOTALLWD''"
| "status_debug ESME_RINVPARLEN = ''ESME_RINVPARLEN''"
| "status_debug ESME_RMISSINGOPTPARAM = ''ESME_RMISSINGOPTPARAM''"
| "status_debug ESME_RINVOPTPARAMVAL = ''ESME_RINVOPTPARAMVAL''"
| "status_debug ESME_RDELIVERYFAILURE = ''ESME_RDELIVERYFAILURE''"
| "status_debug ESME_RUNKNOWNERR = ''ESME_RUNKNOWNERR''"

section \<open>Names scripts write\<close>

definition status_names :: "(string \<times> SmppError) list" where
  "status_names =
     [(''ESME_ROK'', ESME_ROK),
      (''ESME_RINVMSGLEN'', ESME_RINVMSGLEN),
      (''ESME_RINVCMDLEN'', ESME_RINVCMDLEN),
      (''ESME_RINVCMDID'', ESME_RINVCMDID),
      (''ESME_RINVBNDSTS'', ESME_RINVBNDSTS),
      (''ESME_RALYBND'', ESME_RALYBND),
      (''ESME_RINVPRTFLG'', ESME_RINVPRTFLG),
      (''ESME_RINVREGDLVFLG'', ESME_RINVREGDLVFLG),
      (''ESME_RSYSERR'', ESME_RSYSERR),
      (''ESME_RINVSRCADR'', ESME_RINVSRCADR),
      (''ESME_RINVDSTADR'', ESME_RINVDSTADR),
      (''ESME_RINVMSGID'', ESME_RINVMSGID),
      (''ESME_RBINDFAIL'', ESME_RBINDFAIL),
      (''ESME_RINVPASWD'', ESME_RINVPASWD),
      (''ESME_RINVSYSID'', ESME_RINVSYSID),
      (''ESME_RCANCELFAIL'', ESME_RCANCELFAIL),
      (''ESME_RREPLACEFAIL'', ESME_RREPLACEFAIL),
      (''ESME_RMSGQFUL'', ESME_RMSGQFUL),
      (''ESME_RINVSERTYP'', ESME_RINVSERTYP),
      (''ESME_RINVNUMDESTS'', ESME_RINVNUMDESTS),
      (''ESME_RINVDLNAME'', ESME_RINVDLNAME),
      (''ESME_RINVDESTFLAG'', ESME_RINVDESTFLAG),
      (''ESME_RINVSUBREP'', ESME_RINVSUBREP),
      (''ESME_RINVESMCLASS'', ESME_RINVESMCLASS),
      (''ESME_RCNTSUBDL'', ESME_RCNTSUBDL),
      (''ESME_RSUBMITFAIL'', ESME_RSUBMITFAIL),
      (''ESME_RINVSRCTON'', ESME_RINVSRCTON),
      (''ESME_RINVSRCNPI'', ESME_RINVSRCNPI),
      (''ESME_RINVDSTTON'', ESME_RINVDSTTON),
      (''ESME_RINVDSTNPI'', ESME_RINVDSTNPI),
      (''ESME_RINVSYSTYP'', ESME_RINVSYSTYP),
      (''ESME_RINVREPFLAG'', ESME_RINVREPFLAG),
      (''ESME_RINVNUMMSGS'', ESME_RINVNUMMSGS),
      (''ESME_RTHROTTLED'', ESME_RTHROTTLED),
      (''ESME_RINVSCHED'', ESME_RINVSCHED),
      (''ESME_RINVEXPIRY'', ESME_RINVEXPIRY),
      (''ESME_RINVDFTMSGID'', ESME_RINVDFTMSGID),
      (''ESME_RX_T_APPN'', ESME_RX_T_APPN),
      (''ESME_RX_P_APPN'', ESME_RX_P_APPN),
      (''ESME_RX_R_APPN'', ESME_RX_R_APPN),
      (''ESME_RQUERYFAIL'', ESME_RQUERYFAIL),
      (''ESME_RINVOPTPARSTREAM'', ESME_RINVOPTPARSTREAM),
      (''ESME_ROPTPARNOTALLWD'', ESME_ROPTPARNOTALLWD),
      (''ESME_RINVPARLEN'', ESME_RINVPARLEN),
      (''ESME_RMISSINGOPTPARAM'', ESME_RMISSINGOPTPARAM),
      (''ESME_RINVOPTPARAMVAL'', ESME_RINVOPTPARAMVAL),
      (''ESME_RDELIVERYFAILURE'', ESME_RDELIVERYFAILURE),
      (''ESME_RUNKNOWNERR'', ESME_RUNKNOWNERR)]"

definition parse_smpp_status :: "string \<Rightarrow> SmppError option" where
  "parse_smpp_status s = map_of status_names s"

section \<open>Names scripts read\<close>

definition status_name :: "(u32 \<Rightarrow> SmppError) \<Rightarrow> u32 \<Rightarrow> string" where
  "status_name from_command_status status =
     (let known = from_command_status status in
      if status_code known = status then status_debug known
      else ''0x'' @ hex_upper 8 (unat status))"

definition ESME_RTHROTTLED_CODE :: u32 where
  "ESME_RTHROTTLED_CODE = 0x58"

definition ESME_RMSGQFUL_CODE :: u32 where
  "ESME_RMSGQFUL_CODE = 0x14"

definition is_throttle :: "u32 \<Rightarrow> bool" where
  "is_throttle status \<longleftrightarrow> status = ESME_RTHROTTLED_CODE \<or> status = ESME_RMSGQFUL_CODE"

section \<open>Name tables\<close>

text \<open>
  The contract of a value that travels as a name: decoding the name gives the value back.
  Whoever holds it knows that two values never share a name and that a decoded name is
  the canonical one of its value or a synonym of it.
\<close>

locale name_table =
  fixes enc :: "'a \<Rightarrow> string" and dec :: "string \<Rightarrow> 'a option"
  assumes dec_enc: "dec (enc a) = Some a"
begin

lemma enc_inject: "enc a = enc b \<longleftrightarrow> a = b"
  by (metis dec_enc option.inject)

lemma dec_total_on_names: "s \<in> range enc \<Longrightarrow> \<exists>a. dec s = Some a \<and> enc a = s"
  using dec_enc by auto

end

text \<open>The table names every status, once, by what \<open>{:?}\<close> prints of it.\<close>

lemma status_in_table: "e \<in> set (map snd status_names)"
  by (cases e) (simp_all add: status_names_def)

lemma status_names_debug: "(n, e) \<in> set status_names \<Longrightarrow> n = status_debug e"
proof -
  have "list_all (\<lambda>(n, e). n = status_debug e) status_names" by (simp add: status_names_def)
  then show "(n, e) \<in> set status_names \<Longrightarrow> n = status_debug e" by (auto simp: list_all_iff)
qed

lemma status_names_distinct: "distinct (map fst status_names)"
  by code_simp

lemma parse_status_debug: "parse_smpp_status (status_debug e) = Some e"
proof -
  obtain n where n: "(n, e) \<in> set status_names" using status_in_table[of e] by auto
  then have "map_of status_names n = Some e" by (simp add: status_names_distinct)
  then show ?thesis using status_names_debug[OF n] by (simp add: parse_smpp_status_def)
qed

interpretation status_table: name_table status_debug parse_smpp_status
  by unfold_locales (rule parse_status_debug)

text \<open>The statuses are the finite enumeration of the table, so that quantifiers over them compute.\<close>

lemma status_UNIV: "UNIV = set (map snd status_names)"
  using status_in_table by blast

instantiation SmppError :: enum
begin

definition enum_SmppError :: "SmppError list" where
  "enum_SmppError = map snd status_names"

definition enum_all_SmppError :: "(SmppError \<Rightarrow> bool) \<Rightarrow> bool" where
  "enum_all_SmppError P = list_all P (map snd status_names)"

definition enum_ex_SmppError :: "(SmppError \<Rightarrow> bool) \<Rightarrow> bool" where
  "enum_ex_SmppError P = list_ex P (map snd status_names)"

instance
proof
  show "UNIV = set (enum_class.enum :: SmppError list)" by (simp only: enum_SmppError_def status_UNIV)
  show "distinct (enum_class.enum :: SmppError list)" by (simp add: enum_SmppError_def status_names_def)
  show "enum_class.enum_all P = Ball (UNIV :: SmppError set) P" for P
    by (simp only: enum_all_SmppError_def status_UNIV list_all_iff)
  show "enum_class.enum_ex P = Bex (UNIV :: SmppError set) P" for P
    by (simp only: enum_ex_SmppError_def status_UNIV list_ex_iff)
qed

end

lemma map_of_status_names_SomeD: "map_of status_names s = Some e \<Longrightarrow> s = status_debug e"
  by (rule status_names_debug) (rule map_of_SomeD)

lemma status_code_inject [simp]: "status_code a = status_code b \<longleftrightarrow> a = b"
proof
  have "map_of (map (\<lambda>e. (status_code e, e)) (map snd status_names)) (status_code c) = Some c" for c
    by (cases c) (simp_all add: status_names_def)
  then show "status_code a = status_code b \<Longrightarrow> a = b"
    by (metis option.inject)
qed simp

lemma status_debug_hd: "hd (status_debug e) = CHR ''E'' \<and> status_debug e \<noteq> []"
  by (cases e) simp_all

section \<open>Properties\<close>

text \<open>
  The status a script reads identifies the status that was on the wire: two different
  command statuses never read as the same name, whatever the codec's decoder does with
  statuses it does not know.
\<close>

theorem status_name_injective: "inj (status_name from_command_status)"
proof (rule injI)
  fix s t
  assume eq: "status_name from_command_status s = status_name from_command_status t"
  have hd_hex: "status_debug e \<noteq> ''0x'' @ h" for e h
    using status_debug_hd[of e] by auto
  show "s = t"
    using eq hd_hex hd_hex[symmetric]
    by (auto simp: status_name_def Let_def status_table.enc_inject word_unat_eq_iff[of s t]
        split: if_splits)
qed

text \<open>
  A decoder with the documented behaviour: the variant of a known number, and
  \<open>ESME_RUNKNOWNERR\<close> for every other.
\<close>

definition table_decoder :: "u32 \<Rightarrow> SmppError" where
  "table_decoder s = unwrap_or ESME_RUNKNOWNERR (find (\<lambda>e. status_code e = s) (map snd status_names))"

lemma table_decoder_code: "table_decoder (status_code e) = e"
  by (cases e) (simp_all add: table_decoder_def status_names_def)

text \<open>
  Where the codec decodes every Table 5-2 number to its variant, the name a script reads
  for such a status is the name it may write for it in a reply: reading a status and
  answering with its name sends the same status.
\<close>

lemma status_name_parse_roundtrip:
  assumes "\<forall>e. from_command_status (status_code e) = e"
  shows "parse_smpp_status (status_name from_command_status (status_code e)) = Some e"
  using assms by (simp add: status_name_def parse_status_debug)

text \<open>
  A status outside Table 5-2 keeps its number: it reads as its eight-digit hexadecimal
  value, from which the number can be read back, and never as the name of another status.
\<close>

theorem status_name_outside_table:
  assumes "s \<notin> range status_code"
  shows "status_name from_command_status s = ''0x'' @ hex_upper 8 (unat s)
    \<and> of_hex (drop 2 (status_name from_command_status s)) = unat s
    \<and> parse_smpp_status (status_name from_command_status s) = None"
proof -
  have "status_code (from_command_status s) \<noteq> s"
    using assms by (metis rangeI)
  then have name: "status_name from_command_status s = ''0x'' @ hex_upper 8 (unat s)"
    by (simp add: status_name_def)
  have "map_of status_names (''0x'' @ h) = None" for h
  proof (cases "map_of status_names (''0x'' @ h)")
    case None
    then show ?thesis .
  next
    case (Some e)
    then have "status_debug e = ''0x'' @ h"
      using map_of_status_names_SomeD by metis
    then have "hd (status_debug e) = CHR ''0''" by simp
    then show ?thesis using status_debug_hd[of e] by simp
  qed
  then have none: "parse_smpp_status (''0x'' @ h) = None" for h
    by (simp only: parse_smpp_status_def)
  have "of_hex (drop 2 (''0x'' @ h)) = of_hex h" for h
    by simp
  then show ?thesis
    unfolding name none of_hex_hex_upper by simp
qed

lemma vendor_status_outside_table: "0x401 \<notin> range status_code"
  unfolding status_UNIV by (simp add: status_names_def)

theorem status_name_outside_table_witness:
  "status_name table_decoder 0x401 = ''0x'' @ hex_upper 8 1025
    \<and> of_hex (drop 2 (status_name table_decoder 0x401)) = 1025"
  using status_name_outside_table[OF vendor_status_outside_table, of table_decoder] by simp

text \<open>
  Exactly two statuses of Table 5-2 ask the sender to back off.
\<close>

theorem is_throttle_iff:
  "is_throttle (status_code e) \<longleftrightarrow> e = ESME_RTHROTTLED \<or> e = ESME_RMSGQFUL"
  by (cases e) (simp_all add: is_throttle_def ESME_RTHROTTLED_CODE_def ESME_RMSGQFUL_CODE_def)

end
