(* ===== verification/Smpp_Python.thy ===== *)
theory Smpp_Python
  imports Smpp_Status
begin

text \<open>
  The Python values and exceptions that cross the script boundary. A value is modelled as
  far as the sources look at it: its kind, its contents, and, for an object of any other
  class, its class name, its truth value and the instance of one of the addon's own classes
  it may be. An exception message is the data the source formats into it.
\<close>

section \<open>Codec data\<close>

text \<open>An optional parameter as the codec keeps it: a tag and its raw octets.\<close>

record Tlv =
  tlv_tag :: u16
  tlv_value :: bytes

section \<open>Exceptions\<close>

datatype py_msg =
    Unknown_TLV_name string
  | TLV_tag_out_of_range int
  | TLV_key_type string
  | TLV_value_negative string
  | TLV_not_integer_typed string
  | TLV_value_does_not_fit string nat nat
  | TLV_value_type string string
  | TLV_given_twice string
  | Unknown_SMPP_status string
  | Reply_tlvs_off_data_sm string
  | Short_message_too_long string nat bool
  | Body_given_twice string
  | Too_many_destinations nat
  | Bind_not_bound string
  | Esme_not_bound string
  | Esme_not_receiver string string
  | Runtime_not_started

text \<open>The attributes of an \<open>SmppSendError\<close> still to be raised.\<close>

record SendErrorValue =
  se_message :: string
  se_reason :: string
  se_command :: string
  se_status :: "(string \<times> u32) option"

datatype py_error =
    PyValueError py_msg
  | PyTypeError py_msg
  | PyKeyError py_msg
  | PyRuntimeError py_msg
  | PyOverflowError
  | PyUnicodeEncodeError
  | SmppSendError SendErrorValue
  | PyRaised string

type_synonym 'a py_result = "(py_error, 'a) result"

section \<open>Values\<close>

text \<open>
  \<open>PySurrogates\<close> is a \<open>str\<close> that has no UTF-8 form (it holds a lone surrogate).
  \<open>PyObject cls truth contents\<close> is an instance of any other class; \<open>truth\<close> is what
  \<open>bool(value)\<close> gives, \<open>None\<close> when it raises.
\<close>

datatype 'o pyval =
    PyNone
  | PyBool bool
  | PyInt int
  | PyStr string
  | PySurrogates
  | PyBytes bytes
  | PyByteArray bytes
  | PyObject string "bool option" 'o

text \<open>A \<open>dict\<close> in its iteration order, which is insertion order.\<close>

type_synonym 'o pydict = "('o pyval \<times> 'o pyval) list"

fun py_type_name :: "'o pyval \<Rightarrow> string" where
  "py_type_name PyNone = ''NoneType''"
| "py_type_name (PyBool b) = ''bool''"
| "py_type_name (PyInt i) = ''int''"
| "py_type_name (PyStr s) = ''str''"
| "py_type_name PySurrogates = ''str''"
| "py_type_name (PyBytes b) = ''bytes''"
| "py_type_name (PyByteArray b) = ''bytearray''"
| "py_type_name (PyObject c t x) = c"

text \<open>\<open>bool\<close> is a subclass of \<open>int\<close>: both are instances of \<open>int\<close>.\<close>

fun py_as_int :: "'o pyval \<Rightarrow> int option" where
  "py_as_int (PyBool b) = Some (if b then 1 else 0)"
| "py_as_int (PyInt i) = Some i"
| "py_as_int _ = None"

text \<open>A \<open>dict\<close>'s \<open>set_item\<close>: an existing key keeps its place and takes the new value.\<close>

definition set_item :: "'k \<Rightarrow> 'v \<Rightarrow> ('k \<times> 'v) list \<Rightarrow> ('k \<times> 'v) list" where
  "set_item k v d = AList.update k v d"

lemma set_item_new: "k \<notin> fst ` set d \<Longrightarrow> set_item k v d = d @ [(k, v)]"
  unfolding set_item_def by (induction d) auto

lemma map_of_set_item [simp]: "map_of (set_item k v d) = (map_of d)(k \<mapsto> v)"
  by (simp add: set_item_def update_conv' fun_eq_iff)

end
