(* ===== verification/Smpp_Tlv.thy ===== *)
theory Smpp_Tlv
  imports Smpp_Python
begin

text \<open>
  Optional parameters (\<open>src/src/tlv.rs\<close>): the dict a script writes and the tag/octets
  list the codec carries. The codec's tag table (\<open>TlvTag::ALL\<close>), the numbers of its tag
  variants, its readers of single parameters (the \<open>TlvList\<close> trait), its decoder of command
  statuses and the length octet its constructors put before a body are parameters, collected
  in the record \<open>codec\<close>.
\<close>

section \<open>What the codec provides\<close>

text \<open>The tag variants the sources name.\<close>

datatype TlvTag =
    DestAddrSubunit | DestNetworkType | DestBearerType | DestTelematicsId
    | SourceAddrSubunit | SourceNetworkType | SourceBearerType | SourceTelematicsId
    | QosTimeToLive | PayloadType | MsMsgWaitFacilities | PrivacyIndicator
    | UserMessageReference | UserResponseCode | SourcePort | DestinationPort | SarMsgRefNum
    | LanguageIndicator | SarTotalSegments | SarSegmentSeqnum | ScInterfaceVersion
    | CallbackNumPresInd | NumberOfMessages | DpfResult | SetDpf | MsAvailabilityStatus
    | DeliveryFailureReason | MoreMessagesToSend | MessageStateTlv | UssdServiceOp
    | DisplayTime | SmsSignal | MsValidity | ItsReplyType | MessagePayload

record codec =
  TlvTag_ALL :: "(string \<times> u16) list"
  tag_code :: "TlvTag \<Rightarrow> u16"
  get_message_payload :: "Tlv list \<Rightarrow> bytes option"
  get_receipted_message_id :: "Tlv list \<Rightarrow> string option"
  get_message_state :: "Tlv list \<Rightarrow> u8 option"
  get_user_message_reference :: "Tlv list \<Rightarrow> u16 option"
  get_sar_msg_ref_num :: "Tlv list \<Rightarrow> u16 option"
  get_sar_total_segments :: "Tlv list \<Rightarrow> u8 option"
  get_sar_segment_seqnum :: "Tlv list \<Rightarrow> u8 option"
  get_more_messages_to_send :: "Tlv list \<Rightarrow> u8 option"
  get_network_error_code :: "Tlv list \<Rightarrow> (u8 \<times> u16) option"
  get_tlv_raw :: "Tlv list \<Rightarrow> u16 \<Rightarrow> Tlv option"
  sm_length_of :: "bytes \<Rightarrow> u8"
  from_command_status :: "u32 \<Rightarrow> SmppError"

section \<open>Tags\<close>

definition INT_WIDTHS :: "(TlvTag \<times> nat) list" where
  "INT_WIDTHS =
     [
      (DestAddrSubunit, 1), (DestNetworkType, 1), (DestBearerType, 1), (DestTelematicsId, 2)
      , (SourceAddrSubunit, 1), (SourceNetworkType, 1), (SourceBearerType, 1)
      , (SourceTelematicsId, 1), (QosTimeToLive, 4), (PayloadType, 1)
      , (MsMsgWaitFacilities, 1), (PrivacyIndicator, 1), (UserMessageReference, 2)
      , (UserResponseCode, 1), (SourcePort, 2), (DestinationPort, 2), (SarMsgRefNum, 2)
      , (LanguageIndicator, 1), (SarTotalSegments, 1), (SarSegmentSeqnum, 1)
      , (ScInterfaceVersion, 1), (CallbackNumPresInd, 1), (NumberOfMessages, 1)
      , (DpfResult, 1), (SetDpf, 1), (MsAvailabilityStatus, 1), (DeliveryFailureReason, 1)
      , (MoreMessagesToSend, 1), (MessageStateTlv, 1), (UssdServiceOp, 1), (DisplayTime, 1)
      , (SmsSignal, 2), (MsValidity, 1), (ItsReplyType, 1)]"

definition int_width :: "codec \<Rightarrow> u16 \<Rightarrow> nat option" where
  "int_width C t = map_option snd (find (\<lambda>(v, _). tag_code C v = t) INT_WIDTHS)"

definition tag_from_name :: "codec \<Rightarrow> string \<Rightarrow> u16 option" where
  "tag_from_name C name =
     (let wanted = to_ascii_uppercase (trim name);
          wanted = unwrap_or wanted (strip_prefix ''TLV_'' wanted)
      in map_option snd (find (\<lambda>(n, _). n = wanted) (TlvTag_ALL C)))"

definition name_for_tag :: "codec \<Rightarrow> u16 \<Rightarrow> string option" where
  "name_for_tag C t = map_option fst (find (\<lambda>(_, u). u = t) (TlvTag_ALL C))"

definition describe_tag :: "codec \<Rightarrow> u16 \<Rightarrow> string" where
  "describe_tag C t =
     (case name_for_tag C t of
        Some name \<Rightarrow> name @ '' (0x'' @ hex_upper 4 (unat t) @ '')''
      | None \<Rightarrow> ''0x'' @ hex_upper 4 (unat t))"

definition tag_from_py :: "codec \<Rightarrow> 'o pyval \<Rightarrow> u16 py_result" where
  "tag_from_py C key =
     (case key of
        PyStr name \<Rightarrow> ok_or (tag_from_name C name) (PyValueError (Unknown_TLV_name name))
      | PySurrogates \<Rightarrow> Inl PyUnicodeEncodeError
      | _ \<Rightarrow>
          (case py_as_int key of
             Some raw \<Rightarrow>
               (if raw < - (2 ^ 63) \<or> 2 ^ 63 \<le> raw then Inl PyOverflowError
                else if 0 \<le> raw \<and> raw < 2 ^ 16 then Inr (word_of_int raw)
                else Inl (PyValueError (TLV_tag_out_of_range raw)))
           | None \<Rightarrow> Inl (PyTypeError (TLV_key_type (py_type_name key)))))"

section \<open>Values\<close>

definition str_bytes :: "string \<Rightarrow> bytes" where
  "str_bytes s = map (\<lambda>c. of_nat (of_char c)) s"

definition value_to_bytes :: "codec \<Rightarrow> u16 \<Rightarrow> 'o pyval \<Rightarrow> bytes py_result" where
  "value_to_bytes C t v =
     (case v of
        PyBytes b \<Rightarrow> Inr b
      | PyByteArray b \<Rightarrow> Inr b
      | PyStr s \<Rightarrow> Inr (str_bytes s @ [0])
      | PySurrogates \<Rightarrow> Inl PyUnicodeEncodeError
      | _ \<Rightarrow>
          (case py_as_int v of
             Some i \<Rightarrow>
               rbind (if 0 \<le> i \<and> i < 2 ^ 64 then Inr (nat i)
                      else Inl (PyValueError (TLV_value_negative (describe_tag C t)))) (\<lambda>raw.
               rbind (ok_or (int_width C t)
                        (PyValueError (TLV_not_integer_typed (describe_tag C t)))) (\<lambda>width.
               let max = (if 8 \<le> width then 2 ^ 64 - 1 else 2 ^ (width * 8) - 1) in
               if max < raw
               then Inl (PyValueError (TLV_value_does_not_fit (describe_tag C t) raw width))
               else Inr (drop (8 - width) (be_bytes 8 raw))))
           | None \<Rightarrow> Inl (PyTypeError (TLV_value_type (describe_tag C t) (py_type_name v)))))"

section \<open>Whole dicts\<close>

fun tlvs_from_items :: "codec \<Rightarrow> Tlv list \<Rightarrow> 'o pydict \<Rightarrow> (Tlv list) py_result" where
  "tlvs_from_items C out [] = Inr out"
| "tlvs_from_items C out ((key, v) # items) =
     rbind (tag_from_py C key) (\<lambda>t.
     if list_ex (\<lambda>x. tlv_tag x = t) out
     then Inl (PyValueError (TLV_given_twice (describe_tag C t)))
     else rbind (value_to_bytes C t v) (\<lambda>b.
     tlvs_from_items C (out @ [\<lparr>tlv_tag = t, tlv_value = b\<rparr>]) items))"

definition tlvs_from_py :: "codec \<Rightarrow> 'o pydict option \<Rightarrow> (Tlv list) py_result" where
  "tlvs_from_py C dict =
     (case dict of None \<Rightarrow> Inr [] | Some items \<Rightarrow> tlvs_from_items C [] items)"

definition tlvs_to_py :: "Tlv list \<Rightarrow> (u16 \<times> bytes) list" where
  "tlvs_to_py tlvs = foldl (\<lambda>d x. set_item (tlv_tag x) (tlv_value x) d) [] tlvs"

section \<open>Lemmas\<close>

lemma INT_WIDTHS_range: "(v, w) \<in> set INT_WIDTHS \<Longrightarrow> w = 1 \<or> w = 2 \<or> w = 4"
  by (auto simp: INT_WIDTHS_def)

lemma int_width_range: "int_width C t = Some w \<Longrightarrow> w = 1 \<or> w = 2 \<or> w = 4"
  by (auto simp: int_width_def dest!: find_SomeD INT_WIDTHS_range)

lemma value_to_bytes_int:
  assumes "py_as_int v = Some i"
  shows "value_to_bytes C t v =
     (if i < 0 \<or> 2 ^ 64 \<le> i then Inl (PyValueError (TLV_value_negative (describe_tag C t)))
      else case int_width C t of
        None \<Rightarrow> Inl (PyValueError (TLV_not_integer_typed (describe_tag C t)))
      | Some w \<Rightarrow>
          if 256 ^ w \<le> nat i
          then Inl (PyValueError (TLV_value_does_not_fit (describe_tag C t) (nat i) w))
          else Inr (be_bytes w (nat i)))"
proof -
  have pow: "(2::nat) ^ (w * 8) = 256 ^ w" for w
    by (subst mult.commute) (simp add: power_mult)
  have w8: "int_width C t = Some w \<Longrightarrow> \<not> 8 \<le> w" for w
    by (auto dest: int_width_range)
  have less: "(256 ^ w - Suc 0 < n) = (256 ^ w \<le> n)" for w and n :: nat
    using zero_less_power[of "256::nat" w] by linarith
  define n where "n = nat i"
  have unf: "value_to_bytes C t v =
      rbind (if 0 \<le> i \<and> i < 2 ^ 64 then Inr n
             else Inl (PyValueError (TLV_value_negative (describe_tag C t)))) (\<lambda>raw.
      rbind (ok_or (int_width C t)
               (PyValueError (TLV_not_integer_typed (describe_tag C t)))) (\<lambda>width.
      let max = (if 8 \<le> width then 2 ^ 64 - 1 else 2 ^ (width * 8) - 1) in
      if max < raw
      then Inl (PyValueError (TLV_value_does_not_fit (describe_tag C t) raw width))
      else Inr (drop (8 - width) (be_bytes 8 raw))))"
    using assms by (cases v) (auto simp: value_to_bytes_def n_def)
  show ?thesis
    unfolding unf n_def[symmetric]
    by (cases "int_width C t") (auto simp: Let_def pow less drop_be_bytes dest: w8)
qed

lemma tlvs_from_items_append:
  assumes "tlvs_from_items C out items = Inr ts"
    and "distinct (map tlv_tag out)"
  shows "distinct (map tlv_tag ts) \<and>
    (\<exists>new. ts = out @ new \<and> length new = length items \<and>
      list_all2 (\<lambda>(key, v) x. tag_from_py C key = Inr (tlv_tag x) \<and>
        value_to_bytes C (tlv_tag x) v = Inr (tlv_value x)) items new)"
  using assms
proof (induction C out items arbitrary: ts rule: tlvs_from_items.induct)
  case (1 C out)
  then show ?case by simp
next
  case (2 C out key v items)
  from "2.prems"(1) obtain t b where t: "tag_from_py C key = Inr t"
    and fresh: "\<not> list_ex (\<lambda>x. tlv_tag x = t) out"
    and b: "value_to_bytes C t v = Inr b"
    and rest: "tlvs_from_items C (out @ [\<lparr>tlv_tag = t, tlv_value = b\<rparr>]) items = Inr ts"
    by (auto simp: rbind_Inr_iff split: if_splits)
  have dist: "distinct (map tlv_tag (out @ [\<lparr>tlv_tag = t, tlv_value = b\<rparr>]))"
    using fresh "2.prems"(2) by (auto simp: list_ex_iff)
  from "2.IH"[OF fresh rest dist] t b show ?case
    by fastforce
qed

lemma foldl_set_item_distinct:
  "distinct (map tlv_tag tlvs) \<Longrightarrow> fst ` set d \<inter> tlv_tag ` set tlvs = {} \<Longrightarrow>
   foldl (\<lambda>d x. set_item (tlv_tag x) (tlv_value x) d) d tlvs =
     d @ map (\<lambda>x. (tlv_tag x, tlv_value x)) tlvs"
  by (induction tlvs arbitrary: d) (auto simp: set_item_new)

lemma tlvs_to_py_distinct:
  "distinct (map tlv_tag tlvs) \<Longrightarrow> tlvs_to_py tlvs = map (\<lambda>x. (tlv_tag x, tlv_value x)) tlvs"
  by (simp add: tlvs_to_py_def foldl_set_item_distinct)


text \<open>
  A codec instance for the witnesses: the tags with the numbers of SMPP 3.4 section 5.3.2,
  and readers that look a tag up and read its octets.
\<close>

primrec spec_tag_code :: "TlvTag \<Rightarrow> u16" where
  "spec_tag_code DestAddrSubunit = 0x0005"
| "spec_tag_code DestNetworkType = 0x0006"
| "spec_tag_code DestBearerType = 0x0007"
| "spec_tag_code DestTelematicsId = 0x0008"
| "spec_tag_code SourceAddrSubunit = 0x000D"
| "spec_tag_code SourceNetworkType = 0x000E"
| "spec_tag_code SourceBearerType = 0x000F"
| "spec_tag_code SourceTelematicsId = 0x0010"
| "spec_tag_code QosTimeToLive = 0x0017"
| "spec_tag_code PayloadType = 0x0019"
| "spec_tag_code MsMsgWaitFacilities = 0x0030"
| "spec_tag_code PrivacyIndicator = 0x0201"
| "spec_tag_code UserMessageReference = 0x0204"
| "spec_tag_code UserResponseCode = 0x0205"
| "spec_tag_code SourcePort = 0x020A"
| "spec_tag_code DestinationPort = 0x020B"
| "spec_tag_code SarMsgRefNum = 0x020C"
| "spec_tag_code LanguageIndicator = 0x020D"
| "spec_tag_code SarTotalSegments = 0x020E"
| "spec_tag_code SarSegmentSeqnum = 0x020F"
| "spec_tag_code ScInterfaceVersion = 0x0210"
| "spec_tag_code CallbackNumPresInd = 0x0302"
| "spec_tag_code NumberOfMessages = 0x0304"
| "spec_tag_code DpfResult = 0x0420"
| "spec_tag_code SetDpf = 0x0421"
| "spec_tag_code MsAvailabilityStatus = 0x0422"
| "spec_tag_code DeliveryFailureReason = 0x0425"
| "spec_tag_code MoreMessagesToSend = 0x0426"
| "spec_tag_code MessageStateTlv = 0x0427"
| "spec_tag_code UssdServiceOp = 0x0501"
| "spec_tag_code DisplayTime = 0x1201"
| "spec_tag_code SmsSignal = 0x1203"
| "spec_tag_code MsValidity = 0x1204"
| "spec_tag_code ItsReplyType = 0x1380"
| "spec_tag_code MessagePayload = 0x0424"

definition spec_u8 :: "u16 \<Rightarrow> Tlv list \<Rightarrow> u8 option" where
  "spec_u8 t ts = (case find (\<lambda>x. tlv_tag x = t) ts of
     Some x \<Rightarrow> (case tlv_value x of [b] \<Rightarrow> Some b | _ \<Rightarrow> None) | None \<Rightarrow> None)"

definition spec_u16 :: "u16 \<Rightarrow> Tlv list \<Rightarrow> u16 option" where
  "spec_u16 t ts = (case find (\<lambda>x. tlv_tag x = t) ts of
     Some x \<Rightarrow> (case tlv_value x of [a, b] \<Rightarrow> Some (of_nat (of_be_bytes [a, b])) | _ \<Rightarrow> None)
   | None \<Rightarrow> None)"

definition spec_codec :: codec where
  "spec_codec = \<lparr>
     TlvTag_ALL =
      [
      (''DEST_ADDR_SUBUNIT'', 0x0005), (''DEST_NETWORK_TYPE'', 0x0006)
      , (''DEST_BEARER_TYPE'', 0x0007), (''DEST_TELEMATICS_ID'', 0x0008)
      , (''SOURCE_ADDR_SUBUNIT'', 0x000D), (''SOURCE_NETWORK_TYPE'', 0x000E)
      , (''SOURCE_BEARER_TYPE'', 0x000F), (''SOURCE_TELEMATICS_ID'', 0x0010)
      , (''QOS_TIME_TO_LIVE'', 0x0017), (''PAYLOAD_TYPE'', 0x0019)
      , (''MS_MSG_WAIT_FACILITIES'', 0x0030), (''PRIVACY_INDICATOR'', 0x0201)
      , (''USER_MESSAGE_REFERENCE'', 0x0204), (''USER_RESPONSE_CODE'', 0x0205)
      , (''SOURCE_PORT'', 0x020A), (''DESTINATION_PORT'', 0x020B)
      , (''SAR_MSG_REF_NUM'', 0x020C), (''LANGUAGE_INDICATOR'', 0x020D)
      , (''SAR_TOTAL_SEGMENTS'', 0x020E), (''SAR_SEGMENT_SEQNUM'', 0x020F)
      , (''SC_INTERFACE_VERSION'', 0x0210), (''CALLBACK_NUM_PRES_IND'', 0x0302)
      , (''NUMBER_OF_MESSAGES'', 0x0304), (''DPF_RESULT'', 0x0420), (''SET_DPF'', 0x0421)
      , (''MS_AVAILABILITY_STATUS'', 0x0422), (''DELIVERY_FAILURE_REASON'', 0x0425)
      , (''MORE_MESSAGES_TO_SEND'', 0x0426), (''MESSAGE_STATE'', 0x0427)
      , (''USSD_SERVICE_OP'', 0x0501), (''DISPLAY_TIME'', 0x1201), (''SMS_SIGNAL'', 0x1203)
      , (''MS_VALIDITY'', 0x1204), (''ITS_REPLY_TYPE'', 0x1380)
      , (''MESSAGE_PAYLOAD'', 0x0424)],
     tag_code = spec_tag_code,
     get_message_payload = (\<lambda>ts. map_option tlv_value (find (\<lambda>x. tlv_tag x = 0x0424) ts)),
     get_receipted_message_id = (\<lambda>ts. map_option
        (\<lambda>x. map (\<lambda>b. char_of (unat b)) (takeWhile (\<lambda>b. b \<noteq> 0) (tlv_value x)))
        (find (\<lambda>x. tlv_tag x = 0x001E) ts)),
     get_message_state = spec_u8 0x0427,
     get_user_message_reference = spec_u16 0x0204,
     get_sar_msg_ref_num = spec_u16 0x020C,
     get_sar_total_segments = spec_u8 0x020E,
     get_sar_segment_seqnum = spec_u8 0x020F,
     get_more_messages_to_send = spec_u8 0x0426,
     get_network_error_code = (\<lambda>ts. case find (\<lambda>x. tlv_tag x = 0x0423) ts of
        Some x \<Rightarrow> (case tlv_value x of
            [n, a, b] \<Rightarrow> Some (n, of_nat (of_be_bytes [a, b])) | _ \<Rightarrow> None)
      | None \<Rightarrow> None),
     get_tlv_raw = (\<lambda>ts t. find (\<lambda>x. tlv_tag x = t) ts),
     sm_length_of = (\<lambda>b. of_nat (length b)),
     from_command_status = table_decoder\<rparr>"

section \<open>Properties\<close>

text \<open>
  C9. An integer value is put on the wire at the width its tag has in the specification,
  never at a width taken from the value, and only if it fits: the octets are the
  big-endian form of the number, and every integer outside the width is refused.
\<close>

theorem integer_value_at_spec_width:
  assumes "int_width C t = Some w"
  shows "value_to_bytes C t (PyInt i) = Inr bs \<longleftrightarrow>
    0 \<le> i \<and> i < 256 ^ w \<and> length bs = w \<and> int (of_be_bytes bs) = i"
proof -
  have w: "w = 1 \<or> w = 2 \<or> w = 4"
    using assms by (rule int_width_range)
  have le: "(256::int) ^ w \<le> 2 ^ 64"
    using w by auto
  have nat_less: "0 \<le> i \<Longrightarrow> (256 ^ w \<le> nat i) = (256 ^ w \<le> i)"
    by (simp add: le_nat_iff)
  have readback: "bs = be_bytes w (nat i) \<longleftrightarrow> length bs = w \<and> int (of_be_bytes bs) = i"
    if "0 \<le> i" "i < 256 ^ w"
    using that of_be_bytes_inverse[of bs] of_be_bytes_be_bytes[of w "nat i"] nat_less
    by (auto simp: nat_less_iff)
  show ?thesis
    using value_to_bytes_int[of "PyInt i" i C t] assms le nat_less readback
    by (auto split: if_splits)
qed

theorem integer_value_at_spec_width_witness:
  "value_to_bytes spec_codec 0x020C (PyInt 4660 :: unit pyval) = Inr [0x12, 0x34]"
proof -
  have w: "int_width spec_codec 0x020C = Some 2" by code_simp
  show ?thesis
    using integer_value_at_spec_width[OF w, where i = 4660 and bs = "[0x12, 0x34]"]
    by (simp add: of_be_bytes_def)
qed

text \<open>
  A dict that converts gives one parameter per entry, in the dict's order, each with the
  tag its key names and the octets its value encodes to, and no tag twice: two keys that
  name the same parameter are an error, never a silent choice.
\<close>

theorem tlvs_from_py_sound:
  assumes "tlvs_from_py C (Some items) = Inr ts"
  shows "distinct (map tlv_tag ts) \<and> length ts = length items \<and>
    list_all2 (\<lambda>(key, v) x. tag_from_py C key = Inr (tlv_tag x) \<and>
      value_to_bytes C (tlv_tag x) v = Inr (tlv_value x)) items ts"
  using assms tlvs_from_items_append[of C "[]" items ts] by (simp add: tlvs_from_py_def)

theorem tlvs_from_py_sound_witness:
  "distinct (map tlv_tag [\<lparr>tlv_tag = 0x0427, tlv_value = [2]\<rparr>, \<lparr>tlv_tag = 0x1400, tlv_value = [1]\<rparr>])"
proof -
  have "tlvs_from_py spec_codec
      (Some [(PyStr ''message_state'', PyInt 2), (PyInt 0x1400, PyBytes [1] :: unit pyval)]) =
    Inr [\<lparr>tlv_tag = 0x0427, tlv_value = [2]\<rparr>, \<lparr>tlv_tag = 0x1400, tlv_value = [1]\<rparr>]"
    by code_simp
  from tlvs_from_py_sound[OF this] show ?thesis by blast
qed

text \<open>
  Optional parameters survive the trip through Python: a PDU's parameters with distinct
  tags, surfaced to the script as a dict keyed by the raw tag, convert back to exactly the
  same parameters in the same order.
\<close>

lemma tlvs_py_roundtrip:
  assumes "distinct (map tlv_tag ts)"
  shows "tlvs_from_py C (Some (map (\<lambda>(t, b). (PyInt (uint t), PyBytes b)) (tlvs_to_py ts))) = Inr ts"
proof -
  have tag: "tag_from_py C (PyInt (uint t)) = Inr t" for t :: u16
  proof -
    have lt: "uint t < 65536" and ge: "0 \<le> uint t"
      using unsigned_less[of t, where ?'a = int] by simp_all
    from ge have "\<not> uint t < - 9223372036854775808" by linarith
    with lt show ?thesis by (simp add: tag_from_py_def)
  qed
  have "tlvs_from_items C out (map (\<lambda>x. (PyInt (uint (tlv_tag x)), PyBytes (tlv_value x))) ts) =
      Inr (out @ ts)" if "distinct (map tlv_tag (out @ ts))" for out
    using that
  proof (induction ts arbitrary: out)
    case Nil
    then show ?case by simp
  next
    case (Cons x ts)
    then have "tlv_tag x \<notin> tlv_tag ` set out" by auto
    then have "\<not> list_ex (\<lambda>y. tlv_tag y = tlv_tag x) out"
      by (auto simp: list_ex_iff image_iff)
    moreover have eta: "\<lparr>tlv_tag = tlv_tag x, tlv_value = tlv_value x\<rparr> = x" by simp
    ultimately show ?case
      using Cons.IH[of "out @ [x]"] Cons.prems by (simp add: tag value_to_bytes_def eta)
  qed
  from this[of "[]"] assms show ?thesis
    by (simp add: tlvs_from_py_def tlvs_to_py_distinct comp_def)
qed

lemma tlvs_from_py_distinct: "tlvs_from_py C kw = Inr ts \<Longrightarrow> distinct (map tlv_tag ts)"
  by (cases kw) (auto simp: tlvs_from_py_def dest: tlvs_from_items_append)

text \<open>
  What the codec documents of its tag table: no name twice, and every name is the upper-case
  specification name, without blanks and without the \<open>TLV_\<close> prefix.
\<close>

definition tag_table_ok :: "codec \<Rightarrow> bool" where
  "tag_table_ok C \<longleftrightarrow> distinct (map fst (TlvTag_ALL C)) \<and>
     list_all (\<lambda>(n, _). list_all graphic n \<and> to_ascii_uppercase n = n
       \<and> strip_prefix ''TLV_'' n = None) (TlvTag_ALL C)"

lemma find_distinct_fst:
  "distinct (map fst xs) \<Longrightarrow> (n, t) \<in> set xs \<Longrightarrow> find (\<lambda>(m, _). m = n) xs = Some (n, t)"
  by (induction xs) (auto simp: rev_image_eqI)

text \<open>
  Every name of the codec's tag table addresses its tag in any letter case and with or
  without the \<open>TLV_\<close> prefix.
\<close>

theorem tag_from_name_complete:
  assumes "tag_table_ok C" and "(n, t) \<in> set (TlvTag_ALL C)"
  shows "tag_from_name C n = Some t \<and> tag_from_name C (to_ascii_lowercase n) = Some t
    \<and> tag_from_name C (''TLV_'' @ n) = Some t
    \<and> tag_from_name C (to_ascii_lowercase (''TLV_'' @ n)) = Some t"
proof -
  have n: "list_all graphic n" "to_ascii_uppercase n = n" "strip_prefix ''TLV_'' n = None"
    using assms by (auto simp: tag_table_ok_def list_all_iff)
  have up: "to_ascii_uppercase (''TLV_'' @ n) = ''TLV_'' @ n"
    using n(2) by (simp add: to_ascii_uppercase_def ascii_upper_char_def)
  have found: "find (\<lambda>(m, _). m = n) (TlvTag_ALL C) = Some (n, t)"
    using assms by (intro find_distinct_fst) (simp_all add: tag_table_ok_def)
  have graphic: "list_all graphic (''TLV_'' @ n)"
    using n(1) by (simp add: graphic_def)
  have lower: "list_all graphic (to_ascii_lowercase s)" if "list_all graphic s" for s
    using that by (simp add: to_ascii_lowercase_def list_all_iff)
  note trims = trim_graphic[OF n(1)] trim_graphic[OF lower[OF n(1)]]
    trim_graphic[OF graphic] trim_graphic[OF lower[OF graphic]]
  show ?thesis
    using found
    by (simp only: tag_from_name_def Let_def trims n up to_ascii_uppercase_lower
        strip_prefix_append unwrap_or_simps option.map snd_conv simp_thms)
qed

theorem tag_from_name_complete_witness:
  "tag_from_name spec_codec (to_ascii_lowercase ''MESSAGE_PAYLOAD'') = Some 0x0424"
proof -
  have ok: "tag_table_ok spec_codec" by code_simp
  have mem: "(''MESSAGE_PAYLOAD'', 0x0424) \<in> set (TlvTag_ALL spec_codec)"
    by (simp add: spec_codec_def)
  from tag_from_name_complete[OF ok mem] show ?thesis by blast
qed

end
