(* ===== verification/Smpp_Receipt.thy ===== *)
theory Smpp_Receipt
  imports Smpp_Tlv
begin

text \<open>
  The delivery-receipt parser (\<open>Receipt\<close> in \<open>src/src/pyclasses.rs\<close>): lossy decoding of
  the body, the scan for the canonical keys, the cut into values. Rust's string slicing
  panics out of range or off a character boundary; the model keeps the panic as \<open>None\<close>,
  and the first property is that it never happens.
\<close>

section \<open>UTF-8\<close>

text \<open>\<open>String::from_utf8_lossy\<close>: every maximal invalid prefix of a character becomes U+FFFD.\<close>

definition is_cont :: "u8 \<Rightarrow> bool" where
  "is_cont b \<longleftrightarrow> 0x80 \<le> b \<and> b \<le> 0xBF"

definition utf8_width :: "u8 \<Rightarrow> nat" where
  "utf8_width b =
     (if b < 0x80 then 1
      else if 0xC2 \<le> b \<and> b \<le> 0xDF then 2
      else if 0xE0 \<le> b \<and> b \<le> 0xEF then 3
      else if 0xF0 \<le> b \<and> b \<le> 0xF4 then 4
      else 0)"

text \<open>The second octet of a character is restricted after \<open>E0\<close>, \<open>ED\<close>, \<open>F0\<close> and \<open>F4\<close>.\<close>

definition second_ok :: "u8 \<Rightarrow> u8 \<Rightarrow> bool" where
  "second_ok b c \<longleftrightarrow> is_cont c \<and>
     (b = 0xE0 \<longrightarrow> 0xA0 \<le> c) \<and> (b = 0xED \<longrightarrow> c \<le> 0x9F) \<and>
     (b = 0xF0 \<longrightarrow> 0x90 \<le> c) \<and> (b = 0xF4 \<longrightarrow> c \<le> 0x8F)"

text \<open>Whether the next character is valid, and how many octets it or its invalid prefix has.\<close>

definition utf8_step :: "u8 \<Rightarrow> bytes \<Rightarrow> bool \<times> nat" where
  "utf8_step b bs =
     (if utf8_width b = 1 then (True, 1)
      else if utf8_width b = 0 then (False, 1)
      else if bs = [] \<or> \<not> second_ok b (hd bs) then (False, 1)
      else if utf8_width b = 2 then (True, 2)
      else if length bs < 2 \<or> \<not> is_cont (bs ! 1) then (False, 2)
      else if utf8_width b = 3 then (True, 3)
      else if length bs < 3 \<or> \<not> is_cont (bs ! 2) then (False, 3)
      else (True, 4))"

definition byte_char :: "u8 \<Rightarrow> char" where
  "byte_char b = char_of (unat b)"

function from_utf8_lossy :: "bytes \<Rightarrow> string" where
  "from_utf8_lossy [] = []"
| "from_utf8_lossy (b # bs) =
     (let (ok, n) = utf8_step b bs in
      (if ok then map byte_char (take n (b # bs)) else [CHR 0xEF, CHR 0xBF, CHR 0xBD])
        @ from_utf8_lossy (drop n (b # bs)))"
  by pat_completeness auto
termination
  by (relation "measure length") (auto simp: utf8_step_def split: if_splits)

declare from_utf8_lossy.simps(2) [simp del]

definition is_cont_char :: "char \<Rightarrow> bool" where
  "is_cont_char c \<longleftrightarrow> 0x80 \<le> (of_char c :: nat) \<and> (of_char c :: nat) \<le> 0xBF"

text \<open>\<open>&s[a..b]\<close>: \<open>None\<close> where the indexing panics.\<close>

definition is_char_boundary :: "string \<Rightarrow> nat \<Rightarrow> bool" where
  "is_char_boundary s i \<longleftrightarrow> i = 0 \<or> i = length s \<or> i < length s \<and> \<not> is_cont_char (s ! i)"

definition slice :: "string \<Rightarrow> nat \<Rightarrow> nat \<Rightarrow> string option" where
  "slice s a b =
     (if a \<le> b \<and> is_char_boundary s a \<and> is_char_boundary s b
      then Some (take (b - a) (drop a s)) else None)"

section \<open>The receipt\<close>

record Receipt =
  r_id :: "string option"
  r_sub :: "string option"
  r_dlvrd :: "string option"
  r_submit_date :: "string option"
  r_done_date :: "string option"
  r_stat :: "string option"
  r_err :: "string option"
  r_text :: "string option"
  r_raw :: string

definition Receipt_default :: "string \<Rightarrow> Receipt" where
  "Receipt_default raw = \<lparr>r_id = None, r_sub = None, r_dlvrd = None, r_submit_date = None,
     r_done_date = None, r_stat = None, r_err = None, r_text = None, r_raw = raw\<rparr>"

definition KEYS :: "(string \<times> string) list" where
  "KEYS =
     [(''submit date'', ''submit_date''), (''done date'', ''done_date''), (''dlvrd'', ''dlvrd''),
      (''stat'', ''stat''), (''text'', ''text''), (''sub'', ''sub''), (''err'', ''err''),
      (''id'', ''id'')]"

definition message_state_name :: "u8 \<Rightarrow> string option" where
  "message_state_name s =
     (if s = 1 then Some ''ENROUTE'' else if s = 2 then Some ''DELIVRD''
      else if s = 3 then Some ''EXPIRED'' else if s = 4 then Some ''DELETED''
      else if s = 5 then Some ''UNDELIV'' else if s = 6 then Some ''ACCEPTD''
      else if s = 7 then Some ''UNKNOWN'' else if s = 8 then Some ''REJECTD''
      else None)"

text \<open>A hit: where \<open>key:\<close> starts, how long it is, the field it fills.\<close>

type_synonym hit = "nat \<times> nat \<times> string"

definition add_hit :: "string \<Rightarrow> hit list \<Rightarrow> string \<times> string \<Rightarrow> hit list" where
  "add_hit hay hits kf =
     (case kf of (key, field) \<Rightarrow>
        let needle = key @ '':'' in
        case find_str needle hay of
          None \<Rightarrow> hits
        | Some pos \<Rightarrow>
            if list_ex (\<lambda>(p, l, _). p \<le> pos \<and> pos < p + l) hits then hits
            else hits @ [(pos, length needle, field)])"

definition scan_hits :: "string \<Rightarrow> hit list" where
  "scan_hits hay = sort_key fst (foldl (add_hit hay) [] KEYS)"

definition Receipt_set :: "Receipt \<Rightarrow> string \<Rightarrow> string \<Rightarrow> Receipt" where
  "Receipt_set r field v =
     (if field = ''id'' then r\<lparr>r_id := Some v\<rparr>
      else if field = ''sub'' then r\<lparr>r_sub := Some v\<rparr>
      else if field = ''dlvrd'' then r\<lparr>r_dlvrd := Some v\<rparr>
      else if field = ''submit_date'' then r\<lparr>r_submit_date := Some v\<rparr>
      else if field = ''done_date'' then r\<lparr>r_done_date := Some v\<rparr>
      else if field = ''stat'' then r\<lparr>r_stat := Some v\<rparr>
      else if field = ''err'' then r\<lparr>r_err := Some v\<rparr>
      else if field = ''text'' then r\<lparr>r_text := Some v\<rparr>
      else r)"

text \<open>The loop over the sorted hits: a value runs to the next hit or to the end.\<close>

fun fill_hits :: "string \<Rightarrow> hit list \<Rightarrow> Receipt \<Rightarrow> Receipt option" where
  "fill_hits raw [] out = Some out"
| "fill_hits raw ((pos, key_len, field) # hits) out =
     (let val_start = pos + key_len;
          val_end = (case hits of [] \<Rightarrow> length raw | (p, _, _) # _ \<Rightarrow> p)
      in case slice raw val_start val_end of
           None \<Rightarrow> None
         | Some v \<Rightarrow> fill_hits raw hits (Receipt_set out field (trim v)))"

text \<open>\<open>Receipt::parse\<close>: the outer \<open>None\<close> is a panic, the inner one the function's own.\<close>

definition Receipt_parse :: "bytes \<Rightarrow> Receipt option option" where
  "Receipt_parse sm =
     (let raw = from_utf8_lossy sm;
          hits = scan_hits (to_ascii_lowercase raw)
      in if hits = [] then Some None
         else map_option Some (fill_hits raw hits (Receipt_default raw)))"

text \<open>The dict a script reads: the keys that are present, and always \<open>raw\<close>.\<close>

definition put_opt :: "string \<Rightarrow> string option \<Rightarrow> (string \<times> string) list \<Rightarrow> (string \<times> string) list" where
  "put_opt k v d = (case v of None \<Rightarrow> d | Some x \<Rightarrow> set_item k x d)"

definition fill_dict :: "Receipt \<Rightarrow> (string \<times> string) list \<Rightarrow> (string \<times> string) list" where
  "fill_dict r d =
     set_item ''raw'' (r_raw r)
     (put_opt ''text'' (r_text r)
     (put_opt ''err'' (r_err r)
     (put_opt ''stat'' (r_stat r)
     (put_opt ''done_date'' (r_done_date r)
     (put_opt ''submit_date'' (r_submit_date r)
     (put_opt ''dlvrd'' (r_dlvrd r)
     (put_opt ''sub'' (r_sub r)
     (put_opt ''id'' (r_id r) d))))))))"

section \<open>Lossy decoding yields well-formed strings\<close>

text \<open>
  What the slicing needs of UTF-8: the string does not start inside a character, and
  neither does the octet after an ASCII one.
\<close>

definition wf_str :: "string \<Rightarrow> bool" where
  "wf_str s \<longleftrightarrow> (s \<noteq> [] \<longrightarrow> \<not> is_cont_char (hd s)) \<and>
     successively (\<lambda>a b. (of_char a :: nat) < 128 \<longrightarrow> \<not> is_cont_char b) s"

lemma of_char_byte_char [simp]: "of_char (byte_char b) = unat b"
proof -
  have "unat b < 256"
    using unsigned_less[of b, where ?'a = nat] by simp
  then show ?thesis by (simp add: byte_char_def)
qed

lemma is_cont_byte_char [simp]: "is_cont_char (byte_char b) \<longleftrightarrow> is_cont b"
  by (simp add: is_cont_char_def is_cont_def word_le_nat_alt)

lemma wf_str_append:
  "wf_str a \<Longrightarrow> wf_str b \<Longrightarrow> wf_str (a @ b)"
  by (auto simp: wf_str_def successively_append_iff hd_append)

lemma successively_high:
  "(\<forall>c \<in> set s. 128 \<le> (of_char c :: nat)) \<Longrightarrow>
   successively (\<lambda>a b. (of_char a :: nat) < 128 \<longrightarrow> \<not> is_cont_char b) s"
  by (induction s rule: induct_list012) auto

lemma utf8_step_high:
  assumes "utf8_step b bs = (True, n)" and "\<not> b < 0x80"
  shows "\<not> is_cont b \<and> (\<forall>c \<in> set (take n (b # bs)). 0x80 \<le> c)"
proof -
  have w: "utf8_width b = 2 \<or> utf8_width b = 3 \<or> utf8_width b = 4"
    using assms by (auto simp: utf8_step_def utf8_width_def split: if_splits)
  then have "0xC2 \<le> b" and ge: "0x80 \<le> b"
    by (auto simp: utf8_width_def word_le_nat_alt split: if_splits)
  then have nc: "\<not> is_cont b"
    by (auto simp: is_cont_def word_le_nat_alt)
  have "\<forall>c \<in> set (take n (b # bs)). c = b \<or> is_cont c"
    using assms w
    by (cases bs; cases "tl bs"; cases "tl (tl bs)")
      (auto simp: utf8_step_def second_ok_def take_Cons' split: if_splits)
  with nc ge show ?thesis
    by (auto simp: is_cont_def)
qed

lemma wf_str_char:
  assumes "utf8_step b bs = (True, n)"
  shows "wf_str (map byte_char (take n (b # bs)))"
proof (cases "b < 0x80")
  case True
  with assms have "n = 1" by (auto simp: utf8_step_def utf8_width_def)
  moreover have "\<not> is_cont b"
    using True by (auto simp: is_cont_def word_le_nat_alt word_less_nat_alt)
  ultimately show ?thesis by (simp add: wf_str_def)
next
  case False
  have "n \<noteq> 0" using assms by (auto simp: utf8_step_def split: if_splits)
  with utf8_step_high[OF assms False] show ?thesis
    by (auto simp: wf_str_def take_Cons' word_le_nat_alt intro!: successively_high)
qed

lemma wf_str_replacement: "wf_str [CHR 0xEF, CHR 0xBF, CHR 0xBD]"
  by (simp add: wf_str_def is_cont_char_def)

lemma wf_from_utf8_lossy: "wf_str (from_utf8_lossy sm)"
proof (induction sm rule: from_utf8_lossy.induct)
  case 1
  then show ?case by (simp add: wf_str_def)
next
  case (2 b bs)
  obtain ok n where step: "utf8_step b bs = (ok, n)" by (cases "utf8_step b bs")
  define rest where "rest = from_utf8_lossy (drop n (b # bs))"
  have "wf_str rest"
    using "2.IH"[OF step[symmetric] refl] by (simp add: rest_def)
  moreover have "from_utf8_lossy (b # bs) =
      (if ok then map byte_char (take n (b # bs)) else [CHR 0xEF, CHR 0xBF, CHR 0xBD]) @ rest"
    by (simp add: from_utf8_lossy.simps(2)[of b bs] step rest_def)
  ultimately show ?case
    using wf_str_append[OF wf_str_char[of b bs n]] wf_str_append[OF wf_str_replacement] step
    by (cases ok) auto
qed

text \<open>An ASCII body decodes to itself.\<close>

lemma from_utf8_lossy_ascii:
  "list_all (\<lambda>b. b < 0x80) sm \<Longrightarrow> from_utf8_lossy sm = map byte_char sm"
  by (induction sm) (auto simp: from_utf8_lossy.simps(2) utf8_step_def utf8_width_def)

section \<open>The hits never overlap\<close>

lemma starts_with_nth:
  assumes "starts_with n (drop p s)" and "i < length n"
  shows "p + i < length s \<and> s ! (p + i) = n ! i"
proof -
  obtain r where r: "drop p s = n @ r" using assms(1) by (auto simp: starts_with_iff)
  then have "length s - p = length n + length r"
    by (metis length_append length_drop)
  with assms(2) have len: "p + i < length s" by linarith
  then have "s ! (p + i) = (n @ r) ! i" by (simp flip: r)
  with assms(2) len show ?thesis by (simp add: nth_append)
qed

text \<open>
  Two occurrences of \<open>key:\<close> overlap only when one key is a suffix of the other: the colon
  of the earlier one would have to lie inside the key of the later one.
\<close>

lemma key_no_colon: "(k, f) \<in> set KEYS \<Longrightarrow> CHR '':'' \<notin> set k"
  by (auto simp: KEYS_def)

lemma key_nonempty: "(k, f) \<in> set KEYS \<Longrightarrow> k \<noteq> []"
  by (auto simp: KEYS_def)

lemma colon_not_inside:
  assumes "starts_with (k @ '':'') (drop p s)" and "starts_with (l @ '':'') (drop q s)"
    and "CHR '':'' \<notin> set l"
  shows "p + length k < q \<or> q + length l \<le> p + length k"
proof (rule ccontr)
  assume neg: "\<not> ?thesis"
  define i where "i = p + length k - q"
  have i: "i < length l" "q + i = p + length k" using neg by (auto simp: i_def)
  have "s ! (p + length k) = CHR '':''"
    using starts_with_nth[OF assms(1), of "length k"] by simp
  moreover have "s ! (q + i) = l ! i"
    using starts_with_nth[OF assms(2), of i] i(1) by (simp add: nth_append)
  ultimately have "l ! i = CHR '':''" using i(2) by simp
  with i(1) assms(3) show False by (metis nth_mem)
qed

lemma key_not_proper_suffix:
  assumes "(k, f) \<in> set KEYS" and "(l, g) \<in> set KEYS" and "length l < length k"
  shows "drop (length k - length l) k \<noteq> l"
  using assms unfolding KEYS_def by auto

lemma occurrence_before:
  assumes k: "(k, f) \<in> set KEYS" "starts_with (k @ '':'') (drop p s)"
    and l: "(l, g) \<in> set KEYS" "starts_with (l @ '':'') (drop q s)"
    and less: "p < q"
  shows "p + length k + 1 \<le> q"
proof (rule ccontr)
  assume "\<not> ?thesis"
  then have "q + length l \<le> p + length k" and "p + length k \<le> q + length l"
    using colon_not_inside[OF k(2) l(2) key_no_colon[OF l(1)]]
      colon_not_inside[OF l(2) k(2) key_no_colon[OF k(1)]] less by linarith+
  then have e: "q + length l = p + length k" by simp
  have "drop (length k - length l) k = l"
  proof (rule nth_equalityI)
    show "length (drop (length k - length l) k) = length l" using e less by simp
  next
    fix i assume "i < length (drop (length k - length l) k)"
    then have i: "i < length l" using e less by simp
    have idx: "p + (length k - length l + i) = q + i" using e less by linarith
    define j where "j = length k - length l + i"
    have "j < length k" using i e less unfolding j_def by linarith
    then have "k ! j = s ! (q + i)"
      using starts_with_nth[OF k(2), of j] idx by (simp add: nth_append j_def)
    moreover have "l ! i = s ! (q + i)"
      using starts_with_nth[OF l(2), of i] i by (simp add: nth_append)
    ultimately show "drop (length k - length l) k ! i = l ! i"
      using e less by (simp add: j_def)
  qed
  moreover have "length l < length k" using e less by simp
  ultimately show False using key_not_proper_suffix[OF k(1) l(1)] by simp
qed

text \<open>What holds of every hit, and of the hits together, while the keys are scanned.\<close>

definition is_hit :: "string \<Rightarrow> hit \<Rightarrow> bool" where
  "is_hit hay h \<longleftrightarrow> (case h of (p, l, f) \<Rightarrow>
     \<exists>k. (k, f) \<in> set KEYS \<and> l = length k + 1 \<and> starts_with (k @ '':'') (drop p hay))"

definition hits_ok :: "string \<Rightarrow> hit list \<Rightarrow> bool" where
  "hits_ok hay hits \<longleftrightarrow> list_all (is_hit hay) hits \<and> distinct (map fst hits)"

lemma hits_ok_add_hit:
  assumes "hits_ok hay hits" and "kf \<in> set KEYS"
  shows "hits_ok hay (add_hit hay hits kf)"
proof -
  obtain k f where kf: "kf = (k, f)" by (cases kf)
  show ?thesis
  proof (cases "find_str (k @ '':'') hay")
    case None
    with assms show ?thesis by (simp add: add_hit_def kf)
  next
    case (Some pos)
    have occ: "is_hit hay (pos, Suc (length k), f)"
      using find_str_Some[OF Some] assms(2) kf by (auto simp: is_hit_def)
    show ?thesis
    proof (cases "list_ex (\<lambda>(p, l, _). p \<le> pos \<and> pos < p + l) hits")
      case True
      with assms Some show ?thesis by (simp add: add_hit_def kf)
    next
      case False
      have "pos \<notin> fst ` set hits"
        using False assms(1) by (fastforce simp: list_ex_iff hits_ok_def list_all_iff is_hit_def)
      with assms(1) False Some occ show ?thesis
        by (simp add: add_hit_def kf hits_ok_def)
    qed
  qed
qed

lemma hits_ok_foldl:
  "hits_ok hay hits \<Longrightarrow> set kfs \<subseteq> set KEYS \<Longrightarrow> hits_ok hay (foldl (add_hit hay) hits kfs)"
  by (induction kfs arbitrary: hits) (auto intro: hits_ok_add_hit)

lemma hits_ok_scan: "hits_ok hay (scan_hits hay)"
proof -
  have "hits_ok hay (foldl (add_hit hay) [] KEYS)"
    by (rule hits_ok_foldl) (simp_all add: hits_ok_def)
  moreover have "distinct (map fst (sort_key fst xs))" if "distinct (map fst xs)" for xs :: "hit list"
    using that by (simp add: distinct_map)
  ultimately show ?thesis
    by (simp add: scan_hits_def hits_ok_def list_all_iff)
qed

text \<open>In the sorted hits each one ends before the next begins, all within the body.\<close>

definition apart :: "hit \<Rightarrow> hit \<Rightarrow> bool" where
  "apart h h' \<longleftrightarrow> fst h + fst (snd h) \<le> fst h'"

lemma scan_hits_strict: "sorted_wrt (\<lambda>h h'. fst h < fst h') (scan_hits hay)"
proof -
  have "sorted_wrt (<) (map fst (scan_hits hay))"
    using hits_ok_scan[of hay]
    by (simp add: hits_ok_def scan_hits_def strict_sorted_iff)
  then show ?thesis by (simp add: sorted_wrt_map)
qed

lemma scan_hits_apart: "sorted_wrt apart (scan_hits hay)"
proof -
  show ?thesis
    using scan_hits_strict
  proof (rule sorted_wrt_mono_rel[rotated])
    fix h h' assume in_hits: "h \<in> set (scan_hits hay)" "h' \<in> set (scan_hits hay)"
      and less: "fst h < fst h'"
    obtain p l f q m g where h: "h = (p, l, f)" "h' = (q, m, g)" by (cases h; cases h')
    have "is_hit hay (p, l, f)" "is_hit hay (q, m, g)"
      using in_hits hits_ok_scan[of hay] by (auto simp: hits_ok_def list_all_iff h)
    then obtain k k' where "(k, f) \<in> set KEYS" "l = length k + 1" "starts_with (k @ '':'') (drop p hay)"
      "(k', g) \<in> set KEYS" "starts_with (k' @ '':'') (drop q hay)"
      by (auto simp: is_hit_def)
    with less show "apart h h'"
      using occurrence_before[of k f p hay k' g q] by (simp add: apart_def h)
  qed
qed

section \<open>Every cut is on a character boundary\<close>

lemma ascii_lower_char_low: "(of_char (ascii_lower_char c) :: nat) < 128 \<longleftrightarrow> (of_char c :: nat) < 128"
  by (auto simp: ascii_lower_char_def)

lemma low_not_cont: "(of_char c :: nat) < 128 \<Longrightarrow> \<not> is_cont_char c"
  by (simp add: is_cont_char_def)

lemma key_low: "(k, f) \<in> set KEYS \<Longrightarrow> c \<in> set (k @ '':'') \<Longrightarrow> (of_char c :: nat) < 128"
  by (auto simp: KEYS_def)

lemma hit_octet_low:
  assumes "is_hit (to_ascii_lowercase raw) (p, l, f)" and "i < l"
  shows "p + i < length raw \<and> (of_char (raw ! (p + i)) :: nat) < 128"
proof -
  from assms obtain k where k: "(k, f) \<in> set KEYS" "l = length k + 1"
    "starts_with (k @ '':'') (drop p (to_ascii_lowercase raw))"
    by (auto simp: is_hit_def)
  have i: "i < length (k @ '':'')" using assms(2) k(2) by simp
  have "p + i < length raw" and "to_ascii_lowercase raw ! (p + i) = (k @ '':'') ! i"
    using starts_with_nth[OF k(3) i] by simp_all
  moreover have "(of_char ((k @ '':'') ! i) :: nat) < 128"
    using i by (intro key_low[OF k(1)] nth_mem)
  ultimately show ?thesis
    by (simp add: to_ascii_lowercase_def flip: ascii_lower_char_low[of "raw ! (p + i)"])
qed

lemma hit_pos: "is_hit hay (p, l, f) \<Longrightarrow> 0 < l"
  by (auto simp: is_hit_def)

lemma boundary_hit_start:
  "is_hit (to_ascii_lowercase raw) (p, l, f) \<Longrightarrow> is_char_boundary raw p"
  using hit_octet_low[of raw p l f 0] hit_pos[of _ p l f]
  by (auto simp: is_char_boundary_def dest: low_not_cont)

lemma boundary_hit_end:
  assumes "is_hit (to_ascii_lowercase raw) (p, l, f)" and "wf_str raw"
  shows "is_char_boundary raw (p + l) \<and> p + l \<le> length raw"
proof -
  define i where "i = p + (l - 1)"
  have i: "p + l = Suc i" using hit_pos[OF assms(1)] by (simp add: i_def)
  have low: "i < length raw" "(of_char (raw ! i) :: nat) < 128"
    using hit_octet_low[OF assms(1), of "l - 1"] hit_pos[OF assms(1)] by (simp_all add: i_def)
  have "\<not> is_cont_char (raw ! Suc i)" if "Suc i < length raw"
    using assms(2) that low(2) by (auto simp: wf_str_def successively_conv_nth)
  with low(1) i show ?thesis by (auto simp: is_char_boundary_def)
qed

lemma r_raw_Receipt_set [simp]: "r_raw (Receipt_set r f v) = r_raw r"
  by (simp add: Receipt_set_def)

lemma fill_hits_total:
  assumes "wf_str raw" and "list_all (is_hit (to_ascii_lowercase raw)) hits" and "sorted_wrt apart hits"
  shows "\<exists>r. fill_hits raw hits out = Some r \<and> r_raw r = r_raw out"
  using assms
proof (induction raw hits out rule: fill_hits.induct)
  case (1 raw out)
  then show ?case by simp
next
  case (2 raw p l f hits out)
  define e where "e = (case hits of [] \<Rightarrow> length raw | (q, _, _) # _ \<Rightarrow> q)"
  have start: "is_char_boundary raw (p + l)" "p + l \<le> length raw"
    using boundary_hit_end[of raw p l f] "2.prems" by auto
  have stop: "p + l \<le> e \<and> is_char_boundary raw e"
  proof (cases hits)
    case Nil
    with start show ?thesis by (simp add: e_def is_char_boundary_def)
  next
    case (Cons h hs)
    then show ?thesis
      using "2.prems" boundary_hit_start[of raw "fst h" "fst (snd h)" "snd (snd h)"]
      by (auto simp: e_def apart_def case_prod_beta)
  qed
  have cut: "slice raw (p + l) e = Some (take (e - (p + l)) (drop (p + l) raw))"
    using start stop by (simp add: slice_def)
  have "fill_hits raw ((p, l, f) # hits) out =
      fill_hits raw hits (Receipt_set out f (trim (take (e - (p + l)) (drop (p + l) raw))))"
    using cut by (simp add: e_def)
  then show ?case
    using "2.IH"[OF refl, of e] "2.prems" cut by (simp add: e_def)
qed

lemma scan_hits_empty:
  "scan_hits hay = [] \<longleftrightarrow> list_all (\<lambda>(k, _). find_str (k @ '':'') hay = None) KEYS"
proof -
  have keep: "add_hit hay hits kf \<noteq> []" if "hits \<noteq> []" for hits kf
    using that by (cases kf) (simp add: add_hit_def Let_def split: option.split)
  have grow: "hits \<noteq> [] \<Longrightarrow> foldl (add_hit hay) hits kfs \<noteq> []" for hits kfs
    by (induction kfs arbitrary: hits) (simp_all add: keep)
  have one: "add_hit hay [] kf =
      (case find_str (fst kf @ '':'') hay of None \<Rightarrow> [] | Some pos \<Rightarrow> [(pos, length (fst kf) + 1, snd kf)])"
    for kf
    by (cases kf) (simp add: add_hit_def Let_def split: option.split)
  have "foldl (add_hit hay) [] kfs = [] \<longleftrightarrow> list_all (\<lambda>(k, _). find_str (k @ '':'') hay = None) kfs"
    for kfs :: "(string \<times> string) list"
    by (induction kfs) (auto simp: one grow split: option.splits)
  moreover have "sort_key fst xs = [] \<longleftrightarrow> xs = []" for xs :: "hit list"
    by (metis length_0_conv length_sort)
  ultimately show ?thesis by (simp add: scan_hits_def)
qed

section \<open>Printed receipts\<close>

text \<open>
  The reference printer: entries \<open>key:value\<close> separated by single blanks, the keys a
  selection of the canonical ones in any order.
\<close>

type_synonym entry = "(string \<times> string) \<times> string"

fun receipt_body :: "entry list \<Rightarrow> string" where
  "receipt_body [] = []"
| "receipt_body (((k, f), v) # es) =
     k @ '':'' @ v @ (if es = [] then [] else '' '' @ receipt_body es)"

fun hits_at :: "nat \<Rightarrow> entry list \<Rightarrow> hit list" where
  "hits_at n [] = []"
| "hits_at n (((k, f), v) # es) =
     (n, length k + 1, f) # hits_at (n + length k + 1 + length v + 1) es"

text \<open>A value that survives: ASCII, no colon, no blank at either end.\<close>

definition clean_value :: "string \<Rightarrow> bool" where
  "clean_value v \<longleftrightarrow> list_all (\<lambda>c. (of_char c :: nat) < 128) v \<and> CHR '':'' \<notin> set v
     \<and> (v = [] \<or> graphic (hd v) \<and> graphic (last v))"

definition clean_entries :: "entry list \<Rightarrow> bool" where
  "clean_entries es \<longleftrightarrow> distinct (map fst es) \<and>
     list_all (\<lambda>(kf, v). List.member KEYS kf \<and> clean_value v) es"

lemma starts_with_colon:
  "CHR '':'' \<notin> set k \<Longrightarrow> CHR '':'' \<notin> set p \<Longrightarrow>
   starts_with (k @ '':'') (p @ CHR '':'' # q) \<longleftrightarrow> k = p"
proof (induction k arbitrary: p)
  case Nil
  then show ?case by (cases p) (auto simp: starts_with_iff)
next
  case (Cons c k)
  then show ?case by (cases p) (auto simp: starts_with_iff)
qed

lemma find_str_colon:
  assumes k: "CHR '':'' \<notin> set k" and "CHR '':'' \<notin> set p"
  shows "find_str (k @ '':'') (p @ CHR '':'' # q) =
    (if \<exists>p'. p = p' @ k then Some (length p - length k)
     else map_option ((+) (Suc (length p))) (find_str (k @ '':'') q))"
  using assms(2)
proof (induction p)
  case Nil
  have "starts_with (k @ '':'') (CHR '':'' # q) \<longleftrightarrow> k = []"
    using starts_with_colon[OF k, of "[]"] by simp
  moreover have "(+) (Suc 0) = Suc" by (simp add: fun_eq_iff)
  ultimately show ?case by simp
next
  case (Cons c p)
  have here: "starts_with (k @ '':'') (c # p @ CHR '':'' # q) \<longleftrightarrow> k = c # p"
    using starts_with_colon[OF k, of "c # p"] Cons.prems by simp
  have suff: "(\<exists>p'. c # p = p' @ k) \<longleftrightarrow> k = c # p \<or> (\<exists>p'. p = p' @ k)"
    by (metis append_Cons append_Nil append_eq_Cons_conv)
  have le: "length k \<le> length p" if "p = p' @ k" for p' using that by simp
  show ?case
    using Cons by (auto simp: here suff option.map_comp comp_def Suc_diff_le dest: le)
qed

lemma key_suffix:
  assumes "(k, f) \<in> set KEYS" and "(l, g) \<in> set KEYS" and "pre @ l = p' @ k"
  shows "k = l"
proof -
  have suffix: "drop (length b - length a) b = a" if "p @ a = r @ b" "length a \<le> length b" for p r a b :: string
    using that by (auto simp: append_eq_append_conv2)
  consider "length k < length l" | "length l < length k" | "length k = length l" by linarith
  then show ?thesis
  proof cases
    case 3
    with assms(3) show ?thesis by simp
  qed (use assms suffix[of p' k pre l] suffix[of pre l p' k] key_not_proper_suffix in auto)
qed

lemma KEYS_unique: "(k, f) \<in> set KEYS \<Longrightarrow> (l, g) \<in> set KEYS \<Longrightarrow> k = l \<longleftrightarrow> f = g"
  unfolding KEYS_def by auto

definition entries_ok :: "entry list \<Rightarrow> bool" where
  "entries_ok es \<longleftrightarrow> (\<forall>((k, f), v) \<in> set es. (k, f) \<in> set KEYS \<and> CHR '':'' \<notin> set v)"

lemma find_str_no_colon:
  assumes "CHR '':'' \<notin> set s"
  shows "find_str (k @ '':'') s = None"
proof (cases "find_str (k @ '':'') s")
  case (Some i)
  then have "length k + i < length s \<and> s ! (i + length k) = CHR '':''"
    using starts_with_nth[of "k @ '':''" i s "length k"] find_str_Some[OF Some] by simp
  with assms show ?thesis by (metis add.commute nth_mem)
qed

lemma hits_at_add: "hits_at (m + n) es = map (\<lambda>(p, h). (m + p, h)) (hits_at n es)"
  by (induction n es rule: hits_at.induct) (simp_all add: add.assoc)

lemma find_map_shift:
  "map_option fst (find (\<lambda>(p, l, g). g = f) (map (\<lambda>(p, h). (m + p, h)) hits)) =
   map_option ((+) m) (map_option fst (find (\<lambda>(p, l, g). g = f) hits))"
  by (induction hits) auto

lemma find_key_in_body:
  assumes kf: "(k, f) \<in> set KEYS"
  shows "entries_ok es \<Longrightarrow> CHR '':'' \<notin> set pre \<Longrightarrow>
    find_str (k @ '':'') (pre @ receipt_body es) =
      map_option fst (find (\<lambda>(p, l, g). g = f) (hits_at (length pre) es))"
proof (induction es arbitrary: pre rule: receipt_body.induct)
  case 1
  then show ?case by (simp add: find_str_no_colon)
next
  case (2 l g v es)
  have lg: "(l, g) \<in> set KEYS" and v: "CHR '':'' \<notin> set v" and es: "entries_ok es"
    using "2.prems" by (auto simp: entries_ok_def)
  define sep where "sep = v @ (if es = [] then [] else '' '')"
  have body: "pre @ receipt_body (((l, g), v) # es) = (pre @ l) @ CHR '':'' # (sep @ receipt_body es)"
    by (simp add: sep_def)
  have pl: "CHR '':'' \<notin> set (pre @ l)" using "2.prems" key_no_colon[OF lg] by simp
  note scan = find_str_colon[OF key_no_colon[OF kf] pl, of "sep @ receipt_body es"]
  show ?case
  proof (cases "k = l")
    case True
    then have "g = f" using KEYS_unique[OF kf lg] by simp
    then show ?thesis
      unfolding body scan using True by simp
  next
    case False
    then have g: "g \<noteq> f" and no: "\<nexists>p'. pre @ l = p' @ k"
      using KEYS_unique[OF kf lg] key_suffix[OF kf lg] by auto
    have shift: "map_option fst (find (\<lambda>(p, l, g). g = f) (hits_at (m + n) es)) =
        map_option ((+) m) (map_option fst (find (\<lambda>(p, l, g). g = f) (hits_at n es)))" for m n
      by (simp add: hits_at_add find_map_shift option.map_comp comp_def)
    have rest: "find_str (k @ '':'') (sep @ receipt_body es) =
        map_option fst (find (\<lambda>(p, l, g). g = f) (hits_at (Suc (length v)) es))"
      using "2.IH"[of sep] es v by (cases "es = []") (simp_all add: sep_def find_str_no_colon)
    show ?thesis
      unfolding body scan using no g rest shift[of "Suc (length (pre @ l))" "Suc (length v)"]
      by (simp add: ac_simps)
  qed
qed


text \<open>A list sorted strictly by a key is determined by its elements.\<close>

lemma strict_sorted_key_unique:
  fixes f :: "'a \<Rightarrow> nat"
  assumes "sorted_wrt (\<lambda>x y. f x < f y) xs" and "sorted_wrt (\<lambda>x y. f x < f y) ys" and "set xs = set ys"
  shows "xs = ys"
  using assms
proof (induction xs arbitrary: ys)
  case Nil
  then show ?case by simp
next
  case (Cons x xs)
  then obtain y ys' where ys: "ys = y # ys'" by (cases ys) auto
  have "x = y"
  proof (rule ccontr)
    assume "x \<noteq> y"
    with Cons.prems have "x \<in> set ys'" "y \<in> set xs" unfolding ys by auto
    with Cons.prems have "f y < f x" "f x < f y" unfolding ys by auto
    then show False by simp
  qed
  moreover have "x \<notin> set xs" "y \<notin> set ys'"
    using Cons.prems unfolding ys by auto
  ultimately have "set xs = set ys'"
    using Cons.prems(3) unfolding ys by (simp add: insert_ident)
  with Cons \<open>x = y\<close> show ?case unfolding ys by simp
qed

lemma foldl_add_hit:
  assumes "\<And>k f k' f' i j. (k, f) \<in> set kfs \<Longrightarrow> (k', f') \<in> set kfs \<Longrightarrow> k \<noteq> k' \<Longrightarrow>
      find_str (k @ '':'') hay = Some i \<Longrightarrow> find_str (k' @ '':'') hay = Some j \<Longrightarrow>
      \<not> (i \<le> j \<and> j < i + length k + 1)"
    and "distinct (map fst kfs)"
  shows "set (foldl (add_hit hay) [] kfs) =
    {(i, length k + 1, f) | i k f. (k, f) \<in> set kfs \<and> find_str (k @ '':'') hay = Some i}"
  using assms
proof (induction kfs rule: rev_induct)
  case Nil
  then show ?case by simp
next
  case (snoc kf kfs)
  obtain k f where kf: "kf = (k, f)" by (cases kf)
  define hits where "hits = foldl (add_hit hay) [] kfs"
  have set_hits: "set hits = {(i, length k + 1, f) | i k f. (k, f) \<in> set kfs \<and> find_str (k @ '':'') hay = Some i}"
    unfolding hits_def
  proof (rule snoc.IH)
    fix k f k' f' i j
    assume "(k, f) \<in> set kfs" "(k', f') \<in> set kfs" "k \<noteq> k'"
      "find_str (k @ '':'') hay = Some i" "find_str (k' @ '':'') hay = Some j"
    then show "\<not> (i \<le> j \<and> j < i + length k + 1)"
      using snoc.prems(1)[of k f k' f' i j] by simp
  qed (use snoc.prems(2) in simp)
  have fresh: "\<not> list_ex (\<lambda>(p, l, _). p \<le> pos \<and> pos < p + l) hits"
    if pos: "find_str (k @ '':'') hay = Some pos" for pos
  proof -
    have "\<not> (i \<le> pos \<and> pos < i + (length k' + 1))"
      if "(k', f') \<in> set kfs" "find_str (k' @ '':'') hay = Some i" for i k' f'
    proof -
      have "k' \<noteq> k" using snoc.prems(2) that(1) by (auto simp: kf rev_image_eqI)
      then show ?thesis using snoc.prems(1)[of k' f' k f i pos] that pos by (simp add: kf)
    qed
    then show ?thesis by (fastforce simp: list_ex_iff set_hits)
  qed
  have step: "foldl (add_hit hay) [] (kfs @ [kf]) =
     (case find_str (k @ '':'') hay of None \<Rightarrow> hits | Some pos \<Rightarrow> hits @ [(pos, length k + 1, f)])"
    using fresh by (auto simp: hits_def[symmetric] add_hit_def kf Let_def split: option.split)
  show ?case
    unfolding step by (cases "find_str (k @ '':'') hay") (auto simp: set_hits kf)
qed

lemma same_occurrence:
  assumes "starts_with (k @ '':'') (drop i s)" and "starts_with (l @ '':'') (drop i s)"
    and "CHR '':'' \<notin> set k" and "CHR '':'' \<notin> set l"
  shows "k = l"
proof -
  have "length k = length l"
    using colon_not_inside[OF assms(1,2,4)] colon_not_inside[OF assms(2,1,3)] by simp
  with assms(1,2) show ?thesis by (auto simp: starts_with_iff)
qed

lemma hits_at_ge: "h \<in> set (hits_at n es) \<Longrightarrow> n \<le> fst h"
  by (induction n es rule: hits_at.induct) auto

lemma hits_at_strict: "sorted_wrt (\<lambda>h h'. fst h < fst h') (hits_at n es)"
  by (induction n es rule: hits_at.induct) (auto dest: hits_at_ge)

lemma hits_at_fields: "map (snd \<circ> snd) (hits_at n es) = map (snd \<circ> fst) es"
  by (induction n es rule: hits_at.induct) auto

lemma hits_at_key:
  "entries_ok es \<Longrightarrow> (p, l, f) \<in> set (hits_at n es) \<Longrightarrow> \<exists>k. (k, f) \<in> set KEYS \<and> l = length k + 1"
  by (induction n es rule: hits_at.induct) (auto simp: entries_ok_def)

lemma find_field_unique:
  "distinct (map (snd \<circ> snd) hits) \<Longrightarrow> (p, l, f) \<in> set hits \<Longrightarrow>
   find (\<lambda>(p, l, g). g = f) hits = Some (p, l, f)" for hits :: "hit list"
  by (induction hits) (auto simp: rev_image_eqI)

lemma scan_hits_body:
  assumes ok: "entries_ok es" and dist: "distinct (map fst es)"
  shows "scan_hits (receipt_body es) = hits_at 0 es"
proof (rule strict_sorted_key_unique[OF scan_hits_strict hits_at_strict])
  define hay where "hay = receipt_body es"
  have found: "find_str (k @ '':'') hay = map_option fst (find (\<lambda>(p, l, g). g = f) (hits_at 0 es))"
    if "(k, f) \<in> set KEYS" for k f
    using find_key_in_body[OF that ok, of "[]"] by (simp add: hay_def)
  have "inj_on snd (set (map fst es))"
    using ok KEYS_unique by (fastforce simp: entries_ok_def inj_on_def)
  with dist have "distinct (map snd (map fst es))"
    by (subst distinct_map) simp
  then have fields: "distinct (map (snd \<circ> snd) (hits_at 0 es))"
    unfolding hits_at_fields by simp
  have "set (foldl (add_hit hay) [] KEYS) =
      {(i, length k + 1, f) | i k f. (k, f) \<in> set KEYS \<and> find_str (k @ '':'') hay = Some i}"
  proof (rule foldl_add_hit)
    fix k f k' f' i j
    assume k: "(k, f) \<in> set KEYS" and k': "(k', f') \<in> set KEYS" and "k \<noteq> k'"
      and "find_str (k @ '':'') hay = Some i" "find_str (k' @ '':'') hay = Some j"
    then have "starts_with (k @ '':'') (drop i hay)" "starts_with (k' @ '':'') (drop j hay)" "i \<noteq> j"
      using same_occurrence[of k i hay k'] key_no_colon by (auto dest!: find_str_Some)
    with occurrence_before[OF k _ k'] show "\<not> (i \<le> j \<and> j < i + length k + 1)"
      by fastforce
  qed (simp add: KEYS_def)
  also have "\<dots> = set (hits_at 0 es)"
  proof (intro set_eqI iffI)
    fix h assume "h \<in> {(i, length k + 1, f) | i k f. (k, f) \<in> set KEYS \<and> find_str (k @ '':'') hay = Some i}"
    then obtain i k f l where h: "h = (i, length k + 1, f)" "(k, f) \<in> set KEYS"
      and "(i, l, f) \<in> set (hits_at 0 es)"
      using found by (fastforce dest!: find_SomeD)
    with hits_at_key[OF ok, of i l f 0] show "h \<in> set (hits_at 0 es)"
      using KEYS_unique by blast
  next
    fix h assume h: "h \<in> set (hits_at 0 es)"
    obtain p l f where plf: "h = (p, l, f)" by (cases h)
    with h obtain k where "(k, f) \<in> set KEYS" "l = length k + 1"
      using hits_at_key[OF ok] by blast
    with found find_field_unique[OF fields] h plf
    show "h \<in> {(i, length k + 1, f) | i k f. (k, f) \<in> set KEYS \<and> find_str (k @ '':'') hay = Some i}"
      by auto
  qed
  finally show "set (scan_hits (receipt_body es)) = set (hits_at 0 es)"
    by (simp add: scan_hits_def hay_def)
qed

lemma trim_blank:
  assumes "v = [] \<or> graphic (hd v) \<and> graphic (last v)"
  shows "trim (v @ '' '') = v"
proof -
  have "strip_all white_space '' '' = []" "strip_all (map rev white_space) [] = []"
    by code_simp+
  moreover have "strip_all white_space (v @ '' '') = v @ '' ''" if "v \<noteq> []"
    using assms that white_space_not_graphic by (intro strip_all_same) auto
  moreover have "find (\<lambda>w. w \<noteq> [] \<and> starts_with w (CHR 0x20 # s)) (map rev white_space) = Some '' ''" for s
    by (simp add: white_space_def starts_with_def)
  then have "strip_all (map rev white_space) (CHR 0x20 # s) = strip_all (map rev white_space) s" for s
    by (simp add: strip_all.simps[of _ "CHR 0x20 # s"])
  moreover have "strip_all (map rev white_space) (rev v) = rev v"
    using assms white_space_not_graphic by (intro strip_all_same) (auto simp: hd_rev)
  ultimately show ?thesis by (cases "v = []") (simp_all add: trim_def)
qed

lemma slice_low:
  assumes "list_all (\<lambda>c. (of_char c :: nat) < 128) raw" and "a \<le> b" and "b \<le> length raw"
  shows "slice raw a b = Some (take (b - a) (drop a raw))"
proof -
  have "is_char_boundary raw i" if "i \<le> length raw" for i
    using that assms(1) low_not_cont by (auto simp: is_char_boundary_def list_all_length)
  with assms show ?thesis by (simp add: slice_def)
qed

definition set_entries :: "Receipt \<Rightarrow> entry list \<Rightarrow> Receipt" where
  "set_entries r es = foldl (\<lambda>r ((k, f), v). Receipt_set r f v) r es"

lemma fill_hits_body:
  assumes "list_all (\<lambda>c. (of_char c :: nat) < 128) (pre @ receipt_body es)"
    and "list_all (\<lambda>(kf, v). clean_value v) es"
  shows "fill_hits (pre @ receipt_body es) (hits_at (length pre) es) out = Some (set_entries out es)"
  using assms
proof (induction es arbitrary: pre out rule: receipt_body.induct)
  case 1
  then show ?case by (simp add: set_entries_def)
next
  case (2 k f v es)
  define sep where "sep = (if es = [] then [] else '' '')"
  define raw where "raw = pre @ receipt_body (((k, f), v) # es)"
  define e where "e = length pre + length k + 1 + length (v @ sep)"
  have raw: "raw = (pre @ k @ '':'' @ v @ sep) @ receipt_body es"
    by (simp add: raw_def sep_def)
  have v: "trim (v @ sep) = v"
    using "2.prems"(2) trim_blank[of v] trim_same[of v] by (simp add: sep_def clean_value_def)
  have cut: "slice raw (length pre + (length k + 1)) e = Some (v @ sep)"
    using slice_low[of raw "length pre + (length k + 1)" e] "2.prems"(1)
    unfolding raw_def[symmetric] by (simp add: raw e_def)
  have stop: "(case hits_at e es of [] \<Rightarrow> length raw | (q, _, _) # _ \<Rightarrow> q) = e"
    by (cases es) (auto simp: raw e_def sep_def)
  have "hits_at (length pre + length k + 1 + length v + 1) es = hits_at e es"
    by (cases es) (simp_all add: e_def sep_def)
  then have "hits_at (length pre) (((k, f), v) # es) = (length pre, length k + 1, f) # hits_at e es"
    by (simp only: hits_at.simps)
  then have step: "fill_hits raw (hits_at (length pre) (((k, f), v) # es)) out =
      fill_hits raw (hits_at e es) (Receipt_set out f v)"
    by (simp only: fill_hits.simps Let_def option.case stop cut v)
  have "fill_hits raw (hits_at e es) (Receipt_set out f v) =
      Some (set_entries (Receipt_set out f v) es)"
  proof (cases "es = []")
    case False
    with "2.IH"[of "pre @ k @ '':'' @ v @ sep" "Receipt_set out f v"] "2.prems" show ?thesis
      unfolding raw_def[symmetric] raw by (simp add: e_def add.assoc)
  qed (simp add: set_entries_def)
  with step show ?case
    unfolding raw_def[symmetric] by (simp only: set_entries_def foldl_Cons prod.case)
qed

lemma from_utf8_lossy_str_bytes:
  assumes "list_all (\<lambda>c. (of_char c :: nat) < 128) s"
  shows "from_utf8_lossy (str_bytes s) = s"
proof -
  have c: "unat (of_nat (of_char c) :: u8) = of_char c" for c
    using of_char_less[of c] by (simp add: unat_of_nat)
  then have "list_all (\<lambda>b. b < 0x80) (str_bytes s)"
    using assms by (simp add: str_bytes_def list_all_iff word_less_nat_alt)
  moreover have "map byte_char (str_bytes s) = s"
    by (simp add: str_bytes_def byte_char_def c comp_def)
  ultimately show ?thesis by (simp add: from_utf8_lossy_ascii)
qed

lemma entries_lower:
  defines "low \<equiv> map (\<lambda>(kf, v). (kf, to_ascii_lowercase v))"
  shows "list_all (\<lambda>(kf, _). kf \<in> set KEYS) es \<Longrightarrow>
      to_ascii_lowercase (receipt_body es) = receipt_body (low es)"
    and "hits_at n (low es) = hits_at n es"
    and "map fst (low es) = map fst es"
proof -
  have key: "to_ascii_lowercase (k @ '':'') = k @ '':''" if "(k, f) \<in> set KEYS" for k f
    using that unfolding KEYS_def by (auto simp: to_ascii_lowercase_def ascii_lower_char_def)
  have app: "to_ascii_lowercase (a @ b) = to_ascii_lowercase a @ to_ascii_lowercase b" for a b
    by (simp add: to_ascii_lowercase_def)
  have blank: "to_ascii_lowercase (CHR '' '' # s) = CHR '' '' # to_ascii_lowercase s"
    "to_ascii_lowercase [] = []" for s
    by (simp_all add: to_ascii_lowercase_def ascii_lower_char_def)
  show "to_ascii_lowercase (receipt_body es) = receipt_body (low es)"
    if "list_all (\<lambda>(kf, _). kf \<in> set KEYS) es"
    using that
  proof (induction es rule: receipt_body.induct)
    case (2 k f v es)
    then have "to_ascii_lowercase (k @ '':'' @ s) = k @ '':'' @ to_ascii_lowercase s" for s
      using key[of k f] app[of "k @ '':''" s] by simp
    with 2 show ?case
      by (cases "es = []") (simp_all add: low_def app blank)
  qed (simp add: low_def blank)
  show "hits_at n (low es) = hits_at n es"
    by (induction n es rule: hits_at.induct) (simp_all add: low_def)
  show "map fst (low es) = map fst es"
    by (simp add: low_def case_prod_beta comp_def)
qed

lemma lower_no_colon: "CHR '':'' \<in> set (to_ascii_lowercase v) \<longleftrightarrow> CHR '':'' \<in> set v"
proof -
  have "ascii_lower_char c = CHR '':'' \<longleftrightarrow> c = CHR '':''" for c
  proof
    assume eq: "ascii_lower_char c = CHR '':''"
    show "c = CHR '':''"
    proof (cases "65 \<le> (of_char c :: nat) \<and> (of_char c :: nat) \<le> 90")
      case True
      then have "(of_char (ascii_lower_char c) :: nat) = of_char c + 32"
        by (simp add: ascii_lower_char_def)
      with eq True show ?thesis by simp
    next
      case False
      then have "ascii_lower_char c = c" by (simp only: ascii_lower_char_def if_False)
      with eq show ?thesis by simp
    qed
  qed (simp add: ascii_lower_char_def)
  then have "CHR '':'' \<in> ascii_lower_char ` A \<longleftrightarrow> CHR '':'' \<in> A" for A
    by (metis imageE image_eqI)
  then show ?thesis by (simp add: to_ascii_lowercase_def)
qed

lemma receipt_body_low:
  "clean_entries es \<Longrightarrow> list_all (\<lambda>c. (of_char c :: nat) < 128) (receipt_body es)"
proof (induction es rule: receipt_body.induct)
  case (2 k f v es)
  then have "list_all (\<lambda>c. (of_char c :: nat) < 128) (k @ '':'')" "clean_value v" "clean_entries es"
    using key_low[of k f] by (auto simp: clean_entries_def list_all_iff)
  with 2 show ?case by (simp add: clean_value_def)
qed simp

lemma Receipt_parse_fills:
  obtains r where "r_raw r = from_utf8_lossy sm"
    and "Receipt_parse sm =
      Some (if scan_hits (to_ascii_lowercase (from_utf8_lossy sm)) = [] then None else Some r)"
proof -
  define raw where "raw = from_utf8_lossy sm"
  define hits where "hits = scan_hits (to_ascii_lowercase raw)"
  obtain r where r: "fill_hits raw hits (Receipt_default raw) = Some r" "r_raw r = raw"
    using fill_hits_total[of raw hits "Receipt_default raw"] wf_from_utf8_lossy[of sm]
      hits_ok_scan[of "to_ascii_lowercase raw"] scan_hits_apart
    by (auto simp: raw_def hits_def hits_ok_def Receipt_default_def)
  then have "Receipt_parse sm = Some (if hits = [] then None else Some r)"
    by (simp add: Receipt_parse_def flip: raw_def hits_def)
  with r(2) that show ?thesis by (simp add: raw_def hits_def)
qed

text \<open>The fields a list of entries leaves behind, whatever their order.\<close>

definition field_of :: "entry list \<Rightarrow> string \<Rightarrow> string option" where
  "field_of es f = map_of (map (\<lambda>((k, f), v). (f, v)) es) f"

lemma field_of_simps [simp]:
  "field_of [] f = None"
  "field_of (((k, f'), v) # es) f = (if f' = f then Some v else field_of es f)"
  by (auto simp: field_of_def)

lemma field_of_None: "f \<notin> snd ` fst ` set es \<Longrightarrow> field_of es f = None"
  by (induction es) auto

definition over :: "string option \<Rightarrow> string option \<Rightarrow> string option" where
  "over old new = (case new of None \<Rightarrow> old | Some v \<Rightarrow> Some v)"

lemma over_simps [simp]: "over old None = old" "over old (Some v) = Some v"
  by (simp_all add: over_def)

lemma set_entries_fields:
  assumes "distinct (map (snd \<circ> fst) es)" and "list_all (\<lambda>(kf, _). kf \<in> set KEYS) es"
  shows "set_entries r es = r
    \<lparr>r_id := over (r_id r) (field_of es ''id''), r_sub := over (r_sub r) (field_of es ''sub''),
     r_dlvrd := over (r_dlvrd r) (field_of es ''dlvrd''),
     r_submit_date := over (r_submit_date r) (field_of es ''submit_date''),
     r_done_date := over (r_done_date r) (field_of es ''done_date''),
     r_stat := over (r_stat r) (field_of es ''stat''), r_err := over (r_err r) (field_of es ''err''),
     r_text := over (r_text r) (field_of es ''text'')\<rparr>"
  using assms
proof (induction es arbitrary: r)
  case Nil
  then show ?case by (simp add: set_entries_def)
next
  case (Cons e es)
  obtain k f v where e: "e = ((k, f), v)" by (cases e) auto
  have step: "set_entries r (((k, f), v) # es) = set_entries (Receipt_set r f v) es"
    by (simp add: set_entries_def e)
  have none: "field_of es f = None"
    using Cons.prems(1) by (intro field_of_None) (auto simp: e image_comp)
  have key: "(k, f) \<in> set KEYS" using Cons.prems(2) by (simp add: e)
  then have f: "f \<in> {''submit_date'', ''done_date'', ''dlvrd'', ''stat'', ''text'', ''sub'', ''err'', ''id''}"
    by (auto simp: KEYS_def)
  have IH: "set_entries (Receipt_set r f v) es = (Receipt_set r f v)
    \<lparr>r_id := over (r_id (Receipt_set r f v)) (field_of es ''id''),
     r_sub := over (r_sub (Receipt_set r f v)) (field_of es ''sub''),
     r_dlvrd := over (r_dlvrd (Receipt_set r f v)) (field_of es ''dlvrd''),
     r_submit_date := over (r_submit_date (Receipt_set r f v)) (field_of es ''submit_date''),
     r_done_date := over (r_done_date (Receipt_set r f v)) (field_of es ''done_date''),
     r_stat := over (r_stat (Receipt_set r f v)) (field_of es ''stat''),
     r_err := over (r_err (Receipt_set r f v)) (field_of es ''err''),
     r_text := over (r_text (Receipt_set r f v)) (field_of es ''text'')\<rparr>"
    using Cons by simp
  from f show ?case
    unfolding e step IH using none
    by (elim insertE emptyE; simp only: field_of_simps; simp add: Receipt_set_def)
qed

lemma KEYS_snd_inj: "inj_on snd (set KEYS)"
  by (auto simp: KEYS_def inj_on_def)

lemma distinct_fields:
  assumes "distinct (map fst es)" and "list_all (\<lambda>(kf, _). kf \<in> set KEYS) (es :: entry list)"
  shows "distinct (map (snd \<circ> fst) es)"
proof -
  have "inj_on snd (set (map fst es))"
    using assms(2) by (intro inj_on_subset[OF KEYS_snd_inj]) (auto simp: list_all_iff)
  then have "distinct (map snd (map fst es))"
    using assms(1) by (simp only: distinct_map)
  then show ?thesis by simp
qed

lemma Receipt_parse_body:
  assumes "clean_entries es" and "es \<noteq> []"
  shows "Receipt_parse (str_bytes (receipt_body es)) = Some (Some
    \<lparr>r_id = field_of es ''id'', r_sub = field_of es ''sub'', r_dlvrd = field_of es ''dlvrd'',
     r_submit_date = field_of es ''submit_date'', r_done_date = field_of es ''done_date'',
     r_stat = field_of es ''stat'', r_err = field_of es ''err'', r_text = field_of es ''text'',
     r_raw = receipt_body es\<rparr>)"
proof -
  define low where "low = map (\<lambda>(kf, v). (kf, to_ascii_lowercase v)) es"
  have keys: "list_all (\<lambda>(kf, _). kf \<in> set KEYS) es"
    using assms(1) by (auto simp: clean_entries_def list_all_iff)
  have "entries_ok low"
    using assms(1)
    by (auto simp: low_def clean_entries_def entries_ok_def list_all_iff clean_value_def lower_no_colon)
  moreover have "distinct (map fst low)"
    unfolding low_def entries_lower(3) using assms(1) by (simp add: clean_entries_def)
  ultimately have "scan_hits (to_ascii_lowercase (receipt_body es)) = hits_at 0 es"
    using scan_hits_body[of low] entries_lower(1)[OF keys] entries_lower(2)[of 0 es]
    by (simp add: low_def)
  moreover have "hits_at 0 es \<noteq> []"
    using assms(2) by (cases es) auto
  moreover have "fill_hits (receipt_body es) (hits_at 0 es) out = Some (set_entries out es)" for out
    using fill_hits_body[of "[]" es out] receipt_body_low[OF assms(1)] assms(1)
    by (simp add: clean_entries_def list_all_iff case_prod_beta)
  moreover have "set_entries (Receipt_default (receipt_body es)) es =
    \<lparr>r_id = field_of es ''id'', r_sub = field_of es ''sub'', r_dlvrd = field_of es ''dlvrd'',
     r_submit_date = field_of es ''submit_date'', r_done_date = field_of es ''done_date'',
     r_stat = field_of es ''stat'', r_err = field_of es ''err'', r_text = field_of es ''text'',
     r_raw = receipt_body es\<rparr>"
    using set_entries_fields[OF distinct_fields[OF _ keys] keys] assms(1)
    by (simp add: Receipt_default_def over_def clean_entries_def split: option.split)
  ultimately show ?thesis
    using from_utf8_lossy_str_bytes[OF receipt_body_low[OF assms(1)]]
    by (simp add: Receipt_parse_def)
qed

text \<open>The last entry is what the body ends with.\<close>

lemma receipt_body_last:
  assumes "es \<noteq> []"
  shows "\<exists>front. receipt_body es = front @ fst (fst (last es)) @ '':'' @ snd (last es)"
  using assms
proof (induction es rule: receipt_body.induct)
  case (2 k f v es)
  show ?case
  proof (cases "es = []")
    case False
    with 2 obtain front where "receipt_body es = front @ fst (fst (last es)) @ '':'' @ snd (last es)" by blast
    with False show ?thesis by (intro exI[of _ "k @ '':'' @ v @ '' '' @ front"]) simp
  qed simp
qed simp

lemma field_of_last:
  assumes "es \<noteq> []" and "list_all (\<lambda>((key, field), value). field \<noteq> f) (butlast es)" and "field_of es f = Some v"
  shows "\<exists>k. last es = ((k, f), v)"
  using assms
proof (induction es)
  case (Cons e es)
  then show ?case by (cases e) (auto split: if_splits)
qed simp

section \<open>Properties\<close>

text \<open>
  C1. The receipt parser never panics, whatever octets the peer sent: every slice it takes is
  in range and on a character boundary. It reports no receipt exactly when none of the
  canonical keys occurs followed by a colon, and otherwise keeps the whole decoded body.
\<close>

theorem receipt_parse_never_panics:
  "\<exists>r. Receipt_parse sm = Some r \<and>
     (case r of
        None \<Rightarrow> list_all (\<lambda>(k, _). find_str (k @ '':'') (to_ascii_lowercase (from_utf8_lossy sm)) = None) KEYS
      | Some rc \<Rightarrow> r_raw rc = from_utf8_lossy sm
          \<and> list_ex (\<lambda>(k, _). find_str (k @ '':'') (to_ascii_lowercase (from_utf8_lossy sm)) \<noteq> None) KEYS)"
proof -
  obtain r where "r_raw r = from_utf8_lossy sm"
    and "Receipt_parse sm =
      Some (if scan_hits (to_ascii_lowercase (from_utf8_lossy sm)) = [] then None else Some r)"
    by (rule Receipt_parse_fills)
  then show ?thesis
    using scan_hits_empty[of "to_ascii_lowercase (from_utf8_lossy sm)"]
    by (auto simp: list_all_iff list_ex_iff)
qed

text \<open>
  C10. Print and parse: any selection of the canonical fields, printed in any order as
  \<open>key:value\<close> entries between single blanks with \<open>text\<close>, if it is there, at the end, parses
  back to exactly these fields, and \<open>text\<close> is all that follows its key, as long as the values
  are ASCII, hold no colon and are not padded with blanks.
\<close>

theorem receipt_print_parse:
  assumes "clean_entries es" and "es \<noteq> []"
    and "list_all (\<lambda>((key, field), value). field \<noteq> ''text'') (butlast es)"
  shows "Receipt_parse (str_bytes (receipt_body es)) = Some (Some
    \<lparr>r_id = field_of es ''id'', r_sub = field_of es ''sub'', r_dlvrd = field_of es ''dlvrd'',
     r_submit_date = field_of es ''submit_date'', r_done_date = field_of es ''done_date'',
     r_stat = field_of es ''stat'', r_err = field_of es ''err'', r_text = field_of es ''text'',
     r_raw = receipt_body es\<rparr>)
   \<and> (\<forall>v. field_of es ''text'' = Some v \<longrightarrow> (\<exists>front. receipt_body es = front @ ''text:'' @ v))"
proof (intro conjI allI impI)
  fix v
  assume "field_of es ''text'' = Some v"
  then obtain k where last: "last es = ((k, ''text''), v)"
    using field_of_last[OF assms(2,3)] by blast
  then have "((k, ''text''), v) \<in> set es" using last_in_set[OF assms(2)] by simp
  then have "k = ''text''" using assms(1) by (auto simp: clean_entries_def list_all_iff KEYS_def)
  then show "\<exists>front. receipt_body es = front @ ''text:'' @ v"
    using receipt_body_last[OF assms(2)] last by fastforce
qed (rule Receipt_parse_body[OF assms(1,2)])

theorem receipt_print_parse_witness:
  "map_option (map_option (\<lambda>r. (r_id r, r_stat r, r_done_date r, r_err r, r_text r)))
     (Receipt_parse (str_bytes ''id:0A1b done date:2401011201 stat:DELIVRD text:Hello there'')) =
   Some (Some (Some ''0A1b'', Some ''DELIVRD'', Some ''2401011201'', None, Some ''Hello there''))"
proof -
  have clean: "clean_entries [((''id'', ''id''), ''0A1b''), ((''done date'', ''done_date''), ''2401011201''),
      ((''stat'', ''stat''), ''DELIVRD''), ((''text'', ''text''), ''Hello there'')]"
    by code_simp
  from receipt_print_parse[OF clean] show ?thesis
    by simp
qed

text \<open>
  The value of \<open>text\<close> does not always run to the end of the body: a canonical key inside
  the message text cuts it, and the rest of the text is reported under that key.
\<close>

theorem receipt_text_cut_by_later_key:
  "map_option (map_option (\<lambda>r. (r_text r, r_err r))) (Receipt_parse (str_bytes ''id:1 text:see err:42 now'')) =
   Some (Some (Some ''see'', Some ''42 now''))"
  by code_simp

end
