(* ===== verification/Smpp_Pdu.thy ===== *)
theory Smpp_Pdu
  imports Smpp_Receipt
begin

text \<open>
  The classes scripts see (\<open>src/src/pyclasses.rs\<close>): \<open>Pdu\<close> and how it is built from each
  request, its computed attributes, \<open>PduReply\<close>, \<open>Bind\<close>, \<open>BindResult\<close>,
  \<open>AlertNotification\<close> and \<open>Session\<close>. The request PDUs are the codec's; their records
  have the fields the sources read.
\<close>

unbundle bit_operations_syntax

section \<open>Request PDUs\<close>

datatype DestAddress = Sme u8 u8 string | DistributionList string

record submit_sm =
  ss_service_type :: string
  ss_source_addr_ton :: u8
  ss_source_addr_npi :: u8
  ss_source_addr :: string
  ss_dest_addr_ton :: u8
  ss_dest_addr_npi :: u8
  ss_destination_addr :: string
  ss_esm_class :: u8
  ss_protocol_id :: u8
  ss_priority_flag :: u8
  ss_schedule_delivery_time :: string
  ss_validity_period :: string
  ss_registered_delivery :: u8
  ss_replace_if_present_flag :: u8
  ss_data_coding :: u8
  ss_sm_default_msg_id :: u8
  ss_sm_length :: u8
  ss_short_message :: bytes
  ss_tlvs :: "Tlv list"

record deliver_sm =
  ds_service_type :: string
  ds_source_addr_ton :: u8
  ds_source_addr_npi :: u8
  ds_source_addr :: string
  ds_dest_addr_ton :: u8
  ds_dest_addr_npi :: u8
  ds_destination_addr :: string
  ds_esm_class :: u8
  ds_protocol_id :: u8
  ds_priority_flag :: u8
  ds_schedule_delivery_time :: string
  ds_validity_period :: string
  ds_registered_delivery :: u8
  ds_replace_if_present_flag :: u8
  ds_data_coding :: u8
  ds_sm_default_msg_id :: u8
  ds_sm_length :: u8
  ds_short_message :: bytes
  ds_tlvs :: "Tlv list"

record data_sm =
  dt_service_type :: string
  dt_source_addr_ton :: u8
  dt_source_addr_npi :: u8
  dt_source_addr :: string
  dt_dest_addr_ton :: u8
  dt_dest_addr_npi :: u8
  dt_destination_addr :: string
  dt_esm_class :: u8
  dt_registered_delivery :: u8
  dt_data_coding :: u8
  dt_tlvs :: "Tlv list"

record cancel_sm =
  cs_service_type :: string
  cs_message_id :: string
  cs_source_addr_ton :: u8
  cs_source_addr_npi :: u8
  cs_source_addr :: string
  cs_dest_addr_ton :: u8
  cs_dest_addr_npi :: u8
  cs_destination_addr :: string

record query_sm =
  qs_message_id :: string
  qs_source_addr_ton :: u8
  qs_source_addr_npi :: u8
  qs_source_addr :: string

record replace_sm =
  rs_message_id :: string
  rs_source_addr_ton :: u8
  rs_source_addr_npi :: u8
  rs_source_addr :: string
  rs_schedule_delivery_time :: string
  rs_validity_period :: string
  rs_registered_delivery :: u8
  rs_sm_default_msg_id :: u8
  rs_sm_length :: u8
  rs_short_message :: bytes

record submit_sm_multi =
  sm_service_type :: string
  sm_source_addr_ton :: u8
  sm_source_addr_npi :: u8
  sm_source_addr :: string
  sm_esm_class :: u8
  sm_protocol_id :: u8
  sm_priority_flag :: u8
  sm_schedule_delivery_time :: string
  sm_validity_period :: string
  sm_registered_delivery :: u8
  sm_replace_if_present_flag :: u8
  sm_data_coding :: u8
  sm_sm_default_msg_id :: u8
  sm_sm_length :: u8
  sm_short_message :: bytes
  sm_tlvs :: "Tlv list"
  sm_dest_addresses :: "DestAddress list"

record alert_notification =
  an_source_addr :: string
  an_esme_addr :: string
  an_ms_availability_status :: "u8 option"

section \<open>Pdu\<close>

record Pdu =
  p_command :: string
  p_message_id :: string
  p_service_type :: string
  p_source_addr_ton :: u8
  p_source_addr_npi :: u8
  p_source_addr :: string
  p_dest_addr_ton :: u8
  p_dest_addr_npi :: u8
  p_destination_addr :: string
  p_esm_class :: u8
  p_protocol_id :: u8
  p_priority_flag :: u8
  p_schedule_delivery_time :: string
  p_validity_period :: string
  p_registered_delivery :: u8
  p_replace_if_present_flag :: u8
  p_data_coding :: u8
  p_sm_default_msg_id :: u8
  p_sm_length :: u8
  p_destinations :: "string list"
  p_short_message :: bytes
  p_tlvs :: "Tlv list"

definition from_submit :: "submit_sm \<Rightarrow> Pdu" where
  "from_submit s = \<lparr>
     p_command = ''submit_sm'',
     p_message_id = [],
     p_service_type = ss_service_type s,
     p_source_addr_ton = ss_source_addr_ton s,
     p_source_addr_npi = ss_source_addr_npi s,
     p_source_addr = ss_source_addr s,
     p_dest_addr_ton = ss_dest_addr_ton s,
     p_dest_addr_npi = ss_dest_addr_npi s,
     p_destination_addr = ss_destination_addr s,
     p_esm_class = ss_esm_class s,
     p_protocol_id = ss_protocol_id s,
     p_priority_flag = ss_priority_flag s,
     p_schedule_delivery_time = ss_schedule_delivery_time s,
     p_validity_period = ss_validity_period s,
     p_registered_delivery = ss_registered_delivery s,
     p_replace_if_present_flag = ss_replace_if_present_flag s,
     p_data_coding = ss_data_coding s,
     p_sm_default_msg_id = ss_sm_default_msg_id s,
     p_sm_length = ss_sm_length s,
     p_destinations = [],
     p_short_message = ss_short_message s,
     p_tlvs = ss_tlvs s\<rparr>"

definition from_deliver :: "deliver_sm \<Rightarrow> Pdu" where
  "from_deliver d = \<lparr>
     p_command = ''deliver_sm'',
     p_message_id = [],
     p_service_type = ds_service_type d,
     p_source_addr_ton = ds_source_addr_ton d,
     p_source_addr_npi = ds_source_addr_npi d,
     p_source_addr = ds_source_addr d,
     p_dest_addr_ton = ds_dest_addr_ton d,
     p_dest_addr_npi = ds_dest_addr_npi d,
     p_destination_addr = ds_destination_addr d,
     p_esm_class = ds_esm_class d,
     p_protocol_id = ds_protocol_id d,
     p_priority_flag = ds_priority_flag d,
     p_schedule_delivery_time = ds_schedule_delivery_time d,
     p_validity_period = ds_validity_period d,
     p_registered_delivery = ds_registered_delivery d,
     p_replace_if_present_flag = ds_replace_if_present_flag d,
     p_data_coding = ds_data_coding d,
     p_sm_default_msg_id = ds_sm_default_msg_id d,
     p_sm_length = ds_sm_length d,
     p_destinations = [],
     p_short_message = ds_short_message d,
     p_tlvs = ds_tlvs d\<rparr>"

definition from_data :: "data_sm \<Rightarrow> Pdu" where
  "from_data d = \<lparr>
     p_command = ''data_sm'',
     p_message_id = [],
     p_service_type = dt_service_type d,
     p_source_addr_ton = dt_source_addr_ton d,
     p_source_addr_npi = dt_source_addr_npi d,
     p_source_addr = dt_source_addr d,
     p_dest_addr_ton = dt_dest_addr_ton d,
     p_dest_addr_npi = dt_dest_addr_npi d,
     p_destination_addr = dt_destination_addr d,
     p_esm_class = dt_esm_class d,
     p_protocol_id = 0,
     p_priority_flag = 0,
     p_schedule_delivery_time = [],
     p_validity_period = [],
     p_registered_delivery = dt_registered_delivery d,
     p_replace_if_present_flag = 0,
     p_data_coding = dt_data_coding d,
     p_sm_default_msg_id = 0,
     p_sm_length = 0,
     p_destinations = [],
     p_short_message = [],
     p_tlvs = dt_tlvs d\<rparr>"

definition from_cancel :: "cancel_sm \<Rightarrow> Pdu" where
  "from_cancel c = \<lparr>
     p_command = ''cancel_sm'',
     p_message_id = cs_message_id c,
     p_service_type = cs_service_type c,
     p_source_addr_ton = cs_source_addr_ton c,
     p_source_addr_npi = cs_source_addr_npi c,
     p_source_addr = cs_source_addr c,
     p_dest_addr_ton = cs_dest_addr_ton c,
     p_dest_addr_npi = cs_dest_addr_npi c,
     p_destination_addr = cs_destination_addr c,
     p_esm_class = 0,
     p_protocol_id = 0,
     p_priority_flag = 0,
     p_schedule_delivery_time = [],
     p_validity_period = [],
     p_registered_delivery = 0,
     p_replace_if_present_flag = 0,
     p_data_coding = 0,
     p_sm_default_msg_id = 0,
     p_sm_length = 0,
     p_destinations = [],
     p_short_message = [],
     p_tlvs = []\<rparr>"

definition from_query :: "query_sm \<Rightarrow> Pdu" where
  "from_query q = \<lparr>
     p_command = ''query_sm'',
     p_message_id = qs_message_id q,
     p_service_type = [],
     p_source_addr_ton = qs_source_addr_ton q,
     p_source_addr_npi = qs_source_addr_npi q,
     p_source_addr = qs_source_addr q,
     p_dest_addr_ton = 0,
     p_dest_addr_npi = 0,
     p_destination_addr = [],
     p_esm_class = 0,
     p_protocol_id = 0,
     p_priority_flag = 0,
     p_schedule_delivery_time = [],
     p_validity_period = [],
     p_registered_delivery = 0,
     p_replace_if_present_flag = 0,
     p_data_coding = 0,
     p_sm_default_msg_id = 0,
     p_sm_length = 0,
     p_destinations = [],
     p_short_message = [],
     p_tlvs = []\<rparr>"

definition from_replace :: "replace_sm \<Rightarrow> Pdu" where
  "from_replace r = \<lparr>
     p_command = ''replace_sm'',
     p_message_id = rs_message_id r,
     p_service_type = [],
     p_source_addr_ton = rs_source_addr_ton r,
     p_source_addr_npi = rs_source_addr_npi r,
     p_source_addr = rs_source_addr r,
     p_dest_addr_ton = 0,
     p_dest_addr_npi = 0,
     p_destination_addr = [],
     p_esm_class = 0,
     p_protocol_id = 0,
     p_priority_flag = 0,
     p_schedule_delivery_time = rs_schedule_delivery_time r,
     p_validity_period = rs_validity_period r,
     p_registered_delivery = rs_registered_delivery r,
     p_replace_if_present_flag = 0,
     p_data_coding = 0,
     p_sm_default_msg_id = rs_sm_default_msg_id r,
     p_sm_length = rs_sm_length r,
     p_destinations = [],
     p_short_message = rs_short_message r,
     p_tlvs = []\<rparr>"

primrec dest_name :: "DestAddress \<Rightarrow> string" where
  "dest_name (Sme ton npi destination_addr) = destination_addr"
| "dest_name (DistributionList dl_name) = dl_name"

definition from_submit_multi :: "submit_sm_multi \<Rightarrow> Pdu" where
  "from_submit_multi m = \<lparr>
     p_command = ''submit_sm_multi'',
     p_message_id = [],
     p_service_type = sm_service_type m,
     p_source_addr_ton = sm_source_addr_ton m,
     p_source_addr_npi = sm_source_addr_npi m,
     p_source_addr = sm_source_addr m,
     p_dest_addr_ton = 0,
     p_dest_addr_npi = 0,
     p_destination_addr = [],
     p_esm_class = sm_esm_class m,
     p_protocol_id = sm_protocol_id m,
     p_priority_flag = sm_priority_flag m,
     p_schedule_delivery_time = sm_schedule_delivery_time m,
     p_validity_period = sm_validity_period m,
     p_registered_delivery = sm_registered_delivery m,
     p_replace_if_present_flag = sm_replace_if_present_flag m,
     p_data_coding = sm_data_coding m,
     p_sm_default_msg_id = sm_sm_default_msg_id m,
     p_sm_length = sm_sm_length m,
     p_destinations = map dest_name (sm_dest_addresses m),
     p_short_message = sm_short_message m,
     p_tlvs = sm_tlvs m\<rparr>"

section \<open>Computed attributes\<close>

definition is_tpdu :: "Pdu \<Rightarrow> bool" where
  "is_tpdu p \<longleftrightarrow> p_esm_class p AND 0x40 \<noteq> 0"

definition body :: "codec \<Rightarrow> Pdu \<Rightarrow> bytes" where
  "body C p = (case get_message_payload C (p_tlvs p) of Some b \<Rightarrow> b | None \<Rightarrow> p_short_message p)"

definition Pdu_tlvs :: "Pdu \<Rightarrow> (u16 \<times> bytes) list" where
  "Pdu_tlvs p = tlvs_to_py (p_tlvs p)"

definition Pdu_tlv :: "codec \<Rightarrow> Pdu \<Rightarrow> 'o pyval \<Rightarrow> (bytes option) py_result" where
  "Pdu_tlv C p key =
     rbind (tag_from_py C key) (\<lambda>t. Inr (map_option tlv_value (get_tlv_raw C (p_tlvs p) t)))"

text \<open>The shortcuts to single parameters, decoded by the codec.\<close>

definition Pdu_message_payload :: "codec \<Rightarrow> Pdu \<Rightarrow> bytes option" where
  "Pdu_message_payload C p = get_message_payload C (p_tlvs p)"

definition Pdu_receipted_message_id :: "codec \<Rightarrow> Pdu \<Rightarrow> string option" where
  "Pdu_receipted_message_id C p = get_receipted_message_id C (p_tlvs p)"

definition Pdu_message_state :: "codec \<Rightarrow> Pdu \<Rightarrow> u8 option" where
  "Pdu_message_state C p = get_message_state C (p_tlvs p)"

definition Pdu_user_message_reference :: "codec \<Rightarrow> Pdu \<Rightarrow> u16 option" where
  "Pdu_user_message_reference C p = get_user_message_reference C (p_tlvs p)"

definition Pdu_sar_msg_ref_num :: "codec \<Rightarrow> Pdu \<Rightarrow> u16 option" where
  "Pdu_sar_msg_ref_num C p = get_sar_msg_ref_num C (p_tlvs p)"

definition Pdu_sar_total_segments :: "codec \<Rightarrow> Pdu \<Rightarrow> u8 option" where
  "Pdu_sar_total_segments C p = get_sar_total_segments C (p_tlvs p)"

definition Pdu_sar_segment_seqnum :: "codec \<Rightarrow> Pdu \<Rightarrow> u8 option" where
  "Pdu_sar_segment_seqnum C p = get_sar_segment_seqnum C (p_tlvs p)"

definition Pdu_more_messages_to_send :: "codec \<Rightarrow> Pdu \<Rightarrow> u8 option" where
  "Pdu_more_messages_to_send C p = get_more_messages_to_send C (p_tlvs p)"

definition Pdu_network_error_code :: "codec \<Rightarrow> Pdu \<Rightarrow> (u8 \<times> u16) option" where
  "Pdu_network_error_code C p = get_network_error_code C (p_tlvs p)"

definition is_dlr :: "Pdu \<Rightarrow> bool" where
  "is_dlr p \<longleftrightarrow> p_esm_class p AND 0x04 \<noteq> 0"

text \<open>The \<open>receipt\<close> attribute; the outer \<open>None\<close> is a panic in the parser.\<close>

definition receipt :: "codec \<Rightarrow> Pdu \<Rightarrow> (string \<times> 'o pyval) list option option" where
  "receipt C p =
     (if \<not> is_dlr p then Some None
      else
        let sm = unwrap_or (p_short_message p) (get_message_payload C (p_tlvs p));
            tlv_id = get_receipted_message_id C (p_tlvs p);
            tlv_state = get_message_state C (p_tlvs p);
            finish = (\<lambda>parsed.
              let parsed = (if r_id parsed = None then parsed\<lparr>r_id := tlv_id\<rparr> else parsed);
                  parsed = (if r_stat parsed = None
                    then parsed\<lparr>r_stat := Option.bind tlv_state message_state_name\<rparr> else parsed);
                  d = map (\<lambda>(k, v). (k, PyStr v)) (fill_dict parsed [])
              in (case tlv_state of
                    None \<Rightarrow> d
                  | Some s \<Rightarrow> set_item ''message_state'' (PyInt (uint s)) d))
        in case Receipt_parse sm of
             None \<Rightarrow> None
           | Some (Some parsed) \<Rightarrow> Some (Some (finish parsed))
           | Some None \<Rightarrow>
               if tlv_id \<noteq> None \<or> tlv_state \<noteq> None
               then Some (Some (finish (Receipt_default (from_utf8_lossy sm))))
               else Some None)"

section \<open>Replies\<close>

record PduReply =
  rp_command_status :: SmppError
  rp_message_id :: "string option"
  rp_message_state :: "u8 option"
  rp_final_date :: string
  rp_error_code :: u8
  rp_tlvs :: "Tlv list"

definition parse_status :: "string \<Rightarrow> SmppError py_result" where
  "parse_status s = ok_or (parse_smpp_status s) (PyValueError (Unknown_SMPP_status s))"

definition reply :: "codec \<Rightarrow> Pdu \<Rightarrow> string \<Rightarrow> string option \<Rightarrow> 'o pydict option \<Rightarrow> PduReply py_result" where
  "reply C p command_status message_id tlvs =
     rbind (parse_status command_status) (\<lambda>cs.
     rbind (tlvs_from_py C tlvs) (\<lambda>tlvs.
     if tlvs \<noteq> [] \<and> p_command p \<noteq> ''data_sm''
     then Inl (PyValueError (Reply_tlvs_off_data_sm (p_command p)))
     else Inr \<lparr>rp_command_status = cs, rp_message_id = message_id, rp_message_state = None,
                rp_final_date = [], rp_error_code = 0, rp_tlvs = tlvs\<rparr>))"

definition reply_query :: "Pdu \<Rightarrow> u8 \<Rightarrow> string option \<Rightarrow> string \<Rightarrow> u8 \<Rightarrow> PduReply" where
  "reply_query p message_state message_id final_date error_code =
     \<lparr>rp_command_status = ESME_ROK,
      rp_message_id = (case message_id of Some i \<Rightarrow> Some i | None \<Rightarrow> Some (p_message_id p)),
      rp_message_state = Some message_state, rp_final_date = final_date,
      rp_error_code = error_code, rp_tlvs = []\<rparr>"

definition PduReply_new :: "codec \<Rightarrow> string \<Rightarrow> string option \<Rightarrow> 'o pydict option \<Rightarrow> PduReply py_result" where
  "PduReply_new C command_status message_id tlvs =
     rbind (parse_status command_status) (\<lambda>cs.
     rbind (tlvs_from_py C tlvs) (\<lambda>tlvs.
     Inr \<lparr>rp_command_status = cs, rp_message_id = message_id, rp_message_state = None,
          rp_final_date = [], rp_error_code = 0, rp_tlvs = tlvs\<rparr>))"

definition default_ok :: PduReply where
  "default_ok = \<lparr>rp_command_status = ESME_ROK, rp_message_id = None, rp_message_state = None,
     rp_final_date = [], rp_error_code = 0, rp_tlvs = []\<rparr>"

section \<open>Binds, alerts, sessions\<close>

record Bind =
  bd_system_id :: string
  bd_password :: string
  bd_client_addr :: string

record BindResult =
  br_accept :: bool
  br_status :: SmppError
  br_reason :: string

definition Bind_accept :: "Bind \<Rightarrow> BindResult" where
  "Bind_accept b = \<lparr>br_accept = True, br_status = ESME_ROK, br_reason = []\<rparr>"

definition Bind_reject :: "Bind \<Rightarrow> string \<Rightarrow> string \<Rightarrow> BindResult py_result" where
  "Bind_reject b status reason =
     rbind (parse_status status) (\<lambda>s. Inr \<lparr>br_accept = False, br_status = s, br_reason = reason\<rparr>)"

record AlertNotification =
  al_source_addr :: string
  al_esme_addr :: string
  al_ms_availability_status :: "u8 option"

definition from_alert :: "alert_notification \<Rightarrow> AlertNotification" where
  "from_alert a = \<lparr>al_source_addr = an_source_addr a, al_esme_addr = an_esme_addr a,
     al_ms_availability_status = an_ms_availability_status a\<rparr>"

datatype SourceKind = FromBind | EsmeServer

record Session =
  s_kind :: SourceKind
  s_session_id :: string
  s_system_id :: string
  s_client_addr :: string

definition session_kind :: "Session \<Rightarrow> string" where
  "session_kind s = (case s_kind s of FromBind \<Rightarrow> ''bind'' | EsmeServer \<Rightarrow> ''esme'')"

section \<open>Lemmas\<close>

lemma map_of_put_opt [simp]:
  "map_of (put_opt k v d) k' = (if k = k' \<and> v \<noteq> None then v else map_of d k')"
  by (cases v) (simp_all add: put_opt_def)

lemma map_of_fill_dict [simp]:
  "map_of (fill_dict r []) ''id'' = r_id r"
  "map_of (fill_dict r []) ''sub'' = r_sub r"
  "map_of (fill_dict r []) ''dlvrd'' = r_dlvrd r"
  "map_of (fill_dict r []) ''submit_date'' = r_submit_date r"
  "map_of (fill_dict r []) ''done_date'' = r_done_date r"
  "map_of (fill_dict r []) ''stat'' = r_stat r"
  "map_of (fill_dict r []) ''err'' = r_err r"
  "map_of (fill_dict r []) ''text'' = r_text r"
  "map_of (fill_dict r []) ''raw'' = Some (r_raw r)"
  by (simp_all add: fill_dict_def)

lemma map_of_PyStr [simp]:
  "map_of (map (\<lambda>(k, v). (k, PyStr v)) d) k = map_option PyStr (map_of d k)"
  by (induction d) auto

text \<open>
  The \<open>receipt\<close> attribute in two steps: the parsed text completed from the optional
  parameters, and the dict of the result.
\<close>

definition receipt_filled :: "codec \<Rightarrow> Pdu \<Rightarrow> Receipt \<Rightarrow> Receipt" where
  "receipt_filled C p r = r
     \<lparr>r_id := (case r_id r of Some i \<Rightarrow> Some i | None \<Rightarrow> get_receipted_message_id C (p_tlvs p)),
      r_stat := (case r_stat r of Some s \<Rightarrow> Some s
        | None \<Rightarrow> Option.bind (get_message_state C (p_tlvs p)) message_state_name)\<rparr>"

definition receipt_dict :: "codec \<Rightarrow> Pdu \<Rightarrow> Receipt \<Rightarrow> (string \<times> 'o pyval) list" where
  "receipt_dict C p r =
     (let d = map (\<lambda>(k, v). (k, PyStr v)) (fill_dict (receipt_filled C p r) [])
      in case get_message_state C (p_tlvs p) of
           None \<Rightarrow> d | Some s \<Rightarrow> set_item ''message_state'' (PyInt (uint s)) d)"

lemma receipt_eq:
  assumes "Receipt_parse (body C p) = Some r"
  shows "receipt C p = Some
    (if \<not> is_dlr p \<or> r = None \<and> get_receipted_message_id C (p_tlvs p) = None \<and> get_message_state C (p_tlvs p) = None
     then None
     else Some (receipt_dict C p (case r of None \<Rightarrow> Receipt_default (from_utf8_lossy (body C p)) | Some rc \<Rightarrow> rc)))"
proof -
  have body: "unwrap_or (p_short_message p) (get_message_payload C (p_tlvs p)) = body C p"
    by (simp add: body_def unwrap_or_def split: option.split)
  have filled: "(let parsed = (if r_id rc = None then rc\<lparr>r_id := get_receipted_message_id C (p_tlvs p)\<rparr> else rc)
      in if r_stat parsed = None
         then parsed\<lparr>r_stat := Option.bind (get_message_state C (p_tlvs p)) message_state_name\<rparr> else parsed) =
      receipt_filled C p rc" for rc
    by (cases rc) (auto simp: receipt_filled_def Let_def split: option.split)
  show ?thesis
    using assms unfolding receipt_def receipt_dict_def Let_def body filled[unfolded Let_def]
    by (cases r) (auto split: option.split)
qed

lemma map_of_receipt_dict:
  "map_of (receipt_dict C p r) k =
     (if k = ''message_state'' \<and> get_message_state C (p_tlvs p) \<noteq> None
      then map_option (\<lambda>s. PyInt (uint s)) (get_message_state C (p_tlvs p))
      else map_option PyStr (map_of (fill_dict (receipt_filled C p r) []) k))"
  by (simp add: receipt_dict_def Let_def split: option.split)

lemma map_of_fill_dict_other:
  "k \<notin> {''id'', ''sub'', ''dlvrd'', ''submit_date'', ''done_date'', ''stat'', ''err'', ''text'', ''raw''} \<Longrightarrow>
   map_of (fill_dict r []) k = None"
  by (auto simp: fill_dict_def)

lemma keys_receipt_dict:
  "fst ` set (receipt_dict C p r :: (string \<times> 'o pyval) list) \<subseteq> {''id'', ''sub'', ''dlvrd'', ''submit_date'', ''done_date'', ''stat'', ''err'', ''text'',
     ''raw'', ''message_state''}"
proof
  fix k
  assume "k \<in> fst ` set (receipt_dict C p r :: (string \<times> 'o pyval) list)"
  then have some: "map_of (receipt_dict C p r :: (string \<times> 'o pyval) list) k \<noteq> None" by (simp add: map_of_eq_None_iff)
  have other: "map_of (receipt_dict C p r :: (string \<times> 'o pyval) list) k = None"
    if "k \<notin> {''id'', ''sub'', ''dlvrd'', ''submit_date'', ''done_date'', ''stat'', ''err'', ''text'', ''raw'', ''message_state''}"
    using map_of_fill_dict_other[of k "receipt_filled C p r"] that by (simp add: map_of_receipt_dict)
  show "k \<in> {''id'', ''sub'', ''dlvrd'', ''submit_date'', ''done_date'', ''stat'', ''err'', ''text'',
     ''raw'', ''message_state''}" by (rule contrapos_np[OF some other])
qed

section \<open>Properties\<close>

text \<open>
  C36. The \<open>receipt\<close> attribute: the parser runs on the effective body and never panics. The
  attribute is absent exactly when the PDU is not a delivery receipt, or neither its text nor
  its optional parameters carry one. Otherwise it is a dict in which each of the eight fields of the
  text is under its own key when the text has it and missing when it has not, except that the
  parameters fill \<open>id\<close> and \<open>stat\<close> where the text has none; \<open>raw\<close> is the whole decoded body,
  the numeric state is there whenever the parameter is, and there is no other key.
\<close>

theorem receipt_text_wins:
  "\<exists>r att :: (string \<times> 'o pyval) list option.
     Receipt_parse (body C p) = Some r \<and> receipt C p = Some att
   \<and> (att = None \<longleftrightarrow> \<not> is_dlr p
        \<or> r = None \<and> get_receipted_message_id C (p_tlvs p) = None \<and> get_message_state C (p_tlvs p) = None)
   \<and> (\<forall>d. att = Some d \<longrightarrow>
        map_of d ''id'' = map_option PyStr
          (case Option.bind r r_id of Some i \<Rightarrow> Some i | None \<Rightarrow> get_receipted_message_id C (p_tlvs p))
      \<and> map_of d ''sub'' = map_option PyStr (Option.bind r r_sub)
      \<and> map_of d ''dlvrd'' = map_option PyStr (Option.bind r r_dlvrd)
      \<and> map_of d ''submit_date'' = map_option PyStr (Option.bind r r_submit_date)
      \<and> map_of d ''done_date'' = map_option PyStr (Option.bind r r_done_date)
      \<and> map_of d ''stat'' = map_option PyStr
          (case Option.bind r r_stat of Some s \<Rightarrow> Some s
           | None \<Rightarrow> Option.bind (get_message_state C (p_tlvs p)) message_state_name)
      \<and> map_of d ''err'' = map_option PyStr (Option.bind r r_err)
      \<and> map_of d ''text'' = map_option PyStr (Option.bind r r_text)
      \<and> map_of d ''raw'' = Some (PyStr (from_utf8_lossy (body C p)))
      \<and> map_of d ''message_state'' = map_option (\<lambda>s. PyInt (uint s)) (get_message_state C (p_tlvs p))
      \<and> fst ` set d \<subseteq> {''id'', ''sub'', ''dlvrd'', ''submit_date'', ''done_date'', ''stat'', ''err'', ''text'',
          ''raw'', ''message_state''})"
proof -
  obtain rc where rc: "r_raw rc = from_utf8_lossy (body C p)"
    and parse: "Receipt_parse (body C p) = Some
      (if scan_hits (to_ascii_lowercase (from_utf8_lossy (body C p))) = [] then None else Some rc)"
    by (rule Receipt_parse_fills)
  then obtain r where r: "Receipt_parse (body C p) = Some r" "r = None \<or> r = Some rc" by simp
  let ?rc = "case r of None \<Rightarrow> Receipt_default (from_utf8_lossy (body C p)) | Some rc \<Rightarrow> rc"
  have fields: "r_id ?rc = Option.bind r r_id" "r_sub ?rc = Option.bind r r_sub" "r_dlvrd ?rc = Option.bind r r_dlvrd"
    "r_submit_date ?rc = Option.bind r r_submit_date" "r_done_date ?rc = Option.bind r r_done_date"
    "r_stat ?rc = Option.bind r r_stat" "r_err ?rc = Option.bind r r_err" "r_text ?rc = Option.bind r r_text"
    "r_raw ?rc = from_utf8_lossy (body C p)"
    using r(2) rc by (auto simp: Receipt_default_def)
  show ?thesis
    using r(1) receipt_eq[OF r(1), where ?'a = 'o]
    by (intro exI[of _ r] exI[of _ "the (receipt C p)"])
      (auto simp: map_of_receipt_dict receipt_filled_def fields map_of_fill_dict_other
        dest: subsetD[OF keys_receipt_dict, OF imageI])
qed

text \<open>A delivery receipt for the witness: the text has the id, the parameters the state.\<close>

definition sample_dlr :: Pdu where
  "sample_dlr = (from_cancel \<lparr>cs_service_type = [], cs_message_id = [], cs_source_addr_ton = 1,
     cs_source_addr_npi = 1, cs_source_addr = ''100'', cs_dest_addr_ton = 1, cs_dest_addr_npi = 1,
     cs_destination_addr = ''200''\<rparr>)
     \<lparr>p_command := ''deliver_sm'', p_esm_class := 4, p_short_message := str_bytes ''id:7 err:000'',
      p_tlvs := [\<lparr>tlv_tag = 0x0427, tlv_value = [2]\<rparr>]\<rparr>"

theorem receipt_text_wins_witness:
  "\<exists>d :: (string \<times> unit pyval) list.
     receipt spec_codec sample_dlr = Some (Some d) \<and> map_of d ''id'' = Some (PyStr ''7'')
     \<and> map_of d ''stat'' = Some (PyStr ''DELIVRD'') \<and> map_of d ''message_state'' = Some (PyInt 2)"
proof -
  have dlr: "is_dlr sample_dlr" by code_simp
  have parse: "map_option (map_option (\<lambda>r. (r_id r, r_stat r)))
      (Receipt_parse (body spec_codec sample_dlr)) = Some (Some (Some ''7'', None))"
    by code_simp
  have tlv: "get_message_state spec_codec (p_tlvs sample_dlr) = Some 2"
    "get_receipted_message_id spec_codec (p_tlvs sample_dlr) = None"
    by code_simp+
  have name: "message_state_name 2 = Some ''DELIVRD''" by (simp add: message_state_name_def)
  obtain rc where rc: "Receipt_parse (body spec_codec sample_dlr) = Some (Some rc)"
    "r_id rc = Some ''7''" "r_stat rc = None"
    using parse by auto
  from receipt_text_wins[of spec_codec sample_dlr, where ?'o = unit] dlr rc show ?thesis
    by (auto simp: tlv name)
qed

text \<open>
  \<open>pdu.reply(\<dots>)\<close> succeeds exactly for a known status name and convertible optional
  parameters that are empty off the \<open>data_sm\<close> path, and then carries them unchanged: a
  script can never hand over parameters for a response that has no place for them.
\<close>

theorem reply_accepts_tlvs_only_on_data_sm:
  "reply C p st mid kw = Inr r \<longleftrightarrow>
    (\<exists>cs ts. parse_smpp_status st = Some cs \<and> tlvs_from_py C kw = Inr ts
      \<and> (p_command p = ''data_sm'' \<or> ts = [])
      \<and> r = \<lparr>rp_command_status = cs, rp_message_id = mid, rp_message_state = None,
              rp_final_date = [], rp_error_code = 0, rp_tlvs = ts\<rparr>)"
  by (auto simp: reply_def parse_status_def result_iffs)

end
