(* ===== verification/Smpp_Outcome.thy ===== *)
theory Smpp_Outcome
  imports Smpp_Pdu
begin

text \<open>
  What came back for a request the addon originated (\<open>src/src/outcome.rs\<close>): a response
  PDU, or the reason there was none. Durations are nanoseconds.
\<close>

section \<open>Responses\<close>

text \<open>
  The response PDUs with the fields the sources read: the raw command status first, then
  the message id, where there is one.
\<close>

record query_sm_resp =
  qp_command_status :: u32
  qp_message_id :: string
  qp_final_date :: string
  qp_message_state :: u8
  qp_error_code :: u8

datatype response =
    Submit_sm_resp u32 "string option"
  | Submit_sm_multi_resp u32 "string option"
  | Query_sm_resp query_sm_resp
  | Deliver_sm_resp u32
  | Data_sm_resp u32
  | Cancel_sm_resp u32
  | Replace_sm_resp u32

primrec Reply_status :: "response \<Rightarrow> u32" where
  "Reply_status (Submit_sm_resp s i) = s"
| "Reply_status (Submit_sm_multi_resp s i) = s"
| "Reply_status (Query_sm_resp q) = qp_command_status q"
| "Reply_status (Deliver_sm_resp s) = s"
| "Reply_status (Data_sm_resp s) = s"
| "Reply_status (Cancel_sm_resp s) = s"
| "Reply_status (Replace_sm_resp s) = s"

primrec Reply_message_id :: "response \<Rightarrow> string" where
  "Reply_message_id (Submit_sm_resp s i) = unwrap_or [] i"
| "Reply_message_id (Submit_sm_multi_resp s i) = unwrap_or [] i"
| "Reply_message_id (Query_sm_resp q) = qp_message_id q"
| "Reply_message_id (Deliver_sm_resp s) = []"
| "Reply_message_id (Data_sm_resp s) = []"
| "Reply_message_id (Cancel_sm_resp s) = []"
| "Reply_message_id (Replace_sm_resp s) = []"

section \<open>Failures\<close>

datatype SendFailure = Nack SmppError | Timeout nat | Closed | Unanswered

primrec reason :: "SendFailure \<Rightarrow> string" where
  "reason (Nack s) = ''nack''"
| "reason (Timeout t) = ''timeout''"
| "reason Closed = ''closed''"
| "reason Unanswered = ''unanswered''"

definition as_millis :: "nat \<Rightarrow> nat" where
  "as_millis ns = ns div 1000000"

primrec describe :: "SendFailure \<Rightarrow> string" where
  "describe (Nack s) = ''peer answered generic_nack '' @ status_debug s
     @ '' (0x'' @ hex_upper 8 (unat (status_code s)) @ '')''"
| "describe (Timeout t) = ''no response within '' @ dec_digits (as_millis t) @ '' ms''"
| "describe Closed = ''session closed before a response arrived''"
| "describe Unanswered = ''failed without a response (the session reported ''
     @ ''ESME_RSYSERR: a generic_nack carrying it, a response of another type, ''
     @ ''or a failed write)''"

definition into_pyerr :: "SendFailure \<Rightarrow> string \<Rightarrow> string \<Rightarrow> py_error" where
  "into_pyerr f command target = SmppSendError
     \<lparr>se_message = target @ '' '' @ command @ '': '' @ describe f,
      se_reason = reason f,
      se_command = command,
      se_status = (case f of Nack s \<Rightarrow> Some (status_debug s, status_code s) | _ \<Rightarrow> None)\<rparr>"

text \<open>The attributes of the exception instance Python raises.\<close>

definition SendErrorValue_instance :: "SendErrorValue \<Rightarrow> (string \<times> unit pyval) list" where
  "SendErrorValue_instance v =
     [(''reason'', PyStr (se_reason v)), (''command'', PyStr (se_command v))]
     @ (case se_status v of
          Some (name, code) \<Rightarrow>
            [(''command_status'', PyStr name), (''command_status_code'', PyInt (uint code))]
        | None \<Rightarrow> [(''command_status'', PyNone), (''command_status_code'', PyNone)])"

text \<open>
  A Python call of \<open>instance\<close> may raise (\<open>Some\<close> of what); the failure is then raised with its
  message alone rather than not at all.
\<close>

datatype raised_value = Raised_instance "(string \<times> unit pyval) list" | Raised_message string

definition SendErrorValue_into_pyobject :: "py_error option \<Rightarrow> SendErrorValue \<Rightarrow> raised_value" where
  "SendErrorValue_into_pyobject error v =
     (case error of
        None \<Rightarrow> Raised_instance (SendErrorValue_instance v)
      | Some e \<Rightarrow> Raised_message (se_message v))"

definition classify :: "SmppError \<Rightarrow> nat \<Rightarrow> nat \<Rightarrow> bool \<Rightarrow> SendFailure" where
  "classify error waited response_timer session_gone =
     (if error \<noteq> ESME_RSYSERR then Nack error
      else if response_timer \<le> waited then Timeout response_timer
      else if session_gone then Closed
      else Unanswered)"

text \<open>The send call's result, the time it took, and whether the session is gone by then.\<close>

definition settle :: "(SmppError, 'r) result \<Rightarrow> nat \<Rightarrow> nat \<Rightarrow> bool \<Rightarrow> (SendFailure, 'r) result" where
  "settle send waited response_timer session_gone =
     (case send of
        Inr response \<Rightarrow> Inr response
      | Inl error \<Rightarrow> Inl (classify error waited response_timer session_gone))"

lemma settle_simps [simp]:
  "settle (Inr r) waited timer gone = Inr r"
  "settle (Inl e) waited timer gone = Inl (classify e waited timer gone)"
  by (simp_all add: settle_def)

end
