(* ===== verification/Smpp_Dispatch.thy ===== *)
theory Smpp_Dispatch
  imports Smpp_Pdu
begin

text \<open>
  Handing an event to the script (\<open>src/src/dispatch.rs\<close>). The script's callables, the
  asyncio pool and siphon's Python executor are not part of the repository: they are the
  fields of the record \<open>script_env\<close>. An error is the text it was rendered to.
\<close>

section \<open>The script side\<close>

datatype 'c py_object = PduReplyObj PduReply | BindResultObj BindResult | OtherObj 'c

type_synonym 'c script_value = "'c py_object pyval"

datatype handler_args =
    PduArgs Pdu Session | AlertArgs AlertNotification Session | BindArgs Bind | SessionArgs Session

record 'c RegisteredHandler =
  h_callable :: "handler_args \<Rightarrow> (string, 'c script_value) result"
  h_is_async :: bool
  h_key :: "string option"

text \<open>What the \<open>_handler\<close> entry of a registration's options may be.\<close>

datatype 'c handler_option = NoOptions | NoEntry | OtherEntry | HandlerEntry "'c RegisteredHandler"

text \<open>
  How a coroutine on the asyncio pool ends, as the wrapper \<open>await_handler\<close> sees it: it
  returns a value, it raises, the wrapper's timeout cancels it, or the loop goes away or
  stands still before the wrapper gets to report.
\<close>

datatype 'c awaited = Returned "'c script_value" | Raised string | Expired string | Dropped | Stalled

text \<open>What a shed or panicked executor job left behind: a message, or a payload of another type.\<close>

datatype job_failure = Panic_text string | Panic_other

record 'c script_env =
  handlers_for :: "string \<Rightarrow> 'c handler_option list"
  pool_timeout :: "nat option"
  pool_submit :: "'c script_value \<Rightarrow> string option"
  pool_outcome :: "'c script_value \<Rightarrow> 'c awaited"
  exec_shed :: "nat \<Rightarrow> job_failure option"

definition PDU_KIND :: string where "PDU_KIND = ''smpp.on_pdu''"
definition BIND_KIND :: string where "BIND_KIND = ''smpp.on_bind''"
definition SESSION_KIND :: string where "SESSION_KIND = ''smpp.on_session''"

text \<open>Seconds, in nanoseconds.\<close>

definition from_secs :: "nat \<Rightarrow> nat" where
  "from_secs s = s * 1000000000"

definition SETTLE_BACKSTOP :: nat where
  "SETTLE_BACKSTOP = from_secs 5"

section \<open>Handlers\<close>

primrec registered :: "'c handler_option \<Rightarrow> 'c RegisteredHandler option" where
  "registered NoOptions = None"
| "registered NoEntry = None"
| "registered OtherEntry = None"
| "registered (HandlerEntry h) = Some h"

definition handlers :: "'c script_env \<Rightarrow> string \<Rightarrow> 'c RegisteredHandler list" where
  "handlers env kind = List.map_filter registered (handlers_for env kind)"

definition first_matching :: "'c script_env \<Rightarrow> string \<Rightarrow> string option \<Rightarrow> 'c RegisteredHandler option" where
  "first_matching env kind key = find (\<lambda>h. key = None \<or> h_key h = key) (handlers env kind)"

section \<open>Running a handler\<close>

text \<open>
  \<open>Completion\<close> reports a coroutine's outcome at most once: the first \<open>done\<close> or \<open>fail\<close>
  takes the callback, later ones find it gone.
\<close>

datatype 't completion = Unfinished | Finished "(string, 't) result"

definition Completion_done :: "('v \<Rightarrow> 't) \<Rightarrow> 'v \<Rightarrow> 't completion \<Rightarrow> 't completion" where
  "Completion_done convert v c = (case c of Unfinished \<Rightarrow> Finished (Inr (convert v)) | _ \<Rightarrow> c)"

definition Completion_fail :: "string \<Rightarrow> 't completion \<Rightarrow> 't completion" where
  "Completion_fail error c = (case c of Unfinished \<Rightarrow> Finished (Inl error) | _ \<Rightarrow> c)"

text \<open>The wrapper around the coroutine: one report, whatever happens on a turning loop.\<close>

definition await_handler :: "('c script_value \<Rightarrow> 't) \<Rightarrow> 'c awaited \<Rightarrow> 't completion \<Rightarrow> 't completion" where
  "await_handler convert outcome c =
     (case outcome of
        Returned v \<Rightarrow> Completion_done convert v c
      | Raised e \<Rightarrow> Completion_fail e c
      | Expired e \<Rightarrow> Completion_fail e c
      | Dropped \<Rightarrow> c
      | Stalled \<Rightarrow> c)"

text \<open>What the receiver of the one-shot channel sees in the end.\<close>

datatype 't received = Got "(string, 't) result" | SenderDropped | NothingYet

datatype 't Started = Done "(string, 't) result" | Pending "'t received" nat

definition received_of :: "('c script_value \<Rightarrow> 't) \<Rightarrow> 'c awaited \<Rightarrow> 't received" where
  "received_of convert outcome =
     (case await_handler convert outcome Unfinished of
        Finished r \<Rightarrow> Got r
      | Unfinished \<Rightarrow> (case outcome of Dropped \<Rightarrow> SenderDropped | _ \<Rightarrow> NothingYet))"

definition submit_coroutine ::
  "'c script_env \<Rightarrow> 'c script_value \<Rightarrow> ('c script_value \<Rightarrow> 't) \<Rightarrow> (string, 't Started) result" where
  "submit_coroutine env coroutine convert =
     rbind (ok_or (pool_timeout env)
       ''RuntimeError: async handler with no asyncio pool installed; siphon installs one at startup'') (\<lambda>timeout.
     case pool_submit env coroutine of
       Some error \<Rightarrow> Inl error
     | None \<Rightarrow> Inr (Pending (received_of convert (pool_outcome env coroutine)) timeout))"

definition invoke ::
  "'c script_env \<Rightarrow> 'c RegisteredHandler \<Rightarrow> handler_args \<Rightarrow> ('c script_value \<Rightarrow> 't) \<Rightarrow> 't Started" where
  "invoke env handler args convert =
     (case h_callable handler args of
        Inl error \<Rightarrow> Done (Inl error)
      | Inr returned \<Rightarrow>
          if \<not> h_is_async handler then Done (Inr (convert returned))
          else case submit_coroutine env returned convert of
                 Inr started \<Rightarrow> started
               | Inl error \<Rightarrow> Done (Inl error))"

definition Started_settle :: "'t Started \<Rightarrow> (string, 't) result" where
  "Started_settle started =
     (case started of
        Done result \<Rightarrow> result
      | Pending receiver timeout \<Rightarrow>
          (case receiver of
             Got result \<Rightarrow> result
           | SenderDropped \<Rightarrow> Inl ''the asyncio loop dropped the handler before it settled''
           | NothingYet \<Rightarrow> Inl (''async handler did not settle within ''
               @ dec_digits ((timeout + SETTLE_BACKSTOP) div 1000000000)
               @ ''s; its asyncio loop is not turning'')))"

primrec from_job_failure :: "job_failure \<Rightarrow> string" where
  "from_job_failure (Panic_text s) = s"
| "from_job_failure Panic_other = ''script handler job panicked''"

text \<open>
  The \<open>k\<close>-th executor job of an event: shed or panicked jobs come back as an error. A job
  that panics midway counts as one that called no handler.
\<close>

definition on_executor :: "'c script_env \<Rightarrow> nat \<Rightarrow> 'j \<Rightarrow> (string, 'j) result" where
  "on_executor env k job = (case exec_shed env k of Some failure \<Rightarrow> Inl (from_job_failure failure) | None \<Rightarrow> Inr job)"

section \<open>PDUs\<close>

definition pdu_reply :: "'c script_value \<Rightarrow> PduReply" where
  "pdu_reply v =
     (case v of PyNone \<Rightarrow> default_ok | PyObject _ _ (PduReplyObj r) \<Rightarrow> r | _ \<Rightarrow> default_ok)"

definition dispatch_on_pdu ::
  "'c script_env \<Rightarrow> string \<Rightarrow> Pdu \<Rightarrow> Session \<Rightarrow> (string, PduReply) result option" where
  "dispatch_on_pdu env command p session =
     (let started = on_executor env 0
        (map_option (\<lambda>h. invoke env h (PduArgs p session) pdu_reply)
          (first_matching env PDU_KIND (Some command)))
      in case started of
           Inl error \<Rightarrow> Some (Inl error)
         | Inr None \<Rightarrow> None
         | Inr (Some s) \<Rightarrow> Some (Started_settle s))"

definition dispatch_alert :: "'c script_env \<Rightarrow> AlertNotification \<Rightarrow> Session \<Rightarrow> (string, unit) result" where
  "dispatch_alert env alert session =
     rbind (on_executor env 0
        (map_option (\<lambda>h. invoke env h (AlertArgs alert session) (\<lambda>_. ()))
          (first_matching env PDU_KIND (Some ''alert_notification'')))) (\<lambda>started.
     case started of None \<Rightarrow> Inr () | Some s \<Rightarrow> Started_settle s)"

section \<open>Binds\<close>

record BindOutcome =
  bo_accept :: bool
  bo_status :: SmppError
  bo_reason :: string

definition BindOutcome_reject :: "string \<Rightarrow> BindOutcome" where
  "BindOutcome_reject reason = \<lparr>bo_accept = False, bo_status = ESME_RBINDFAIL, bo_reason = reason\<rparr>"

fun is_truthy :: "'o pyval \<Rightarrow> bool option" where
  "is_truthy PyNone = Some False"
| "is_truthy (PyBool b) = Some b"
| "is_truthy (PyInt i) = Some (i \<noteq> 0)"
| "is_truthy (PyStr s) = Some (s \<noteq> [])"
| "is_truthy PySurrogates = Some True"
| "is_truthy (PyBytes b) = Some (b \<noteq> [])"
| "is_truthy (PyByteArray b) = Some (b \<noteq> [])"
| "is_truthy (PyObject c t x) = t"

definition bind_outcome :: "'c script_value \<Rightarrow> BindOutcome" where
  "bind_outcome v =
     (case v of
        PyNone \<Rightarrow> BindOutcome_reject ''handler returned None''
      | PyObject _ _ (BindResultObj r) \<Rightarrow>
          \<lparr>bo_accept = br_accept r, bo_status = br_status r, bo_reason = br_reason r\<rparr>
      | _ \<Rightarrow>
          (if is_truthy v = Some True
           then \<lparr>bo_accept = True, bo_status = ESME_ROK, bo_reason = []\<rparr>
           else BindOutcome_reject ''handler returned a non-truthy value''))"

definition dispatch_bind :: "'c script_env \<Rightarrow> Bind \<Rightarrow> BindOutcome" where
  "dispatch_bind env bind =
     (let started = on_executor env 0
        (map_option (\<lambda>h. invoke env h (BindArgs bind) bind_outcome) (first_matching env BIND_KIND None))
      in case started of
           Inl error \<Rightarrow> BindOutcome_reject (''@smpp.on_bind did not run: '' @ error)
         | Inr None \<Rightarrow> BindOutcome_reject ''no @smpp.on_bind handler registered''
         | Inr (Some s) \<Rightarrow>
             (case Started_settle s of
                Inr outcome \<Rightarrow> outcome
              | Inl error \<Rightarrow> BindOutcome_reject (''@smpp.on_bind raised: '' @ error)))"

section \<open>Session events\<close>

text \<open>
  What an observer sees of a run of session handlers: the handler (by its position) is
  called, its coroutine settles, an error is logged.
\<close>

datatype session_event = Called nat | Settled nat | Logged string

datatype 'c SessionStep =
    SessionFinished
  | SessionAwaiting nat "unit Started" "(nat \<times> 'c RegisteredHandler) list"

text \<open>One executor job: call handlers in order until a coroutine has to be awaited.\<close>

fun run_session ::
  "'c script_env \<Rightarrow> Session \<Rightarrow> (nat \<times> 'c RegisteredHandler) list \<Rightarrow> session_event list \<times> 'c SessionStep" where
  "run_session env s [] = ([], SessionFinished)"
| "run_session env s ((i, h) # rest) =
     (case invoke env h (SessionArgs s) (\<lambda>_. ()) of
        Done (Inr _) \<Rightarrow> map_prod ((@) [Called i]) id (run_session env s rest)
      | Done (Inl error) \<Rightarrow> map_prod ((@) [Called i, Logged error]) id (run_session env s rest)
      | Pending r t \<Rightarrow> ([Called i], SessionAwaiting i (Pending r t) rest))"

lemma run_session_shorter:
  "run_session env s hs = (tr, SessionAwaiting i st rest) \<Longrightarrow> length rest < length hs"
proof (induction env s hs arbitrary: tr rule: run_session.induct)
  case (2 env s i h hs)
  then show ?case
    by (cases "run_session env s hs") (force split: Started.splits sum.splits)
qed simp

function session_jobs ::
  "'c script_env \<Rightarrow> nat \<Rightarrow> Session \<Rightarrow> (nat \<times> 'c RegisteredHandler) list \<Rightarrow> session_event list" where
  "session_jobs env k s remaining =
     (case on_executor env k (run_session env s remaining) of
        Inl error \<Rightarrow> [Logged error]
      | Inr (tr, SessionFinished) \<Rightarrow> tr
      | Inr (tr, SessionAwaiting i pending rest) \<Rightarrow>
          tr @ Settled i # (case Started_settle pending of Inl error \<Rightarrow> [Logged error] | Inr _ \<Rightarrow> [])
            @ session_jobs env (k + 1) s rest)"
  by pat_completeness auto
termination
  by (relation "measure (\<lambda>(env, k, s, hs). length hs)")
    (auto simp: on_executor_def dest!: run_session_shorter split: option.splits)

declare session_jobs.simps [simp del]

definition dispatch_session :: "'c script_env \<Rightarrow> string \<Rightarrow> Session \<Rightarrow> session_event list" where
  "dispatch_session env event session =
     session_jobs env 0 session
       (enumerate 0 (filter (\<lambda>h. h_key h = Some event) (handlers env SESSION_KIND)))"

section \<open>Lemmas\<close>

text \<open>The value a handler settles to, before any conversion.\<close>

definition handler_value :: "'c script_env \<Rightarrow> 'c RegisteredHandler \<Rightarrow> handler_args \<Rightarrow> (string, 'c script_value) result" where
  "handler_value env h args = Started_settle (invoke env h args id)"

lemma settle_invoke:
  "Started_settle (invoke env h args f) =
     (case handler_value env h args of Inl e \<Rightarrow> Inl e | Inr v \<Rightarrow> Inr (f v))"
  by (auto simp: handler_value_def Started_settle_def invoke_def submit_coroutine_def received_of_def
      await_handler_def Completion_done_def Completion_fail_def rbind_def ok_or_def
      split: sum.splits option.splits awaited.splits)

text \<open>The reference: what each handler contributes, in isolation.\<close>

definition log_failure :: "(string, unit) result \<Rightarrow> session_event list" where
  "log_failure r = (case r of Inl error \<Rightarrow> [Logged error] | Inr _ \<Rightarrow> [])"

definition handler_trace :: "'c script_env \<Rightarrow> Session \<Rightarrow> nat \<times> 'c RegisteredHandler \<Rightarrow> session_event list" where
  "handler_trace env s ih =
     (case ih of (i, h) \<Rightarrow>
        Called i # (case invoke env h (SessionArgs s) (\<lambda>_. ()) of
          Done r \<Rightarrow> log_failure r
        | Pending r t \<Rightarrow> Settled i # log_failure (Started_settle (Pending r t))))"

lemma run_session_Finished:
  "run_session env s hs = (tr, SessionFinished) \<Longrightarrow> concat (map (handler_trace env s) hs) = tr"
proof (induction env s hs arbitrary: tr rule: run_session.induct)
  case (2 env s i h hs)
  then show ?case
    by (cases "run_session env s hs")
      (auto simp: handler_trace_def log_failure_def split: Started.splits sum.splits)
qed simp

lemma run_session_Awaiting:
  "run_session env s hs = (tr, SessionAwaiting i st rest) \<Longrightarrow>
   concat (map (handler_trace env s) hs) =
     tr @ Settled i # log_failure (Started_settle st) @ concat (map (handler_trace env s) rest)"
proof (induction env s hs arbitrary: tr rule: run_session.induct)
  case (2 env s i h hs)
  then show ?case
    by (cases "run_session env s hs")
      (auto simp: handler_trace_def log_failure_def split: Started.splits sum.splits)
qed simp

lemma session_jobs_all:
  "(\<And>k. exec_shed env k = None) \<Longrightarrow>
   session_jobs env k s hs = concat (map (handler_trace env s) hs)"
proof (induction env k s hs rule: session_jobs.induct)
  case (1 env k s hs)
  obtain tr step where run: "run_session env s hs = (tr, step)" by fastforce
  have job: "on_executor env k (run_session env s hs) = Inr (tr, step)"
    using "1.prems" run by (simp add: on_executor_def)
  show ?case
  proof (cases step)
    case SessionFinished
    with run job show ?thesis
      by (simp add: session_jobs.simps[of env k s hs] run_session_Finished)
  next
    case (SessionAwaiting i st rest)
    have "session_jobs env (k + 1) s rest = concat (map (handler_trace env s) rest)"
      using "1.IH"[of "(tr, step)" tr step i st rest] "1.prems" SessionAwaiting run job by simp
    with run job SessionAwaiting show ?thesis
      by (simp add: session_jobs.simps[of env k s hs] run_session_Awaiting log_failure_def)
  qed
qed

section \<open>Samples\<close>

text \<open>A script: one handler that raises, one coroutine, one plain handler.\<close>

definition sample_session :: Session where
  "sample_session = \<lparr>s_kind = EsmeServer, s_session_id = ''s1'', s_system_id = ''esme'', s_client_addr = ''::1''\<rparr>"

definition sample_env :: "unit script_env" where
  "sample_env = \<lparr>
     handlers_for = (\<lambda>kind. if kind = SESSION_KIND then
        [HandlerEntry \<lparr>h_callable = (\<lambda>_. Inl ''boom''), h_is_async = False, h_key = Some ''bound''\<rparr>,
         OtherEntry,
         HandlerEntry \<lparr>h_callable = (\<lambda>_. Inr (PyInt 7)), h_is_async = True, h_key = Some ''bound''\<rparr>,
         HandlerEntry \<lparr>h_callable = (\<lambda>_. Inr PyNone), h_is_async = False, h_key = Some ''unbound''\<rparr>,
         HandlerEntry \<lparr>h_callable = (\<lambda>_. Inr PyNone), h_is_async = False, h_key = Some ''bound''\<rparr>]
        else []),
     pool_timeout = Some 10000000000, pool_submit = (\<lambda>_. None), pool_outcome = (\<lambda>_. Expired ''late''),
     exec_shed = (\<lambda>_. None)\<rparr>"

end
