(* ===== verification/Smpp_Metrics.thy ===== *)
theory Smpp_Metrics
  imports Smpp_Prelude
begin

text \<open>
  The metrics helpers (\<open>src/src/metrics.rs\<close>). The host's metrics store is not part of the
  repository: the model keeps the calls made to it, in order, and has none to keep when the
  host has not initialised its engine. Floating-point values are rationals.
\<close>

section \<open>The store\<close>

type_synonym labels = "(string \<times> string) list"

datatype metric_call =
    Register_gauge string "string list"
  | Register_counter string "string list"
  | Register_histogram string "string list" "rat list"
  | Counter_inc string labels
  | Histogram_observe string labels rat
  | Gauge_set string labels rat

text \<open>\<open>custom_metrics()\<close>: \<open>None\<close> when the host engine is absent.\<close>

type_synonym metrics = "metric_call list option"

definition emit :: "metric_call \<Rightarrow> metrics \<Rightarrow> metrics" where
  "emit c m = map_option (\<lambda>cs. cs @ [c]) m"

definition metrics_enabled :: "metrics \<Rightarrow> bool" where
  "metrics_enabled m \<longleftrightarrow> m \<noteq> None"

section \<open>Names\<close>

definition BINDS :: string where "BINDS = ''siphon_smpp_binds''"
definition PDUS :: string where "PDUS = ''siphon_smpp_pdus_total''"
definition THROTTLED :: string where "THROTTLED = ''siphon_smpp_throttled_total''"
definition RECONNECTS :: string where "RECONNECTS = ''siphon_smpp_bind_reconnects_total''"
definition DISPATCH_ERRORS :: string where "DISPATCH_ERRORS = ''siphon_smpp_dispatch_errors_total''"
definition DISPATCH_DURATION :: string where
  "DISPATCH_DURATION = ''siphon_smpp_dispatch_duration_seconds''"
definition BIND_REQUESTS :: string where "BIND_REQUESTS = ''siphon_smpp_bind_requests_total''"
definition CONNECT_FAILURES :: string where
  "CONNECT_FAILURES = ''siphon_smpp_bind_connect_failures_total''"
definition INBOUND :: string where "INBOUND = ''inbound''"
definition EGRESS :: string where "EGRESS = ''egress''"
definition ACCEPTED :: string where "ACCEPTED = ''accepted''"
definition REJECTED :: string where "REJECTED = ''rejected''"
definition BOUND :: string where "BOUND = ''bound''"

definition DURATION_BUCKETS :: "rat list" where
  "DURATION_BUCKETS = map (\<lambda>k. of_nat k / 1000) [1, 5, 10, 25, 50, 100, 250, 500, 1000, 2500]"

lemmas series_names = BINDS_def PDUS_def THROTTLED_def RECONNECTS_def DISPATCH_ERRORS_def
  DISPATCH_DURATION_def BIND_REQUESTS_def CONNECT_FAILURES_def

section \<open>Operations\<close>

definition register_all :: "metrics \<Rightarrow> metrics" where
  "register_all m =
     emit (Register_counter CONNECT_FAILURES [''bind''])
     (emit (Register_counter BIND_REQUESTS [''result''])
     (emit (Register_histogram DISPATCH_DURATION [''command''] DURATION_BUCKETS)
     (emit (Register_counter DISPATCH_ERRORS [''command''])
     (emit (Register_counter RECONNECTS [''bind''])
     (emit (Register_counter THROTTLED [''direction''])
     (emit (Register_counter PDUS [''direction'', ''command'', ''result''])
     (emit (Register_gauge BINDS [''direction'', ''state'']) m)))))))"

definition record_pdu :: "string \<Rightarrow> string \<Rightarrow> string \<Rightarrow> metrics \<Rightarrow> metrics" where
  "record_pdu direction command result m =
     emit (Counter_inc PDUS [(''direction'', direction), (''command'', command), (''result'', result)]) m"

definition record_throttled :: "string \<Rightarrow> metrics \<Rightarrow> metrics" where
  "record_throttled direction m = emit (Counter_inc THROTTLED [(''direction'', direction)]) m"

definition record_bind_reconnect :: "string \<Rightarrow> metrics \<Rightarrow> metrics" where
  "record_bind_reconnect bind m = emit (Counter_inc RECONNECTS [(''bind'', bind)]) m"

definition record_bind_connect_failure :: "string \<Rightarrow> metrics \<Rightarrow> metrics" where
  "record_bind_connect_failure bind m = emit (Counter_inc CONNECT_FAILURES [(''bind'', bind)]) m"

definition record_dispatch_error :: "string \<Rightarrow> metrics \<Rightarrow> metrics" where
  "record_dispatch_error command m = emit (Counter_inc DISPATCH_ERRORS [(''command'', command)]) m"

definition observe_dispatch :: "string \<Rightarrow> rat \<Rightarrow> metrics \<Rightarrow> metrics" where
  "observe_dispatch command seconds m =
     emit (Histogram_observe DISPATCH_DURATION [(''command'', command)] seconds) m"

definition record_bind_request :: "string \<Rightarrow> metrics \<Rightarrow> metrics" where
  "record_bind_request result m = emit (Counter_inc BIND_REQUESTS [(''result'', result)]) m"

text \<open>The lengths of the two session lists, and the gauge set from them.\<close>

definition sample_binds :: "'b list \<Rightarrow> 'e list \<Rightarrow> u64 \<times> u64" where
  "sample_binds binds esmes = (of_nat (length binds), of_nat (length esmes))"

definition set_binds :: "u64 \<Rightarrow> u64 \<Rightarrow> metrics \<Rightarrow> metrics" where
  "set_binds egress inbound m =
     emit (Gauge_set BINDS [(''direction'', INBOUND), (''state'', BOUND)] (of_nat (unat inbound)))
     (emit (Gauge_set BINDS [(''direction'', EGRESS), (''state'', BOUND)] (of_nat (unat egress))) m)"

text \<open>One tick of the sampler task.\<close>

definition sampler_tick :: "'b list \<Rightarrow> 'e list \<Rightarrow> metrics \<Rightarrow> metrics" where
  "sampler_tick binds esmes m =
     (let (egress, inbound) = sample_binds binds esmes in set_binds egress inbound m)"

section \<open>Reading the series\<close>

text \<open>The value of a counter: its increments so far.\<close>

definition counter :: "string \<Rightarrow> labels \<Rightarrow> metrics \<Rightarrow> nat" where
  "counter name ls m = (case m of None \<Rightarrow> 0 | Some cs \<Rightarrow> count_list cs (Counter_inc name ls))"

definition pdu_count :: "string \<Rightarrow> string \<Rightarrow> string \<Rightarrow> metrics \<Rightarrow> nat" where
  "pdu_count direction command result m =
     counter PDUS [(''direction'', direction), (''command'', command), (''result'', result)] m"

definition throttled_count :: "string \<Rightarrow> metrics \<Rightarrow> nat" where
  "throttled_count direction m = counter THROTTLED [(''direction'', direction)] m"

definition bind_request_count :: "string \<Rightarrow> metrics \<Rightarrow> nat" where
  "bind_request_count result m = counter BIND_REQUESTS [(''result'', result)] m"

definition reconnect_count :: "string \<Rightarrow> metrics \<Rightarrow> nat" where
  "reconnect_count bind m = counter RECONNECTS [(''bind'', bind)] m"

definition dispatch_error_count :: "string \<Rightarrow> metrics \<Rightarrow> nat" where
  "dispatch_error_count command m = counter DISPATCH_ERRORS [(''command'', command)] m"

lemma counter_emit [simp]:
  "counter name ls (emit c m) =
     counter name ls m + (if c = Counter_inc name ls \<and> metrics_enabled m then 1 else 0)"
  by (cases m) (auto simp: counter_def emit_def metrics_enabled_def)

lemma metrics_enabled_emit [simp]: "metrics_enabled (emit c m) = metrics_enabled m"
  by (simp add: metrics_enabled_def emit_def)

lemmas record_defs = record_pdu_def record_throttled_def record_bind_reconnect_def
  record_bind_connect_failure_def record_dispatch_error_def observe_dispatch_def
  record_bind_request_def

lemmas count_defs = pdu_count_def throttled_count_def bind_request_count_def reconnect_count_def
  dispatch_error_count_def

lemma accepted_ne_rejected [simp]: "ACCEPTED \<noteq> REJECTED" "REJECTED \<noteq> ACCEPTED"
  by (simp_all add: ACCEPTED_def REJECTED_def)

lemma metrics_enabled_record [simp]:
  "metrics_enabled (record_pdu d c r m) = metrics_enabled m"
  "metrics_enabled (record_throttled d m) = metrics_enabled m"
  "metrics_enabled (record_dispatch_error c m) = metrics_enabled m"
  "metrics_enabled (observe_dispatch c s m) = metrics_enabled m"
  "metrics_enabled (record_bind_request r m) = metrics_enabled m"
  by (simp_all add: record_defs)

text \<open>Each helper increments its own series by one when the store is there, and no other.\<close>

lemma pdu_count_record [simp]:
  "pdu_count d c r (record_pdu d' c' r' m) =
     pdu_count d c r m + (if d' = d \<and> c' = c \<and> r' = r \<and> metrics_enabled m then 1 else 0)"
  "pdu_count d c r (record_throttled d' m) = pdu_count d c r m"
  "pdu_count d c r (record_dispatch_error c' m) = pdu_count d c r m"
  "pdu_count d c r (observe_dispatch c' s m) = pdu_count d c r m"
  "pdu_count d c r (record_bind_request r' m) = pdu_count d c r m"
  by (simp_all add: record_defs count_defs series_names)

lemma throttled_count_record [simp]:
  "throttled_count d (record_throttled d' m) =
     throttled_count d m + (if d' = d \<and> metrics_enabled m then 1 else 0)"
  "throttled_count d (record_pdu d' c r m) = throttled_count d m"
  "throttled_count d (record_dispatch_error c' m) = throttled_count d m"
  "throttled_count d (observe_dispatch c' s m) = throttled_count d m"
  by (simp_all add: record_defs count_defs series_names)

lemma dispatch_error_count_record [simp]:
  "dispatch_error_count c (record_dispatch_error c' m) =
     dispatch_error_count c m + (if c' = c \<and> metrics_enabled m then 1 else 0)"
  "dispatch_error_count c (record_pdu d' c'' r m) = dispatch_error_count c m"
  "dispatch_error_count c (record_throttled d m) = dispatch_error_count c m"
  "dispatch_error_count c (observe_dispatch c' s m) = dispatch_error_count c m"
  by (simp_all add: record_defs count_defs series_names)

lemma bind_request_count_record [simp]:
  "bind_request_count r (record_bind_request r' m) =
     bind_request_count r m + (if r' = r \<and> metrics_enabled m then 1 else 0)"
  by (simp add: record_defs count_defs)

end
