(* ===== verification/Smpp_Float.thy ===== *)
theory Smpp_Float
  imports Smpp_Prelude "HOL-Library.Log_Nat"
begin

text \<open>
  The \<open>f64\<close> arithmetic of Rust (binary64 of IEEE 754, round to nearest, ties to even), as far
  as the code uses it: every value is a rational, every operation is exact and then rounded by
  \<open>fl\<close>. The sources compute with finite numbers far below the overflow threshold \<open>2 ^ 1024\<close>, so
  that infinities and NaN do not occur; subnormal numbers are covered. The second part
  holds the conversions of \<open>std::time::Duration\<close> from and to seconds.
\<close>

section \<open>Rounding\<close>

definition round_even :: "rat \<Rightarrow> int" where
  "round_even y =
     (let n = \<lfloor>y\<rfloor>; d = y - of_int n
      in if d < 1 / 2 then n else if 1 / 2 < d then n + 1 else if even n then n else n + 1)"

text \<open>The binary exponent of a positive rational.\<close>

definition ilog2 :: "rat \<Rightarrow> int" where
  "ilog2 x =
     (let (p, q) = quotient_of x; k = bitlen p - bitlen q
      in if 2 powi k \<le> x then k else k - 1)"

text \<open>The weight of the last of 53 significant bits, never below that of subnormal numbers.\<close>

definition f64_ulp :: "rat \<Rightarrow> rat" where
  "f64_ulp x = 2 powi (max (ilog2 \<bar>x\<bar> - 52) (- 1074))"

definition fl :: "rat \<Rightarrow> rat" where
  "fl x = (if x = 0 then 0 else of_int (round_even (x / f64_ulp x)) * f64_ulp x)"

definition is_f64 :: "rat \<Rightarrow> bool" where
  "is_f64 x \<longleftrightarrow> fl x = x"

subsection \<open>Rounding to an integer\<close>

lemma round_even_error: "\<bar>of_int (round_even y) - y\<bar> \<le> 1 / 2"
  using of_int_floor_le[of y] floor_correct[of y]
  by (auto simp: round_even_def Let_def)

lemma round_even_of_int [simp]: "round_even (of_int n) = n"
  by (simp add: round_even_def)

lemma round_even_numeral [simp]: "round_even (numeral k) = numeral k" "round_even 0 = 0" "round_even 1 = 1"
  using round_even_of_int[of "numeral k"] round_even_of_int[of 0] round_even_of_int[of 1] by simp_all

lemma round_even_mono:
  assumes "x \<le> y"
  shows "round_even x \<le> round_even y"
proof (cases "\<lfloor>x\<rfloor> = \<lfloor>y\<rfloor>")
  case True
  then show ?thesis using assms by (auto simp: round_even_def Let_def)
next
  case False
  then have "\<lfloor>x\<rfloor> + 1 \<le> \<lfloor>y\<rfloor>" using floor_mono[OF assms] by simp
  then show ?thesis by (auto simp: round_even_def Let_def)
qed

subsection \<open>The exponent\<close>

lemma two_powi_mono [simp]: "(2 :: rat) powi m \<le> 2 powi n \<longleftrightarrow> m \<le> n"
proof
  show "(2 :: rat) powi m \<le> 2 powi n \<Longrightarrow> m \<le> n"
    using power_int_strict_increasing[of n m "2 :: rat"] by (cases "m \<le> n") auto
qed (simp add: power_int_increasing)

lemma two_powi_less [simp]: "(2 :: rat) powi m < 2 powi n \<longleftrightarrow> m < n"
  by (simp flip: not_le)

lemma two_powi_eq [simp]: "(2 :: rat) powi m = 2 powi n \<longleftrightarrow> m = n"
  by (simp add: eq_iff)

lemma two_powi_divide: "(2 :: rat) powi m / 2 powi n = 2 powi (m - n)"
  by (simp add: power_int_diff)

lemma two_powi_mult: "(2 :: rat) powi m * 2 powi n = 2 powi (m + n)"
  by (simp add: power_int_add)

lemma bitlen_rat:
  assumes "0 < p"
  shows "2 powi (bitlen p - 1) \<le> rat_of_int p" and "rat_of_int p < 2 powi (bitlen p)"
proof -
  have len: "0 \<le> bitlen p" "0 \<le> bitlen p - 1"
    using bitlen_nonneg[of p] bitlen_eq_zero_iff[of p] assms by linarith+
  have "rat_of_int (2 ^ nat (bitlen p - 1)) \<le> of_int p" "rat_of_int p < of_int (2 ^ nat (bitlen p))"
    using bitlen_bounds[OF assms] by (simp_all only: of_int_le_iff of_int_less_iff)
  then show "2 powi (bitlen p - 1) \<le> rat_of_int p" "rat_of_int p < 2 powi (bitlen p)"
    by (simp_all only: power_int_nonneg_exp[OF len(1)] power_int_nonneg_exp[OF len(2)] of_int_power of_int_numeral)
qed

lemma ilog2_bounds:
  assumes "0 < x"
  shows "2 powi ilog2 x \<le> x \<and> x < 2 powi (ilog2 x + 1)"
proof -
  obtain p q where pq: "quotient_of x = (p, q)" by fastforce
  have x: "x = of_int p / of_int q" and q: "0 < q"
    using quotient_of_div[OF pq] quotient_of_denom_pos[OF pq] by simp_all
  have p: "0 < p" using assms q by (simp add: x zero_less_divide_iff)
  define a b where "a = bitlen p" and "b = bitlen q"
  note bp = bitlen_rat[OF p, folded a_def] and bq = bitlen_rat[OF q, folded b_def]
  have "2 powi (a - 1) / 2 powi b \<le> x"
    unfolding x using bp bq q p by (intro frac_le) auto
  then have lo: "2 powi (a - b - 1) \<le> x"
    by (simp only: two_powi_divide) (simp add: algebra_simps)
  have "x < 2 powi a / 2 powi (b - 1)"
    unfolding x using bp bq q p by (intro frac_less) auto
  then have hi: "x < 2 powi (a - b + 1)"
    by (simp only: two_powi_divide) (simp add: algebra_simps)
  show ?thesis
    using lo hi by (simp add: ilog2_def pq Let_def flip: a_def b_def)
qed

lemma ilog2_unique: "2 powi k \<le> x \<Longrightarrow> x < 2 powi (k + 1) \<Longrightarrow> ilog2 x = k"
proof -
  assume k: "2 powi k \<le> x" "x < 2 powi (k + 1)"
  then have "0 < x" using zero_less_power_int[of "2 :: rat" k] by linarith
  note b = ilog2_bounds[OF this]
  have "(2 :: rat) powi k < 2 powi (ilog2 x + 1)" "(2 :: rat) powi ilog2 x < 2 powi (k + 1)"
    using k b by (meson le_less_trans)+
  then show ?thesis by simp
qed

lemma ilog2_mono: "0 < x \<Longrightarrow> x \<le> y \<Longrightarrow> ilog2 x \<le> ilog2 y"
proof -
  assume xy: "0 < x" "x \<le> y"
  then have "(2 :: rat) powi ilog2 x < 2 powi (ilog2 y + 1)"
    using ilog2_bounds[of x] ilog2_bounds[of y] by linarith
  then show ?thesis by simp
qed

subsection \<open>Rounding to 53 bits\<close>

lemma f64_ulp_pos [simp]: "0 < f64_ulp x"
  by (simp add: f64_ulp_def)

lemma f64_ulp_nonzero [simp]: "f64_ulp x \<noteq> 0"
  by (simp add: f64_ulp_def)

lemma f64_ulp_nonneg [simp]: "0 \<le> f64_ulp x"
  by (simp add: f64_ulp_def)

lemma fl_0 [simp]: "fl 0 = 0"
  by (simp add: fl_def)

lemma fl_nonneg [simp]: "0 \<le> x \<Longrightarrow> 0 \<le> fl x"
  using round_even_mono[of 0 "x / f64_ulp x"] round_even_of_int[of 0] by (auto simp: fl_def)

lemma fl_le_multiple: "0 < x \<Longrightarrow> x \<le> of_int m * f64_ulp x \<Longrightarrow> fl x \<le> of_int m * f64_ulp x"
  using round_even_mono[of "x / f64_ulp x" "of_int m"] by (simp add: fl_def pos_divide_le_eq)

lemma fl_ge_multiple: "0 < x \<Longrightarrow> of_int m * f64_ulp x \<le> x \<Longrightarrow> of_int m * f64_ulp x \<le> fl x"
  using round_even_mono[of "of_int m" "x / f64_ulp x"] by (simp add: fl_def pos_le_divide_eq)

lemma fl_multiple: "x = of_int m * f64_ulp x \<Longrightarrow> fl x = x"
proof -
  assume x: "x = of_int m * f64_ulp x"
  then have "x / f64_ulp x = of_int m" by (simp add: divide_eq_eq)
  then have "x \<noteq> 0 \<Longrightarrow> fl x = of_int m * f64_ulp x" by (simp add: fl_def)
  with x show ?thesis by (cases "x = 0") simp_all
qed

lemma f64_ulp_error: "0 < x \<Longrightarrow> f64_ulp x / 2 \<le> x / 2 ^ 53 + 1 / 2 ^ 1075"
proof -
  assume x: "0 < x"
  have "(2 :: rat) powi (ilog2 x - 52) = 2 powi ilog2 x / 2 ^ 52"
    by (simp add: power_int_diff)
  then have "2 powi (ilog2 x - 52) / 2 \<le> x / 2 ^ 53"
    using ilog2_bounds[OF x] by (simp add: field_simps)
  moreover have "(2 :: rat) powi (- 1074) / 2 = 1 / 2 ^ 1075"
    by (simp only: power_int_minus_divide power_int_numeral divide_divide_eq_left flip: power_Suc2) simp
  moreover have "0 \<le> x / 2 ^ 53" "(0 :: rat) \<le> 1 / 2 ^ 1075" using x by simp_all
  ultimately show ?thesis
    unfolding f64_ulp_def abs_of_pos[OF x] max_def by (simp only: split: if_splits) linarith
qed

theorem fl_error: "0 \<le> x \<Longrightarrow> \<bar>fl x - x\<bar> \<le> x / 2 ^ 53 + 1 / 2 ^ 1075"
proof (cases "x = 0")
  case False
  assume "0 \<le> x"
  with False have x: "0 < x" by simp
  have "fl x - x = (of_int (round_even (x / f64_ulp x)) - x / f64_ulp x) * f64_ulp x"
    using False by (simp add: fl_def left_diff_distrib)
  then have "\<bar>fl x - x\<bar> \<le> 1 / 2 * f64_ulp x"
    using round_even_error[of "x / f64_ulp x"] f64_ulp_pos[of x]
    by (simp only: abs_mult abs_of_pos[OF f64_ulp_pos]) (intro mult_right_mono, simp_all)
  then show ?thesis using f64_ulp_error[OF x] by simp
qed simp

lemma fl_bounds:
  assumes "0 \<le> x"
  shows "x - (x / 2 ^ 53 + 1 / 2 ^ 90) \<le> fl x" and "fl x \<le> x + (x / 2 ^ 53 + 1 / 2 ^ 90)"
proof -
  have "(1 :: rat) / 2 ^ 1075 \<le> 1 / 2 ^ 90" by (intro divide_left_mono power_increasing) simp_all
  then have "\<bar>fl x - x\<bar> \<le> x / 2 ^ 53 + 1 / 2 ^ 90"
    using fl_error[OF assms] by (meson add_left_mono order_trans)
  then show "x - (x / 2 ^ 53 + 1 / 2 ^ 90) \<le> fl x" "fl x \<le> x + (x / 2 ^ 53 + 1 / 2 ^ 90)"
    by (simp_all only: abs_le_iff) linarith+
qed

text \<open>Numbers of 53 significant bits are kept, so that rounding twice is rounding once.\<close>

lemma fl_exact_less:
  assumes "0 \<le> m" "m < 2 ^ 53" "- 1074 \<le> e"
  shows "fl (of_int m * 2 powi e) = of_int m * 2 powi e"
proof (cases "m = 0")
  case False
  define x :: rat where "x = of_int m * 2 powi e"
  have x: "0 < x" using False assms by (simp add: x_def)
  have "rat_of_int m < of_int (2 ^ 53)" using assms(2) by (simp only: of_int_less_iff)
  then have "x < 2 powi 53 * 2 powi e" by (simp add: x_def)
  then have "2 powi ilog2 x < (2 :: rat) powi (53 + e)"
    using ilog2_bounds[OF x] by (simp only: two_powi_mult) linarith
  moreover define a where "a = max (ilog2 x - 52) (- 1074)"
  ultimately have "a \<le> e" using assms(3) by simp
  then obtain k where k: "e = a + int k" using zle_iff_zadd by blast
  have "f64_ulp x = 2 powi a" by (simp add: f64_ulp_def a_def abs_of_pos[OF x])
  then have "x = of_int (m * 2 ^ k) * f64_ulp x" unfolding x_def k by (simp add: power_int_add)
  then have "fl x = x" by (rule fl_multiple)
  then show ?thesis by (simp add: x_def)
qed simp

lemma fl_exact:
  assumes "0 \<le> m" "m \<le> 2 ^ 53" "- 1074 \<le> e"
  shows "fl (of_int m * 2 powi e) = of_int m * 2 powi e"
proof (cases "m = 2 ^ 53")
  case True
  then have "of_int m * 2 powi e = of_int 1 * (2 :: rat) powi (53 + e)"
    by (simp add: power_int_add)
  then show ?thesis using fl_exact_less[of 1 "53 + e"] assms(3) by simp
qed (use assms fl_exact_less in simp)

lemma fl_cases:
  assumes "0 \<le> x"
  obtains m e where "fl x = of_int m * 2 powi e" "0 \<le> m" "m \<le> 2 ^ 53" "- 1074 \<le> e"
proof (cases "x = 0")
  case True
  then show ?thesis using that[of 0 0] by simp
next
  case False
  define a where "a = max (ilog2 x - 52) (- 1074)"
  have x: "0 < x" using False assms by simp
  have ulp: "f64_ulp x = 2 powi a" by (simp add: f64_ulp_def a_def x less_imp_le)
  have "(2 :: rat) powi (ilog2 x + 1) \<le> 2 powi (a + 53)" by (simp add: a_def)
  then have "x \<le> 2 powi (a + 53)" using ilog2_bounds[OF x] by linarith
  then have "x \<le> of_int (2 ^ 53) * f64_ulp x" by (simp add: ulp power_int_add mult.commute)
  then have "x / f64_ulp x \<le> of_int (2 ^ 53)" by (simp only: pos_divide_le_eq[OF f64_ulp_pos])
  then have "round_even (x / f64_ulp x) \<le> 2 ^ 53"
    using round_even_mono[of "x / f64_ulp x" "of_int (2 ^ 53)"] by (simp only: round_even_of_int)
  moreover have "0 \<le> round_even (x / f64_ulp x)"
    using round_even_mono[of 0 "x / f64_ulp x"] round_even_of_int[of 0] x by (simp add: less_imp_le)
  ultimately show ?thesis
    using that[of "round_even (x / f64_ulp x)" a] False by (simp add: fl_def ulp a_def)
qed

lemma fl_idem [simp]: "0 \<le> x \<Longrightarrow> fl (fl x) = fl x"
  using fl_cases[of x] fl_exact by metis

lemma is_f64_fl [simp]: "0 \<le> x \<Longrightarrow> is_f64 (fl x)"
  by (simp add: is_f64_def)

lemma fl_of_int: "0 \<le> m \<Longrightarrow> m \<le> 2 ^ 53 \<Longrightarrow> fl (of_int m) = of_int m"
  using fl_exact[of m 0] by simp

lemma fl_of_nat: "n \<le> 2 ^ 53 \<Longrightarrow> fl (of_nat n) = of_nat n"
  using fl_of_int[of "int n"] by simp

lemma fl_numeral [simp]: "numeral k \<le> (2 ^ 53 :: int) \<Longrightarrow> fl (numeral k) = numeral k"
  using fl_of_int[of "numeral k"] by simp

lemma fl_1 [simp]: "fl 1 = 1"
  using fl_of_int[of 1] by simp

lemma fl_half [simp]: "fl (1 / 2) = 1 / 2"
  using fl_exact[of 1 "- 1"] by (simp add: power_int_minus_divide)

theorem fl_mono:
  assumes "0 \<le> x" "x \<le> y"
  shows "fl x \<le> fl y"
proof (cases "x = 0")
  case False
  with assms have x: "0 < x" and y: "0 < y" by simp_all
  show ?thesis
  proof (cases "f64_ulp x = f64_ulp y")
    case True
    have "round_even (x / f64_ulp y) \<le> round_even (y / f64_ulp y)"
      using assms(2) by (intro round_even_mono divide_right_mono) (simp_all add: less_imp_le)
    then show ?thesis using x y True by (simp add: fl_def mult_right_mono less_imp_le)
  next
    case False
    define a b where "a = max (ilog2 x - 52) (- 1074)" and "b = ilog2 y"
    have ulp: "f64_ulp x = 2 powi a" "f64_ulp y = 2 powi (b - 52)" and ab: "ilog2 x < b" "a < b"
      using False ilog2_mono[OF x assms(2)] by (auto simp: f64_ulp_def a_def b_def x y less_imp_le max_def split: if_splits)
    obtain k where k: "b = a + int k" using ab(2) zle_iff_zadd[of a b] by auto
    have "x \<le> 2 powi b"
      using ilog2_bounds[OF x] ab(1) two_powi_mono[of "ilog2 x + 1" b] by linarith
    then have "fl x \<le> of_int (2 ^ k) * f64_ulp x"
      using x by (intro fl_le_multiple) (simp_all add: ulp k power_int_add mult.commute)
    also have "\<dots> = of_int (2 ^ 52) * f64_ulp y" by (simp add: ulp k power_int_add power_int_diff)
    also have "\<dots> \<le> fl y"
      using y ilog2_bounds[OF y] by (intro fl_ge_multiple) (simp_all add: ulp power_int_diff b_def)
    finally show ?thesis .
  qed
qed (use assms in simp)

text \<open>The rounding evaluates: the \<open>f64\<close> next to one tenth.\<close>

lemma fl_tenth: "fl (1 / 10) = 3602879701896397 / 2 ^ 55"
  by code_simp

text \<open>In the range of normal numbers the error is relative.\<close>

lemma fl_rel:
  assumes "x = 0 \<or> 1 / 2 ^ 100 \<le> x"
  shows "x * (1 - 1 / 2 ^ 53) \<le> fl x" and "fl x \<le> x * (1 + 1 / 2 ^ 53)"
proof -
  have "\<bar>fl x - x\<bar> \<le> x / 2 ^ 53"
  proof (cases "x = 0")
    case False
    with assms have x: "1 / 2 ^ 100 \<le> x" by simp
    then have pos: "0 < x" by (rule less_le_trans[rotated]) simp
    have "(2 :: rat) powi (- 100) < 2 powi (ilog2 x + 1)"
      using ilog2_bounds[OF pos] x by (simp add: power_int_minus_divide)
    then have "- 1074 \<le> ilog2 x - 52" by (simp only: two_powi_less)
    then have ulp: "f64_ulp x = 2 powi ilog2 x / 2 ^ 52"
      using pos by (simp add: f64_ulp_def power_int_diff max_absorb1)
    have "fl x - x = (of_int (round_even (x / f64_ulp x)) - x / f64_ulp x) * f64_ulp x"
      using False by (simp add: fl_def left_diff_distrib)
    then have "\<bar>fl x - x\<bar> \<le> 1 / 2 * f64_ulp x"
      using round_even_error[of "x / f64_ulp x"]
      by (simp only: abs_mult abs_of_pos[OF f64_ulp_pos]) (intro mult_right_mono, simp_all)
    then show ?thesis using ilog2_bounds[OF pos] unfolding ulp by simp
  qed simp
  then show "x * (1 - 1 / 2 ^ 53) \<le> fl x" "fl x \<le> x * (1 + 1 / 2 ^ 53)"
    unfolding abs_le_iff by (simp_all add: field_simps)
qed

section \<open>Durations\<close>

text \<open>
  A \<open>Duration\<close> is its number of nanoseconds. \<open>as_secs_f64\<close> adds the rounded whole seconds and
  the rounded fraction; \<open>from_secs_f64\<close> rounds to the nearest nanosecond, ties to even.
\<close>

definition as_secs :: "nat \<Rightarrow> rat" where
  "as_secs ns = of_nat ns / 1000000000"

definition as_secs_f64 :: "nat \<Rightarrow> rat" where
  "as_secs_f64 ns =
     fl (fl (of_nat (ns div 1000000000)) + fl (of_nat (ns mod 1000000000) / 1000000000))"

definition from_secs_f64 :: "rat \<Rightarrow> nat" where
  "from_secs_f64 s = nat (round_even (s * 1000000000))"

lemma as_secs_nonneg [simp]: "0 \<le> as_secs n"
  by (simp add: as_secs_def)

lemma as_secs_add: "as_secs (m + n) = as_secs m + as_secs n"
  by (simp add: as_secs_def add_divide_distrib)

lemma as_secs_0 [simp]: "as_secs 0 = 0"
  by (simp add: as_secs_def)

lemma as_secs_f64_0 [simp]: "as_secs_f64 0 = 0"
  by (simp add: as_secs_f64_def)

lemma as_secs_split: "as_secs ns = of_nat (ns div 1000000000) + of_nat (ns mod 1000000000) / 1000000000"
proof -
  have "rat_of_nat ns = of_nat (1000000000 * (ns div 1000000000) + ns mod 1000000000)" by simp
  then show ?thesis by (simp only: as_secs_def of_nat_add of_nat_mult) (simp add: field_simps)
qed

lemma nat_fraction_normal: "rat_of_nat n / 1000000000 = 0 \<or> 1 / 2 ^ 100 \<le> rat_of_nat n / 1000000000"
  by (cases n) (simp_all add: field_simps)

lemma of_nat_normal: "rat_of_nat n = 0 \<or> 1 / 2 ^ 100 \<le> rat_of_nat n"
  by (cases n) (simp_all add: field_simps)

lemma as_secs_f64_rel:
  shows "as_secs ns * (1 - 1 / 2 ^ 51) \<le> as_secs_f64 ns"
    and "as_secs_f64 ns \<le> as_secs ns * (1 + 1 / 2 ^ 51)"
proof -
  define s n :: rat where "s = of_nat (ns div 1000000000)" and "n = of_nat (ns mod 1000000000) / 1000000000"
  have s: "s * (1 - 1 / 2 ^ 53) \<le> fl s" "fl s \<le> s * (1 + 1 / 2 ^ 53)"
    using fl_rel[OF of_nat_normal] by (simp_all only: s_def)
  have n: "n * (1 - 1 / 2 ^ 53) \<le> fl n" "fl n \<le> n * (1 + 1 / 2 ^ 53)"
    using fl_rel[OF nat_fraction_normal] by (simp_all only: n_def)
  have sum: "(s + n) * (1 - 1 / 2 ^ 53) \<le> fl s + fl n" "fl s + fl n \<le> (s + n) * (1 + 1 / 2 ^ 53)"
    using s n by (simp_all add: algebra_simps)
  have eq: "as_secs ns = s + n" "as_secs_f64 ns = fl (fl s + fl n)"
    by (simp_all add: as_secs_split as_secs_f64_def s_def n_def)
  have "ns = 0 \<or> 1 / 1000000000 \<le> s + n" by (cases ns) (simp_all flip: eq(1) add: as_secs_def)
  then have "fl s + fl n = 0 \<or> 1 / 2 ^ 100 \<le> fl s + fl n"
    using sum(1) by (auto simp: s_def n_def)
  note r = fl_rel[OF this, folded eq(2)]
  have nn: "0 \<le> s + n" by (simp add: s_def n_def)
  have "(s + n) * (1 - 1 / 2 ^ 51) \<le> (s + n) * (1 - 1 / 2 ^ 53) * (1 - 1 / 2 ^ 53)"
    using nn by simp
  also have "\<dots> \<le> (fl s + fl n) * (1 - 1 / 2 ^ 53)" using sum(1) by simp
  finally show "as_secs ns * (1 - 1 / 2 ^ 51) \<le> as_secs_f64 ns" using r(1) by (simp only: eq(1))
  have "(fl s + fl n) * (1 + 1 / 2 ^ 53) \<le> (s + n) * (1 + 1 / 2 ^ 53) * (1 + 1 / 2 ^ 53)"
    using sum(2) by simp
  also have "\<dots> \<le> (s + n) * (1 + 1 / 2 ^ 51)" using nn by simp
  finally show "as_secs_f64 ns \<le> as_secs ns * (1 + 1 / 2 ^ 51)" using r(2) by (simp only: eq(1))
qed

lemma as_secs_f64_nonneg [simp]: "0 \<le> as_secs_f64 ns"
  by (simp add: as_secs_f64_def)

lemma from_secs_f64_error: "0 \<le> s \<Longrightarrow> \<bar>of_nat (from_secs_f64 s) - s * 1000000000\<bar> \<le> 1 / 2"
proof -
  assume s: "0 \<le> s"
  then have "0 \<le> round_even (s * 1000000000)"
    using round_even_mono[of 0 "s * 1000000000"] round_even_of_int[of 0] by simp
  then show ?thesis
    using round_even_error[of "s * 1000000000"] by (simp add: from_secs_f64_def)
qed

end
