(* ===== verification/Smpp_Limiter.thy ===== *)
theory Smpp_Limiter
  imports Smpp_Float
begin

text \<open>
  The token bucket (\<open>RateLimiter\<close> in \<open>src/src/runtime.rs\<close>). Times are readings of the
  monotonic clock in nanoseconds; the arithmetic is that of \<open>f64\<close>, with the rounding \<open>fl\<close> after
  every operation. Each pass through the mutex is one definition, so that a history of a
  limiter shared by many tasks is a list of passes in lock order.
\<close>

section \<open>The bucket\<close>

record Bucket =
  b_tokens :: rat
  b_max :: rat
  b_refill_per_sec :: rat
  b_last :: nat

definition RateLimiter_new :: "u32 \<Rightarrow> nat \<Rightarrow> Bucket" where
  "RateLimiter_new rate now =
     (let r = of_nat (max (unat rate) 1)
      in \<lparr>b_tokens = r, b_max = r, b_refill_per_sec = r, b_last = now\<rparr>)"

text \<open>The refill both entry points start with; \<open>duration_since\<close> saturates at zero.\<close>

definition refill :: "nat \<Rightarrow> Bucket \<Rightarrow> Bucket" where
  "refill now b =
     (let elapsed = as_secs_f64 (now - b_last b)
      in b\<lparr>b_tokens := min (fl (b_tokens b + fl (elapsed * b_refill_per_sec b))) (b_max b), b_last := now\<rparr>)"

text \<open>One turn of \<open>acquire\<close>'s loop: \<open>None\<close> took a token, \<open>Some w\<close> has to sleep \<open>w\<close> nanoseconds.\<close>

definition acquire_pass :: "nat \<Rightarrow> Bucket \<Rightarrow> nat option \<times> Bucket" where
  "acquire_pass now b =
     (let b' = refill now b
      in if 1 \<le> b_tokens b' then (None, b'\<lparr>b_tokens := fl (b_tokens b' - 1)\<rparr>)
         else (let deficit = fl (1 - b_tokens b')
               in (Some (from_secs_f64 (fl (deficit / b_refill_per_sec b'))), b')))"

text \<open>
  The loop, over the clock readings of its turns. \<open>None\<close>: still asleep when the readings
  end. The result says whether the caller was paced.
\<close>

fun acquire :: "nat list \<Rightarrow> bool \<Rightarrow> Bucket \<Rightarrow> (bool \<times> Bucket) option" where
  "acquire [] waited b = None"
| "acquire (now # clock) waited b =
     (case acquire_pass now b of
        (None, b') \<Rightarrow> Some (waited, b')
      | (Some w, b') \<Rightarrow> acquire clock True b')"

definition try_acquire :: "nat \<Rightarrow> Bucket \<Rightarrow> bool \<times> Bucket" where
  "try_acquire now b =
     (let b' = refill now b
      in if 1 \<le> b_tokens b' then (True, b'\<lparr>b_tokens := fl (b_tokens b' - 1)\<rparr>) else (False, b'))"

section \<open>Histories\<close>

text \<open>A pass of some task: a turn of \<open>acquire\<close> or a \<open>try_acquire\<close>, at a time.\<close>

datatype limiter_op = Acquire_turn nat | Try_acquire nat

primrec op_time :: "limiter_op \<Rightarrow> nat" where
  "op_time (Acquire_turn t) = t"
| "op_time (Try_acquire t) = t"

primrec limiter_step :: "limiter_op \<Rightarrow> Bucket \<Rightarrow> bool \<times> Bucket" where
  "limiter_step (Acquire_turn t) b = map_prod Option.is_none id (acquire_pass t b)"
| "limiter_step (Try_acquire t) b = try_acquire t b"

text \<open>How many of the passes took a token, and the bucket they leave.\<close>

fun limiter_run :: "limiter_op list \<Rightarrow> Bucket \<Rightarrow> nat \<times> Bucket" where
  "limiter_run [] b = (0, b)"
| "limiter_run (op # ops) b =
     (let (ok, b') = limiter_step op b; (n, b'') = limiter_run ops b'
      in (n + (if ok then 1 else 0), b''))"

section \<open>Metered access\<close>

text \<open>
  The contract of a limiter towards whoever counts what it lets through: a pass that takes a
  token costs something of the level, and the level gains at most what the rate gives for the
  time since the last pass. The bound on any run of passes follows from that alone.
\<close>

locale metered =
  fixes ok :: "'b \<Rightarrow> bool" and last_of :: "'b \<Rightarrow> nat" and rate :: "'b \<Rightarrow> rat" and level :: "'b \<Rightarrow> rat"
    and step :: "'op \<Rightarrow> 'b \<Rightarrow> bool \<times> 'b" and time_of :: "'op \<Rightarrow> nat" and run :: "'op list \<Rightarrow> 'b \<Rightarrow> nat \<times> 'b"
    and cost :: rat and gain :: rat
  assumes ok_step: "ok b \<Longrightarrow> step op b = (taken, b') \<Longrightarrow> ok b'"
    and step_consts: "step op b = (taken, b') \<Longrightarrow> rate b' = rate b \<and> last_of b' = time_of op"
    and step_budget: "ok b \<Longrightarrow> last_of b \<le> time_of op \<Longrightarrow> step op b = (taken, b') \<Longrightarrow>
      (if taken then cost else 0) + level b' \<le> level b + as_secs (time_of op - last_of b) * rate b * gain"
    and run_Nil: "run [] b = (0, b)"
    and run_Cons: "run (op # ops) b =
      (let (taken, b') = step op b; (n, b'') = run ops b' in (n + (if taken then 1 else 0), b''))"
begin

lemma run_ConsE:
  assumes "run (op # ops) b = (n, b')"
  obtains taken b1 m where "step op b = (taken, b1)" "run ops b1 = (m, b')" "n = m + (if taken then 1 else 0)"
  using assms by (auto simp: run_Cons split: prod.splits)

lemma run_last: "run ops b = (n, b') \<Longrightarrow> last_of b' = last (last_of b # map time_of ops)"
proof (induction ops arbitrary: b n)
  case (Cons op ops)
  from Cons.prems obtain taken b1 m where "step op b = (taken, b1)" "run ops b1 = (m, b')"
    by (rule run_ConsE)
  with Cons.IH[of b1 m] step_consts show ?case by simp
qed (simp add: run_Nil)

lemma run_budget:
  assumes "ok b" and "run ops b = (n, b')" and "sorted (last_of b # map time_of ops)"
  shows "ok b' \<and> last_of b \<le> last_of b' \<and> rate b' = rate b \<and>
    of_nat n * cost + level b' \<le> level b + as_secs (last_of b' - last_of b) * rate b * gain"
  using assms
proof (induction ops arbitrary: b n)
  case (Cons op ops)
  obtain taken b1 m where step: "step op b = (taken, b1)" and run: "run ops b1 = (m, b')"
    and n: "n = m + (if taken then 1 else 0)"
    using Cons.prems(2) by (rule run_ConsE)
  have c: "rate b1 = rate b" "last_of b1 = time_of op" using step_consts[OF step] by simp_all
  have le: "last_of b \<le> last_of b1" using Cons.prems(3) c(2) by simp
  have IH: "ok b' \<and> last_of b1 \<le> last_of b' \<and> rate b' = rate b1 \<and>
      of_nat m * cost + level b' \<le> level b1 + as_secs (last_of b' - last_of b1) * rate b1 * gain"
    using Cons.IH[OF ok_step[OF Cons.prems(1) step] run] Cons.prems(3) c(2) by simp
  have time: "as_secs (last_of b' - last_of b) = as_secs (last_of b1 - last_of b) + as_secs (last_of b' - last_of b1)"
    using le IH by (simp flip: as_secs_add)
  have "of_nat n * cost = of_nat m * cost + (if taken then cost else 0)"
    by (simp add: n algebra_simps)
  moreover have "(if taken then cost else 0) + level b1 \<le> level b + as_secs (last_of b1 - last_of b) * rate b * gain"
    using step_budget[OF Cons.prems(1) _ step] le unfolding c by simp
  ultimately have "of_nat n * cost + level b' \<le> level b + as_secs (last_of b' - last_of b) * rate b * gain"
    using IH unfolding time distrib_right c(1) by linarith
  then show ?case using IH le c(1) by simp
qed (simp add: run_Nil)

end

section \<open>Lemmas\<close>

text \<open>
  The invariant of a bucket: its numbers are \<open>f64\<close>, its content is between empty and full, and
  its size is a rate the configuration can express (\<open>u32\<close>).
\<close>

definition bucket_ok :: "Bucket \<Rightarrow> bool" where
  "bucket_ok b \<longleftrightarrow> 0 \<le> b_tokens b \<and> b_tokens b \<le> b_max b \<and> 1 \<le> b_max b \<and> b_max b \<le> 2 ^ 32
     \<and> is_f64 (b_tokens b) \<and> is_f64 (b_max b) \<and> b_refill_per_sec b = b_max b"

lemma is_f64_of_nat: "n \<le> 2 ^ 53 \<Longrightarrow> is_f64 (of_nat n)"
  by (simp add: is_f64_def fl_of_nat)

lemma rate_le: "max (unat (rate :: u32)) 1 \<le> 2 ^ 32"
  using unsigned_less[of rate, where 'a = nat] by simp

lemma bucket_ok_new [simp]: "bucket_ok (RateLimiter_new rate now)"
proof -
  have "is_f64 (of_nat (max (unat rate) 1))" using rate_le[of rate] by (intro is_f64_of_nat) simp
  moreover have "rat_of_nat (max (unat rate) 1) \<le> of_nat (2 ^ 32)" using rate_le by (simp only: of_nat_le_iff)
  ultimately show ?thesis by (simp add: bucket_ok_def RateLimiter_new_def Let_def)
qed

lemma limiter_step_eq:
  "limiter_step op b =
     (let b' = refill (op_time op) b
      in if 1 \<le> b_tokens b' then (True, b'\<lparr>b_tokens := fl (b_tokens b' - 1)\<rparr>) else (False, b'))"
  by (cases op) (simp_all add: acquire_pass_def try_acquire_def Let_def)

lemma refill_consts [simp]:
  "b_max (refill now b) = b_max b" "b_refill_per_sec (refill now b) = b_refill_per_sec b"
  "b_last (refill now b) = now"
  by (simp_all add: refill_def Let_def)

lemma limiter_step_consts:
  "limiter_step op b = (ok, b') \<Longrightarrow>
   b_max b' = b_max b \<and> b_refill_per_sec b' = b_refill_per_sec b \<and> b_last b' = op_time op"
  by (auto simp: limiter_step_eq Let_def split: if_splits)

lemma bucket_ok_refill:
  assumes "bucket_ok b"
  shows "bucket_ok (refill now b)"
proof -
  define s where "s = fl (b_tokens b + fl (as_secs_f64 (now - b_last b) * b_refill_per_sec b))"
  have "0 \<le> b_tokens b + fl (as_secs_f64 (now - b_last b) * b_refill_per_sec b)"
    using assms by (simp add: bucket_ok_def)
  then have "0 \<le> s" "is_f64 s" by (simp_all add: s_def)
  moreover have "b_tokens (refill now b) = min s (b_max b)" by (simp add: refill_def Let_def s_def)
  ultimately show ?thesis using assms by (auto simp: bucket_ok_def min_def)
qed

lemma fl_minus_one:
  assumes "1 \<le> x" "is_f64 x"
  shows "0 \<le> fl (x - 1)" "fl (x - 1) \<le> x" "is_f64 (fl (x - 1))"
  using assms fl_mono[of "x - 1" x] by (simp_all add: is_f64_def)

lemma bucket_ok_step: "bucket_ok b \<Longrightarrow> limiter_step op b = (ok, b') \<Longrightarrow> bucket_ok b'"
  using bucket_ok_refill[of b "op_time op"] fl_minus_one[of "b_tokens (refill (op_time op) b)"]
  by (auto simp: limiter_step_eq Let_def bucket_ok_def split: if_splits)

subsection \<open>What rounding can add and take\<close>

text \<open>The refill of a pass, before it is cut at the bucket's size.\<close>

lemma product_bounds:
  assumes "1 \<le> r"
  shows "as_secs ns * r * (1 - 1 / 2 ^ 50) \<le> fl (as_secs_f64 ns * r)"
    and "fl (as_secs_f64 ns * r) \<le> as_secs ns * r * (1 + 1 / 2 ^ 50)"
proof -
  define X where "X = as_secs ns * r"
  have X0: "0 \<le> X" using assms by (simp add: X_def)
  have "as_secs ns * (1 - 1 / 2 ^ 51) * r \<le> as_secs_f64 ns * r"
    "as_secs_f64 ns * r \<le> as_secs ns * (1 + 1 / 2 ^ 51) * r"
    using as_secs_f64_rel[of ns] assms by (auto intro: mult_right_mono)
  then have f: "X * (1 - 1 / 2 ^ 51) \<le> as_secs_f64 ns * r" "as_secs_f64 ns * r \<le> X * (1 + 1 / 2 ^ 51)"
    by (simp_all only: X_def mult_ac)
  have "ns = 0 \<or> 1 / 1000000000 \<le> X"
  proof (cases ns)
    case (Suc k)
    then have "1 / 1000000000 \<le> as_secs ns" by (simp add: as_secs_def)
    then show ?thesis using mult_mono[of "1 / 1000000000" "as_secs ns" 1 r] assms by (simp add: X_def)
  qed simp
  then have "as_secs_f64 ns * r = 0 \<or> 1 / 2 ^ 100 \<le> as_secs_f64 ns * r"
    using f(1) by auto
  note g = fl_rel[OF this]
  show "as_secs ns * r * (1 - 1 / 2 ^ 50) \<le> fl (as_secs_f64 ns * r)"
    using f(1) g(1) X0 by (simp flip: X_def)
  show "fl (as_secs_f64 ns * r) \<le> as_secs ns * r * (1 + 1 / 2 ^ 50)"
    using f(2) g(2) X0 by (simp flip: X_def)
qed

text \<open>
  A pass that takes a token and a pass that does not: what is left and what was handed out is
  paid for by the refill, up to a relative error of the refill and a fixed error per token.
\<close>

lemma refill_upper:
  assumes "bucket_ok b" "b_last b \<le> now"
  defines "T \<equiv> b_tokens (refill now b)"
  defines "X \<equiv> as_secs (now - b_last b) * b_max b"
  shows "T \<le> b_tokens b + X * (1 + 1 / 2 ^ 22) + (if 1 \<le> T then 1 / 2 ^ 20 else 0)"
proof -
  define x s where "x = fl (as_secs_f64 (now - b_last b) * b_max b)" and "s = b_tokens b + x"
  have r: "1 \<le> b_max b" "b_max b \<le> 2 ^ 32" and tok: "0 \<le> b_tokens b" "fl (b_tokens b) = b_tokens b"
    using assms(1) by (simp_all add: bucket_ok_def is_f64_def)
  have T: "T = min (fl s) (b_max b)"
    using assms(1) by (simp add: T_def refill_def Let_def s_def x_def bucket_ok_def)
  have X0: "0 \<le> X" using r by (simp add: X_def)
  show ?thesis
  proof (cases "now - b_last b = 0")
    case True
    then have "T \<le> b_tokens b" using tok by (simp add: T s_def x_def)
    then show ?thesis using X0 by (simp add: add_increasing2)
  next
    case False
    have xX: "x \<le> X * (1 + 1 / 2 ^ 50)" and x0: "0 \<le> x" and "X * (1 - 1 / 2 ^ 50) \<le> x"
      using product_bounds[OF r(1), of "now - b_last b"] r by (simp_all add: x_def X_def)
    have "1 / 1000000000 \<le> as_secs (now - b_last b)" using False by (simp add: as_secs_def)
    then have X1: "1 / 1000000000 \<le> X"
      using r mult_mono[of "1 / 1000000000" "as_secs (now - b_last b)" 1 "b_max b"] by (simp add: X_def)
    then have "1 / 2 ^ 100 \<le> s" using \<open>X * (1 - 1 / 2 ^ 50) \<le> x\<close> tok(1) by (simp add: s_def)
    then have up: "fl s \<le> s + s / 2 ^ 53" using fl_rel(2)[of s] by (simp add: field_simps)
    show ?thesis
    proof (cases "1 \<le> T")
      case True
      then have "T \<le> s + 1 / 2 ^ 21"
        using up r(2) unfolding T min_def by (cases "s \<le> b_max b") (auto split: if_splits)
      then show ?thesis using True xX X0 by (simp add: s_def)
    next
      case False
      then have "fl s < 1" using r(1) by (simp add: T min_def split: if_splits)
      then have "s < 1" using fl_mono[of 1 s] by (cases "1 \<le> s") auto
      then have "T \<le> s + 1 / 2 ^ 53" using up unfolding T by (simp add: min_def)
      then show ?thesis using False xX X0 X1 by (simp add: s_def)
    qed
  qed
qed

lemma limiter_step_budget:
  assumes "bucket_ok b" "b_last b \<le> op_time op" "limiter_step op b = (ok, b')"
  shows "(if ok then 1 - 1 / 2 ^ 19 else 0) + b_tokens b' \<le>
    b_tokens b + as_secs (op_time op - b_last b) * b_max b * (1 + 1 / 2 ^ 22)"
proof -
  define T where "T = b_tokens (refill (op_time op) b)"
  have up: "T \<le> b_tokens b + as_secs (op_time op - b_last b) * b_max b * (1 + 1 / 2 ^ 22) + (if 1 \<le> T then 1 / 2 ^ 20 else 0)"
    unfolding T_def by (rule refill_upper[OF assms(1,2)])
  have T32: "T \<le> 2 ^ 32"
    using bucket_ok_refill[OF assms(1), of "op_time op"] by (auto simp: bucket_ok_def T_def)
  show ?thesis
  proof (cases "1 \<le> T")
    case True
    then have b': "ok" "b_tokens b' = fl (T - 1)"
      using assms(3) by (auto simp: limiter_step_eq Let_def T_def)
    have "fl (T - 1) \<le> (T - 1) + 1 / 2 ^ 20" using fl_bounds(2)[of "T - 1"] True T32 by (simp add: diff_divide_distrib)
    then show ?thesis using up True b' by simp
  next
    case False
    then have "\<not> ok" "b_tokens b' = T" using assms(3) by (auto simp: limiter_step_eq Let_def T_def)
    then show ?thesis using up False by simp
  qed
qed

interpretation bucket: metered bucket_ok b_last b_max b_tokens limiter_step op_time limiter_run "1 - 1 / 2 ^ 19" "1 + 1 / 2 ^ 22"
proof unfold_locales
  show "bucket_ok b'" if "bucket_ok b" "limiter_step op b = (taken, b')" for b op taken b'
    using that by (rule bucket_ok_step)
  show "b_max b' = b_max b \<and> b_last b' = op_time op" if "limiter_step op b = (taken, b')" for b op taken b'
    using limiter_step_consts[OF that] by simp
  show "(if taken then 1 - 1 / 2 ^ 19 else 0) + b_tokens b' \<le>
      b_tokens b + as_secs (op_time op - b_last b) * b_max b * (1 + 1 / 2 ^ 22)"
    if "bucket_ok b" "b_last b \<le> op_time op" "limiter_step op b = (taken, b')" for b op taken b'
    using that by (rule limiter_step_budget)
qed simp_all

text \<open>
  The cap a run obeys: its burst plus its rate, within four parts in a million for the
  rounding of \<open>f64\<close>.
\<close>

definition rate_bound :: "rat \<Rightarrow> nat \<Rightarrow> rat" where
  "rate_bound r ns = r * (1 + as_secs ns) * (1 + 1 / 2 ^ 18)"

lemma limiter_run_cap:
  assumes "bucket_ok b" and "limiter_run ops b = (n, b')" and "sorted (b_last b # map op_time ops)"
  shows "of_nat n \<le> rate_bound (b_max b) (b_last b' - b_last b)"
proof -
  define X where "X = as_secs (b_last b' - b_last b) * b_max b"
  have "0 \<le> X" "1 \<le> b_max b" using assms(1) by (simp_all add: X_def bucket_ok_def)
  moreover have "of_nat n * (1 - 1 / 2 ^ 19) \<le> b_max b + X * (1 + 1 / 2 ^ 22)"
    using bucket.run_budget[OF assms] assms(1) unfolding bucket_ok_def X_def[symmetric] by linarith
  ultimately have "of_nat n \<le> (b_max b + X) * (1 + 1 / 2 ^ 18)" by simp
  then show ?thesis by (simp only: rate_bound_def X_def) (simp add: algebra_simps)
qed

lemma limiter_run_append:
  "limiter_run (xs @ ys) b =
     (let (m, b1) = limiter_run xs b; (n, b2) = limiter_run ys b1 in (m + n, b2))"
  by (induction xs arbitrary: b) (simp_all add: Let_def split: prod.split)

text \<open>A call of \<open>acquire\<close> that returns is a run of passes of which the last one took a token.\<close>

lemma acquire_run:
  "acquire clock waited b = Some (w, b') \<Longrightarrow>
   \<exists>ops rest. limiter_run ops b = (1, b') \<and> clock = map op_time ops @ rest"
proof (induction clock waited b rule: acquire.induct)
  case (2 now clock waited b)
  obtain o1 b1 where pass: "acquire_pass now b = (o1, b1)" by fastforce
  show ?case
  proof (cases o1)
    case None
    with 2 pass have "limiter_run [Acquire_turn now] b = (1, b')" by simp
    then show ?thesis by (intro exI[of _ "[Acquire_turn now]"]) simp
  next
    case (Some x)
    with 2 pass obtain ops rest where "limiter_run ops b1 = (1, b')" "clock = map op_time ops @ rest" by auto
    with Some pass show ?thesis by (intro exI[of _ "Acquire_turn now # ops"]) simp
  qed
qed simp

text \<open>
  A pass that is refused asks for the time after which the refill makes a whole token. One
  nanosecond more covers every rounding on the way, of the sleep to whole nanoseconds included.
\<close>

lemma refill_lower:
  assumes "bucket_ok b" and "1 - b_tokens b + 1 / 2 ^ 32 \<le> as_secs (t - b_last b) * b_max b"
  shows "1 \<le> b_tokens (refill t b)"
proof -
  define X where "X = as_secs (t - b_last b) * b_max b"
  have r: "1 \<le> b_max b" and tok: "0 \<le> b_tokens b" and rr: "b_refill_per_sec b = b_max b"
    using assms(1) by (simp_all add: bucket_ok_def)
  have "X * (1 - 1 / 2 ^ 50) \<le> fl (as_secs_f64 (t - b_last b) * b_max b)"
    using product_bounds(1)[OF r, of "t - b_last b"] by (simp only: X_def)
  moreover have "1 \<le> b_tokens b + X * (1 - 1 / 2 ^ 50)"
    using assms(2) tok unfolding X_def[symmetric] by (cases "X \<le> 2") auto
  ultimately have "1 \<le> b_tokens b + fl (as_secs_f64 (t - b_last b) * b_max b)" by simp
  then have "1 \<le> fl (b_tokens b + fl (as_secs_f64 (t - b_last b) * b_max b))"
    using fl_mono[of 1] by fastforce
  then show ?thesis using r by (simp add: refill_def Let_def rr)
qed

lemma acquire_pass_wait:
  assumes "bucket_ok b" and "acquire_pass t b = (Some w, b')"
  shows "bucket_ok b'" "b_max b' = b_max b" "b_last b' = t"
    and "of_nat w \<le> 1000000000 / b_max b + 1"
    and "1 - b_tokens b' \<le> of_nat w / 1000000000 * b_max b + b_max b / 1500000000"
proof -
  have b': "b' = refill t b" and w: "w = from_secs_f64 (fl (fl (1 - b_tokens b') / b_refill_per_sec b'))"
    and lt: "b_tokens b' < 1"
    using assms(2) by (auto simp: acquire_pass_def Let_def split: if_splits)
  show ok: "bucket_ok b'" "b_max b' = b_max b" "b_last b' = t"
    using bucket_ok_refill[OF assms(1)] by (simp_all add: b')
  define r d where "r = b_max b" and "d = 1 - b_tokens b'"
  have rr: "b_refill_per_sec b' = r" "1 \<le> r" and r32: "r \<le> 2 ^ 32" and d: "0 \<le> d" "d \<le> 1"
    using ok lt by (simp_all add: bucket_ok_def r_def d_def)
  define q where "q = fl (fl d / r)"
  have "0 \<le> q" using d rr by (simp add: q_def)
  note err = from_secs_f64_error[OF this]
  have wq: "w = from_secs_f64 q" by (simp add: w q_def d_def rr(1))
  have "fl d / r \<le> 1 / r" using fl_mono[OF d] rr(2) by (simp add: divide_right_mono)
  then have "q \<le> fl (1 / r)" using d rr(2) unfolding q_def by (intro fl_mono) simp_all
  also have "\<dots> \<le> 1 / r * (1 + 1 / 2 ^ 53)"
    using rr(2) r32 by (intro fl_rel disjI2) (simp add: field_simps)
  finally have "q \<le> 1 / r + 1 / 2 ^ 53" using rr(2) by (simp add: field_simps)
  then show "of_nat w \<le> 1000000000 / b_max b + 1"
    using err unfolding wq r_def[symmetric] abs_le_iff by simp
  have dl: "d - 1 / 2 ^ 52 \<le> fl d" using fl_bounds(1)[OF d(1)] d(2) by simp
  have "fl d / r - (fl d / r / 2 ^ 53 + 1 / 2 ^ 90) \<le> q" unfolding q_def using d rr(2) by (intro fl_bounds) simp
  then have "(fl d / r - (fl d / r / 2 ^ 53 + 1 / 2 ^ 90)) * r \<le> q * r" using rr(2) by (intro mult_right_mono) simp_all
  moreover have "(fl d / r - (fl d / r / 2 ^ 53 + 1 / 2 ^ 90)) * r = fl d - (fl d / 2 ^ 53 + r / 2 ^ 90)"
    using rr(2) by (simp add: left_diff_distrib distrib_right)
  ultimately have "fl d - (fl d / 2 ^ 53 + r / 2 ^ 90) \<le> q * r" by (simp only:)
  then have qr: "d - 1 / 2 ^ 51 \<le> q * r" using dl r32 fl_mono[OF d] by simp
  have "q - 1 / 2000000000 \<le> of_nat w / 1000000000" using err unfolding wq abs_le_iff by simp
  then have "(q - 1 / 2000000000) * r \<le> of_nat w / 1000000000 * r" using rr(2) by (intro mult_right_mono) simp_all
  then show "1 - b_tokens b' \<le> of_nat w / 1000000000 * b_max b + b_max b / 1500000000"
    using qr rr(2) unfolding d_def[symmetric] r_def[symmetric] left_diff_distrib by simp
qed

lemma refill_after_wait:
  assumes "bucket_ok b" and "acquire_pass t b = (Some w, b1)" and "t + w < t'"
  shows "1 \<le> b_tokens (refill t' b1)"
proof -
  note wait = acquire_pass_wait[OF assms(1,2)]
  have r: "1 \<le> b_max b" using assms(1) by (simp add: bucket_ok_def)
  have "rat_of_nat (w + 1) \<le> of_nat (t' - t)" using assms(3) by (simp only: of_nat_le_iff)
  then have "of_nat (w + 1) / 1000000000 * b_max b \<le> as_secs (t' - t) * b_max b"
    using r unfolding as_secs_def by (intro mult_right_mono divide_right_mono) simp_all
  then have "1 - b_tokens b1 + 1 / 2 ^ 32 \<le> as_secs (t' - t) * b_max b"
    using wait(5) r by (simp add: add_divide_distrib distrib_right)
  then show ?thesis using refill_lower[OF wait(1)] wait(2,3) by simp
qed

lemma acquire_two_turns:
  assumes "bucket_ok b"
    and "case fst (acquire_pass t b) of None \<Rightarrow> True | Some w \<Rightarrow> t + w < t'"
  shows "(\<exists>b'. acquire (t # t' # clock) False b = Some (fst (acquire_pass t b) \<noteq> None, b') \<and> bucket_ok b')
    \<and> (case fst (acquire_pass t b) of None \<Rightarrow> True | Some w \<Rightarrow> of_nat w \<le> 1000000000 / b_max b + 1)"
proof (cases "acquire_pass t b")
  case (Pair o1 b1)
  show ?thesis
  proof (cases o1)
    case None
    with Pair assms(1) bucket_ok_step[of b "Acquire_turn t" True b1] show ?thesis by simp
  next
    case (Some w)
    with Pair have pass: "acquire_pass t b = (Some w, b1)" by simp
    note wait = acquire_pass_wait[OF assms(1) pass]
    have "1 \<le> b_tokens (refill t' b1)" using refill_after_wait[OF assms(1) pass] assms(2) pass by simp
    then have second: "acquire_pass t' b1 =
        (None, (refill t' b1)\<lparr>b_tokens := fl (b_tokens (refill t' b1) - 1)\<rparr>)"
      by (simp add: acquire_pass_def Let_def)
    moreover have "bucket_ok ((refill t' b1)\<lparr>b_tokens := fl (b_tokens (refill t' b1) - 1)\<rparr>)"
      using bucket_ok_step[of b1 "Acquire_turn t'"] wait(1) second by simp
    ultimately show ?thesis using pass wait(4) by simp
  qed
qed

section \<open>Properties\<close>

text \<open>
  C2. The rate cap holds for every history of passes, however many tasks share the limiter and
  in whatever order they win the lock: within any window the messages let through are at
  most one second's burst plus the configured rate times the window, up to the four parts in
  a million that the \<open>f64\<close> arithmetic of the code can add, and the bucket stays between empty
  and full.
\<close>

theorem limiter_rate_cap:
  assumes "limiter_run ops (RateLimiter_new rate t0) = (n0, b)"
    and "limiter_run window b = (n, b')"
    and "sorted (t0 # map op_time (ops @ window))"
  shows "rat_of_nat n \<le> of_nat (max (unat rate) 1) * (1 + as_secs (b_last b' - b_last b)) * (1 + 1 / 2 ^ 18)
    \<and> 0 \<le> b_tokens b' \<and> b_tokens b' \<le> of_nat (max (unat rate) 1)"
proof -
  define r where "r = rat_of_nat (max (unat rate) 1)"
  have new: "b_last (RateLimiter_new rate t0) = t0" "b_max (RateLimiter_new rate t0) = r"
    by (simp_all add: RateLimiter_new_def r_def Let_def)
  have first: "bucket_ok b" "b_max b = r"
    using bucket.run_budget[OF bucket_ok_new assms(1)] assms(3) new
    by (auto simp: sorted_append)
  have last: "b_last b = last (t0 # map op_time ops)"
    using bucket.run_last[OF assms(1)] new by simp
  have sorted: "sorted (b_last b # map op_time window)"
    using assms(3) sorted_append[of "t0 # map op_time ops" "map op_time window"]
      last_in_set[of "t0 # map op_time ops"] unfolding last by (auto split: if_splits)
  have "bucket_ok b'" "b_max b' = r"
    using bucket.run_budget[OF first(1) assms(2) sorted] first by simp_all
  then show ?thesis
    using limiter_run_cap[OF first(1) assms(2) sorted] unfolding r_def[symmetric]
    by (auto simp: bucket_ok_def rate_bound_def first(2))
qed

text \<open>Half a second is exact in \<open>f64\<close>.\<close>

lemma as_secs_f64_half [simp]: "as_secs_f64 500000000 = 1 / 2"
  by (simp add: as_secs_f64_def)

lemma bucket_ok_two: "t \<in> {0, 1, 2} \<Longrightarrow> bucket_ok \<lparr>b_tokens = t, b_max = 2, b_refill_per_sec = 2, b_last = n\<rparr>"
  by (auto simp: bucket_ok_def is_f64_def)

theorem limiter_rate_cap_witness:
  "rat_of_nat 1 \<le> of_nat (max (unat (2 :: u32)) 1) * (1 + as_secs 500000000) * (1 + 1 / 2 ^ 18)"
proof -
  have "limiter_run [Try_acquire 0, Acquire_turn 0] (RateLimiter_new 2 0) =
      (2, \<lparr>b_tokens = 0, b_max = 2, b_refill_per_sec = 2, b_last = 0\<rparr>)"
    by (simp add: limiter_step_eq RateLimiter_new_def Let_def refill_def)
  moreover have "limiter_run [Try_acquire 0, Acquire_turn 500000000]
      \<lparr>b_tokens = 0, b_max = 2, b_refill_per_sec = 2, b_last = 0\<rparr> =
      (1, \<lparr>b_tokens = 0, b_max = 2, b_refill_per_sec = 2, b_last = 500000000\<rparr>)"
    by (simp add: limiter_step_eq Let_def refill_def)
  ultimately show ?thesis
    using limiter_rate_cap[of "[Try_acquire 0, Acquire_turn 0]" 2 0 2 _ "[Try_acquire 0, Acquire_turn 500000000]"]
    by fastforce
qed

text \<open>
  C16. Pacing ends: \<open>acquire\<close> returns after at most one sleep when no other task takes the
  token meanwhile. The sleep it asks for is at most one message interval, rounded up to a
  nanosecond; if the clock has advanced further than that at the next turn (the timer wakes
  up at its next millisecond), a token is there, in spite of every rounding, and the caller
  is reported as paced exactly when it slept.
\<close>

theorem acquire_returns:
  assumes "bucket_ok b"
    and "case fst (acquire_pass t b) of None \<Rightarrow> True | Some w \<Rightarrow> t + w < t'"
  shows "(\<exists>b'. acquire (t # t' # clock) False b = Some (fst (acquire_pass t b) \<noteq> None, b') \<and> bucket_ok b')
    \<and> (case fst (acquire_pass t b) of None \<Rightarrow> True | Some w \<Rightarrow> of_nat w \<le> 1000000000 / b_max b + 1)"
  using assms by (rule acquire_two_turns)

lemma acquire_pass_empty_two:
  "acquire_pass 0 \<lparr>b_tokens = 0, b_max = 2, b_refill_per_sec = 2, b_last = 0\<rparr> =
     (Some 500000000, \<lparr>b_tokens = 0, b_max = 2, b_refill_per_sec = 2, b_last = 0\<rparr>)"
  by (simp add: acquire_pass_def refill_def Let_def from_secs_f64_def)

theorem acquire_returns_witness:
  "\<exists>b'. acquire [0, 500000001] False \<lparr>b_tokens = 0, b_max = 2, b_refill_per_sec = 2, b_last = 0\<rparr>
     = Some (True, b') \<and> bucket_ok b'"
  using acquire_returns[OF bucket_ok_two[of 0 0], where t = 0 and t' = 500000001 and clock = "[]"]
  by (simp add: acquire_pass_empty_two)

text \<open>
  C31. A sender that keeps to the configured rate is never refused or paced: when successive
  passes are at least one message interval and a nanosecond apart, every one of them takes a
  token.
\<close>

theorem conforming_sender_never_throttled:
  assumes "bucket_ok b"
    and "successively (\<lambda>s t. s < t \<and> 1 \<le> as_secs (t - s - 1) * b_max b) (b_last b # map op_time ops)"
  shows "fst (limiter_run ops b) = length ops"
  using assms
proof (induction ops b rule: limiter_run.induct)
  case (2 op ops b)
  obtain ok b1 where step: "limiter_step op b = (ok, b1)" by fastforce
  define k where "k = op_time op - b_last b - 1"
  have k: "op_time op - b_last b = k + 1" "1 \<le> as_secs k * b_max b"
    using "2.prems"(2) by (auto simp: k_def)
  have "1 - b_tokens b + 1 / 2 ^ 32 \<le> as_secs (op_time op - b_last b) * b_max b"
    using k(2) "2.prems"(1) unfolding k(1) as_secs_add by (simp add: bucket_ok_def as_secs_def distrib_right)
  then have ok: "ok"
    using refill_lower[OF "2.prems"(1)] step by (auto simp: limiter_step_eq Let_def split: if_splits)
  have c: "b_max b1 = b_max b" "b_last b1 = op_time op" using limiter_step_consts[OF step] by simp_all
  have "fst (limiter_run ops b1) = length ops"
    using "2.IH"[OF step[symmetric] refl bucket_ok_step[OF "2.prems"(1) step]] "2.prems"(2) c
    by (cases ops) simp_all
  with step ok show ?case by (auto split: prod.splits)
qed simp

theorem conforming_sender_never_throttled_witness:
  "fst (limiter_run [Try_acquire 500000001, Acquire_turn 1000000002, Try_acquire 1500000003]
     (RateLimiter_new 2 0)) = 3"
proof -
  have "successively (\<lambda>s t. s < t \<and> 1 \<le> as_secs (t - s - 1) * b_max (RateLimiter_new 2 0))
      (b_last (RateLimiter_new 2 0) # map op_time [Try_acquire 500000001, Acquire_turn 1000000002, Try_acquire 1500000003])"
    by (simp add: as_secs_def RateLimiter_new_def Let_def)
  from conforming_sender_never_throttled[OF bucket_ok_new this] show ?thesis by simp
qed

end
