(* ===== verification/Smpp_Config.thy ===== *)
theory Smpp_Config
  imports Smpp_Status "HOL-Library.Char_ord" "HOL-Library.List_Lexorder"
begin

text \<open>
  The addon's configuration (\<open>src/src/config.rs\<close>) and the view of it scripts get
  (\<open>build_config_dict\<close> of \<open>src/src/install.rs\<close>). Parameters: the YAML parser, the YAML
  writer, the file's contents, the process environment, and Unicode lower-casing (\<open>lower\<close>).
  A \<open>BTreeMap\<close> is an association list kept sorted by key, in byte order.
\<close>

section \<open>Data\<close>

record TlsConfig =
  cert_path :: string
  key_path :: string
  ca_path :: "string option"

datatype ThrottleAction = Pace | Reject

record ServerConfig =
  sv_bind_address :: "string option"
  sv_port :: "u16 option"
  sv_session_init_timer_ms :: u64
  sv_enquire_link_timer_ms :: u64
  sv_inactivity_timer_ms :: u64
  sv_response_timer_ms :: u64
  sv_max_msg_per_sec :: u32
  sv_throttle_action :: ThrottleAction
  sv_tls :: "TlsConfig option"

record BindConfig =
  bc_name :: string
  bc_host :: string
  bc_port :: u16
  bc_system_id :: string
  bc_password :: string
  bc_system_type :: string
  bc_bind_type :: string
  bc_max_msg_per_sec :: u32
  bc_enquire_link_timer_ms :: u64
  bc_response_timer_ms :: u64
  bc_tls :: "TlsConfig option"

text \<open>A float is its 64-bit pattern.\<close>

datatype OptionValue =
    ONull | OBool bool | OInt int | OUInt u64 | OFloat u64 | OString string
  | OSeq "OptionValue list" | OMap "(OptionValue \<times> OptionValue) list"

text \<open>
  A value as serde hands it over or takes it, in the kinds of its data model the sources use.
  The visitor accepts every kind; the writer gives each variant its own.
\<close>

datatype serde_value =
    SUnit | SNone | SSome serde_value | SBool bool | SI64 int | SU64 u64 | SF64 u64 | SStr string
  | SSeq "serde_value list" | SMap "(serde_value \<times> serde_value) list"

fun OptionValue_deserialize :: "serde_value \<Rightarrow> OptionValue" where
  "OptionValue_deserialize SUnit = ONull"
| "OptionValue_deserialize SNone = ONull"
| "OptionValue_deserialize (SSome v) = OptionValue_deserialize v"
| "OptionValue_deserialize (SBool b) = OBool b"
| "OptionValue_deserialize (SI64 i) = OInt i"
| "OptionValue_deserialize (SU64 n) = OUInt n"
| "OptionValue_deserialize (SF64 f) = OFloat f"
| "OptionValue_deserialize (SStr s) = OString s"
| "OptionValue_deserialize (SSeq items) = OSeq (map OptionValue_deserialize items)"
| "OptionValue_deserialize (SMap entries) =
     OMap (map (\<lambda>(k, v). (OptionValue_deserialize k, OptionValue_deserialize v)) entries)"

fun OptionValue_serialize :: "OptionValue \<Rightarrow> serde_value" where
  "OptionValue_serialize ONull = SUnit"
| "OptionValue_serialize (OBool b) = SBool b"
| "OptionValue_serialize (OInt i) = SI64 i"
| "OptionValue_serialize (OUInt n) = SU64 n"
| "OptionValue_serialize (OFloat f) = SF64 f"
| "OptionValue_serialize (OString s) = SStr s"
| "OptionValue_serialize (OSeq items) = SSeq (map OptionValue_serialize items)"
| "OptionValue_serialize (OMap entries) =
     SMap (map (\<lambda>(k, v). (OptionValue_serialize k, OptionValue_serialize v)) entries)"

record RoutingRule =
  rr_prefix :: string
  rr_chain :: "string list"
  rr_name :: string
  rr_options :: "(string \<times> OptionValue) list"

record RoutingConfig =
  rt_default_chain :: "string list"
  rt_rules :: "RoutingRule list"

record SmppConfig =
  cf_server :: ServerConfig
  cf_binds :: "BindConfig list"
  cf_routing :: RoutingConfig
  cf_bind_address :: "string option"
  cf_port :: "u16 option"

text \<open>A document that does not fit: where in it, and what the parser said.\<close>

record YamlError =
  ye_key_path :: string
  ye_source :: string

definition YamlError_display :: "YamlError \<Rightarrow> string" where
  "YamlError_display e =
     (if ye_key_path e = [] \<or> ye_key_path e = ''.'' then ye_source e
      else ye_key_path e @ '': '' @ ye_source e)"

datatype ConfigError =
    Read string string
  | Parse string YamlError
  | EnvBindMissing string string
  | EnvBindInvalid string string string parse_int_error

section \<open>Defaults\<close>

definition default_session_init :: u64 where "default_session_init = 5000"
definition default_enquire_link :: u64 where "default_enquire_link = 30000"
definition default_inactivity :: u64 where "default_inactivity = 300000"
definition default_response :: u64 where "default_response = 30000"
definition default_bind_type :: string where "default_bind_type = ''transceiver''"

text \<open>The derived \<open>Default\<close>: what a document without a \<open>server:\<close> section gets.\<close>

definition ServerConfig_default :: ServerConfig where
  "ServerConfig_default = \<lparr>sv_bind_address = None, sv_port = None, sv_session_init_timer_ms = 0,
     sv_enquire_link_timer_ms = 0, sv_inactivity_timer_ms = 0, sv_response_timer_ms = 0,
     sv_max_msg_per_sec = 0, sv_throttle_action = Pace, sv_tls = None\<rparr>"

text \<open>The derived deserialiser of the section, from the fields the document has.\<close>

definition ServerConfig_of_fields ::
  "string option \<Rightarrow> u16 option \<Rightarrow> u64 option \<Rightarrow> u64 option \<Rightarrow> u64 option \<Rightarrow> u64 option \<Rightarrow>
   u32 option \<Rightarrow> ThrottleAction option \<Rightarrow> TlsConfig option \<Rightarrow> ServerConfig" where
  "ServerConfig_of_fields addr port init enquire inactivity resp mps action tls =
     \<lparr>sv_bind_address = addr, sv_port = port,
      sv_session_init_timer_ms = unwrap_or default_session_init init,
      sv_enquire_link_timer_ms = unwrap_or default_enquire_link enquire,
      sv_inactivity_timer_ms = unwrap_or default_inactivity inactivity,
      sv_response_timer_ms = unwrap_or default_response resp,
      sv_max_msg_per_sec = unwrap_or 0 mps,
      sv_throttle_action = unwrap_or Pace action, sv_tls = tls\<rparr>"

primrec as_str :: "ThrottleAction \<Rightarrow> string" where
  "as_str Pace = ''pace''"
| "as_str Reject = ''reject''"

text \<open>The names \<open>SMPP_SERVER_THROTTLE_ACTION\<close> may have.\<close>

definition throttle_action_named :: "string \<Rightarrow> ThrottleAction option" where
  "throttle_action_named s =
     (if s = ''pace'' then Some Pace else if s = ''reject'' then Some Reject else None)"

interpretation throttle_names: name_table as_str throttle_action_named
proof unfold_locales
  fix a show "throttle_action_named (as_str a) = Some a"
    by (cases a) (simp_all add: throttle_action_named_def)
qed

definition listen :: "SmppConfig \<Rightarrow> string \<times> u16" where
  "listen c =
     (unwrap_or ''0.0.0.0'' (case sv_bind_address (cf_server c) of
        Some a \<Rightarrow> Some a | None \<Rightarrow> cf_bind_address c),
      unwrap_or 2775 (case sv_port (cf_server c) of Some p \<Rightarrow> Some p | None \<Rightarrow> cf_port c))"

definition string_or_null :: "string option \<Rightarrow> string" where
  "string_or_null s = unwrap_or [] s"

definition strings_or_null :: "string option list \<Rightarrow> string list" where
  "strings_or_null ss = map (unwrap_or []) ss"

section \<open>Environment\<close>

type_synonym env = "(string \<times> string) list"

definition env_var :: "env \<Rightarrow> string \<Rightarrow> string option" where
  "env_var env name = map_of env name"

text \<open>\<open>${VAR}\<close> and \<open>${VAR:-default}\<close>, expanded from left to right.\<close>

function expand_env_vars :: "env \<Rightarrow> string \<Rightarrow> string" where
  "expand_env_vars env rest =
     (case find_str ''${'' rest of
        None \<Rightarrow> rest
      | Some pos \<Rightarrow>
          let after = drop (pos + 2) rest in
          take pos rest @
          (case find_str ''}'' after of
             None \<Rightarrow> ''${'' @ expand_env_vars env after
           | Some e \<Rightarrow>
               let spec = take e after;
                   (name, dflt) = (case split_once '':-'' spec of
                     Some (n, d) \<Rightarrow> (n, Some d) | None \<Rightarrow> (spec, None));
                   v = (case env_var env name of Some v \<Rightarrow> v | None \<Rightarrow> unwrap_or [] dflt)
               in v @ expand_env_vars env (drop (e + 1) after)))"
  by pat_completeness auto
termination
  by (relation "measure (\<lambda>(env, rest). length rest)") (auto dest!: find_str_Some)

declare expand_env_vars.simps [simp del]

section \<open>Binds from the environment\<close>

fun bt_insert :: "string \<Rightarrow> 'v \<Rightarrow> (string \<times> 'v) list \<Rightarrow> (string \<times> 'v) list" where
  "bt_insert k v [] = [(k, v)]"
| "bt_insert k v ((j, w) # m) =
     (if k = j then (j, v) # m else if k < j then (k, v) # (j, w) # m else (j, w) # bt_insert k v m)"

definition bind_var :: "(string \<Rightarrow> string) \<Rightarrow> string \<Rightarrow> (string \<times> string) option" where
  "bind_var lower key =
     (case strip_prefix ''SMPP_BIND_'' key of
        None \<Rightarrow> None
      | Some rest \<Rightarrow>
          (case find_str ''_'' rest of
             None \<Rightarrow> None
           | Some idx \<Rightarrow> Some (lower (take idx rest), drop (idx + 1) rest)))"

definition group_var ::
  "(string \<Rightarrow> string) \<Rightarrow> (string \<times> (string \<times> string) list) list \<Rightarrow> string \<times> string \<Rightarrow>
   (string \<times> (string \<times> string) list) list" where
  "group_var lower by_name kv =
     (case bind_var lower (fst kv) of
        None \<Rightarrow> by_name
      | Some (name, field) \<Rightarrow>
          bt_insert name (bt_insert field (snd kv) (unwrap_or [] (map_of by_name name))) by_name)"

definition require_field :: "string \<Rightarrow> (string \<times> string) list \<Rightarrow> string \<Rightarrow> (ConfigError, string) result" where
  "require_field name fs f =
     (case map_of fs f of
        Some v \<Rightarrow> if v \<noteq> [] then Inr v else Inl (EnvBindMissing name f)
      | None \<Rightarrow> Inl (EnvBindMissing name f))"

definition parse_u :: "string \<Rightarrow> (string \<times> string) list \<Rightarrow> string \<Rightarrow> u64 \<Rightarrow> (ConfigError, u64) result" where
  "parse_u name fs f dflt =
     (case map_of fs f of
        Some v \<Rightarrow>
          if v \<noteq> [] then
            (case parse_uint 64 v of
               Inr n \<Rightarrow> Inr (of_nat n)
             | Inl e \<Rightarrow> Inl (EnvBindInvalid name f v e))
          else Inr dflt
      | None \<Rightarrow> Inr dflt)"

text \<open>One bind: \<open>None\<close> when the discovery signal is missing.\<close>

definition bind_of_fields ::
  "(string \<Rightarrow> string) \<Rightarrow> string \<Rightarrow> (string \<times> string) list \<Rightarrow> (ConfigError, BindConfig option) result" where
  "bind_of_fields lower name fs =
     (case map_of fs ''HOST'' of
        None \<Rightarrow> Inr None
      | Some host \<Rightarrow>
          if host = [] then Inr None else
          rbind (parse_u name fs ''PORT'' 2775) (\<lambda>port.
          rbind (parse_u name fs ''MAX_MPS'' 0) (\<lambda>mps.
          let tls_on = (case map_option (\<lambda>v. lower (trim v)) (map_of fs ''TLS'') of
                Some v \<Rightarrow> v = ''true'' \<or> v = ''1'' \<or> v = ''yes'' \<or> v = ''on'' | None \<Rightarrow> False) in
          rbind (require_field name fs ''SYSTEM_ID'') (\<lambda>system_id.
          rbind (require_field name fs ''PASSWORD'') (\<lambda>password.
          rbind (parse_u name fs ''ENQUIRE_LINK_MS'' default_enquire_link) (\<lambda>enquire.
          rbind (parse_u name fs ''RESPONSE_MS'' default_response) (\<lambda>resp.
          Inr (Some \<lparr>bc_name = name, bc_host = host, bc_port = ucast port, bc_system_id = system_id,
             bc_password = password,
             bc_system_type = unwrap_or [] (map_of fs ''SYSTEM_TYPE''),
             bc_bind_type = unwrap_or default_bind_type (map_of fs ''BIND_TYPE''),
             bc_max_msg_per_sec = ucast mps, bc_enquire_link_timer_ms = enquire,
             bc_response_timer_ms = resp,
             bc_tls = (if tls_on then Some \<lparr>cert_path = [], key_path = [], ca_path = None\<rparr> else None)\<rparr>)))))))
     )"

fun binds_of_groups ::
  "(string \<Rightarrow> string) \<Rightarrow> (string \<times> (string \<times> string) list) list \<Rightarrow> (ConfigError, BindConfig list) result" where
  "binds_of_groups lower [] = Inr []"
| "binds_of_groups lower ((name, fs) # gs) =
     rbind (bind_of_fields lower name fs) (\<lambda>b.
     rbind (binds_of_groups lower gs) (\<lambda>bs.
     Inr (case b of None \<Rightarrow> bs | Some x \<Rightarrow> x # bs)))"

definition binds_from_env :: "(string \<Rightarrow> string) \<Rightarrow> env \<Rightarrow> (ConfigError, BindConfig list) result" where
  "binds_from_env lower env = binds_of_groups lower (foldl (group_var lower) [] env)"

section \<open>Loading a file\<close>

text \<open>
  The YAML library is given options (those the code sets; \<open>pass_through\<close> is its policy for floats
  that are not finite) and the text; it gives the value, or its error with the key path where
  a field did not fit. Snippets are off so that an error cannot quote a password.
\<close>

record SaphyrOptions =
  with_snippet :: bool
  strict_booleans :: bool
  pass_through :: bool

type_synonym saphyr = "SaphyrOptions \<Rightarrow> string \<Rightarrow> (string option \<times> string, SmppConfig) result"

definition yaml_options :: SaphyrOptions where
  "yaml_options = \<lparr>with_snippet = False, strict_booleans = True, pass_through = True\<rparr>"

definition from_yaml :: "saphyr \<Rightarrow> string \<Rightarrow> (YamlError, SmppConfig) result" where
  "from_yaml saphyr yaml =
     map_err (\<lambda>(path, source). \<lparr>ye_key_path = unwrap_or [] path, ye_source = source\<rparr>) (saphyr yaml_options yaml)"

definition from_file ::
  "saphyr \<Rightarrow> (string \<Rightarrow> string) \<Rightarrow> env \<Rightarrow> string \<Rightarrow>
   (string, string) result \<Rightarrow> (ConfigError, SmppConfig) result" where
  "from_file saphyr lower env path contents =
     rbind (map_err (Read path) contents) (\<lambda>raw.
     let expanded = expand_env_vars env raw in
     rbind (map_err (Parse path) (from_yaml saphyr expanded)) (\<lambda>cfg.
     rbind (binds_from_env lower env) (\<lambda>extra.
     let cfg = cfg\<lparr>cf_binds := cf_binds cfg @ extra\<rparr>;
         cfg = (case env_var env ''SMPP_DEFAULT_CHAIN'' of
           None \<Rightarrow> cfg
         | Some raw \<Rightarrow>
             cfg\<lparr>cf_routing := (cf_routing cfg)
               \<lparr>rt_default_chain := filter (\<lambda>s. s \<noteq> []) (map trim (split_char (CHR '','') raw))\<rparr>\<rparr>);
         cfg = (case env_var env ''SMPP_SERVER_MAX_MPS'' of
           None \<Rightarrow> cfg
         | Some raw \<Rightarrow>
             (case parse_uint 32 (trim raw) of
                Inr mps \<Rightarrow> cfg\<lparr>cf_server := (cf_server cfg)\<lparr>sv_max_msg_per_sec := of_nat mps\<rparr>\<rparr>
              | Inl _ \<Rightarrow> cfg));
         cfg = (case env_var env ''SMPP_SERVER_THROTTLE_ACTION'' of
           None \<Rightarrow> cfg
         | Some raw \<Rightarrow>
             (case throttle_action_named (lower (trim raw)) of
                Some a \<Rightarrow> cfg\<lparr>cf_server := (cf_server cfg)\<lparr>sv_throttle_action := a\<rparr>\<rparr>
              | None \<Rightarrow> cfg))
     in Inr cfg)))"

section \<open>The script's view\<close>

datatype cval = CStr string | CInt nat | CList "cval list" | CDict "(string \<times> cval) list"

definition bind_dict :: "BindConfig \<Rightarrow> cval" where
  "bind_dict b = CDict
     [(''name'', CStr (bc_name b)), (''host'', CStr (bc_host b)), (''port'', CInt (unat (bc_port b))),
      (''system_id'', CStr (bc_system_id b)), (''system_type'', CStr (bc_system_type b)),
      (''bind_type'', CStr (bc_bind_type b)), (''max_msg_per_sec'', CInt (unat (bc_max_msg_per_sec b)))]"

definition rule_dict :: "(OptionValue \<Rightarrow> string option) \<Rightarrow> RoutingRule \<Rightarrow> cval" where
  "rule_dict to_yaml r = CDict
     [(''prefix'', CStr (rr_prefix r)), (''name'', CStr (rr_name r)),
      (''chain'', CList (map CStr (rr_chain r))),
      (''options'', CDict (map (\<lambda>(k, v). (k, CStr (unwrap_or [] (to_yaml v)))) (rr_options r)))]"

definition build_config_dict :: "(OptionValue \<Rightarrow> string option) \<Rightarrow> SmppConfig \<Rightarrow> cval" where
  "build_config_dict to_yaml cfg =
     (let (host, port) = listen cfg; s = cf_server cfg in
      CDict
       [(''server'', CDict
          [(''bind_address'', CStr host), (''port'', CInt (unat port)),
           (''session_init_timer_ms'', CInt (unat (sv_session_init_timer_ms s))),
           (''enquire_link_timer_ms'', CInt (unat (sv_enquire_link_timer_ms s))),
           (''inactivity_timer_ms'', CInt (unat (sv_inactivity_timer_ms s))),
           (''response_timer_ms'', CInt (unat (sv_response_timer_ms s))),
           (''max_msg_per_sec'', CInt (unat (sv_max_msg_per_sec s))),
           (''throttle_action'', CStr (as_str (sv_throttle_action s)))]),
        (''binds'', CList (map bind_dict (cf_binds cfg))),
        (''routing'', CDict
          [(''default_chain'', CList (map CStr (rt_default_chain (cf_routing cfg)))),
           (''rules'', CList (map (rule_dict to_yaml) (rt_rules (cf_routing cfg))))])])"

section \<open>Lemmas\<close>

text \<open>Options lose nothing when they are written back as YAML.\<close>

lemma OptionValue_roundtrip: "OptionValue_deserialize (OptionValue_serialize v) = v"
  by (induction v rule: OptionValue_serialize.induct)
    (auto simp: map_idI comp_def split: prod.splits intro!: map_idI)

lemma find_str_pair:
  assumes "a \<noteq> b" and "find_str [a, b] l = None"
  shows "find_str [a, b] (l @ a # b # r) = Some (length l)"
  using assms(2)
proof (induction l)
  case Nil
  then show ?case by (simp add: starts_with_def)
next
  case (Cons c l)
  then have "\<not> starts_with [a, b] (c # l)" and IH: "find_str [a, b] (l @ a # b # r) = Some (length l)"
    by (auto split: if_splits)
  then have "\<not> starts_with [a, b] (c # l @ a # b # r)"
    using assms(1) by (cases l) (auto simp: starts_with_def split: if_splits)
  with IH show ?case by simp
qed

lemma find_str_single:
  "c \<notin> set l \<Longrightarrow> find_str [c] (l @ c # r) = Some (length l)"
  by (induction l) (auto simp: starts_with_def)

text \<open>
  The reference: a template is literal text, references and a trailing literal; its
  expansion substitutes each reference and nothing else.
\<close>

type_synonym template = "(string \<times> string \<times> string option) list \<times> string"

definition ref_spec :: "string \<Rightarrow> string option \<Rightarrow> string" where
  "ref_spec n d = (case d of None \<Rightarrow> n | Some x \<Rightarrow> n @ '':-'' @ x)"

definition render :: "template \<Rightarrow> string" where
  "render t = concat (map (\<lambda>(l, n, d). l @ ''${'' @ ref_spec n d @ ''}'') (fst t)) @ snd t"

definition subst :: "env \<Rightarrow> template \<Rightarrow> string" where
  "subst env t = concat (map (\<lambda>(l, n, d).
     l @ (case env_var env n of Some v \<Rightarrow> v | None \<Rightarrow> unwrap_or [] d)) (fst t)) @ snd t"

definition template_ok :: "template \<Rightarrow> bool" where
  "template_ok t \<longleftrightarrow> find_str ''${'' (snd t) = None \<and>
     list_all (\<lambda>(l, n, d). find_str ''${'' l = None \<and> find_str '':-'' n = None
       \<and> CHR ''}'' \<notin> set (ref_spec n d)) (fst t)"

lemma expand_ref:
  assumes "find_str ''${'' l = None" "find_str '':-'' n = None" "CHR ''}'' \<notin> set (ref_spec n d)"
  shows "expand_env_vars env (l @ ''${'' @ ref_spec n d @ ''}'' @ r) =
    l @ (case env_var env n of Some v \<Rightarrow> v | None \<Rightarrow> unwrap_or [] d) @ expand_env_vars env r"
proof -
  have "find_str ''${'' (l @ ''${'' @ ref_spec n d @ ''}'' @ r) = Some (length l)"
    using find_str_pair[OF _ assms(1)] by simp
  moreover have "find_str ''}'' (ref_spec n d @ ''}'' @ r) = Some (length (ref_spec n d))"
    using find_str_single[OF assms(3)] by simp
  moreover have "split_once '':-'' (ref_spec n d) = map_option (\<lambda>x. (n, x)) d"
    using find_str_pair[OF _ assms(2)] assms(2) by (cases d) (simp_all add: split_once_def ref_spec_def)
  ultimately show ?thesis
    by (subst expand_env_vars.simps) (auto simp: Let_def ref_spec_def[of n None] split: option.split)
qed

lemma expand_template:
  "template_ok (rs, tail) \<Longrightarrow> expand_env_vars env (render (rs, tail)) = subst env (rs, tail)"
proof (induction rs)
  case Nil
  then show ?case
    by (simp add: template_ok_def render_def subst_def expand_env_vars.simps[of env tail])
next
  case (Cons s rs)
  obtain l n d where s: "s = (l, n, d)" by (cases s)
  have "render (s # rs, tail) = l @ ''${'' @ ref_spec n d @ ''}'' @ render (rs, tail)"
    by (simp add: render_def s)
  then show ?case
    using Cons expand_ref[of l n d env "render (rs, tail)"]
    by (simp add: template_ok_def subst_def s)
qed

lemma bt_insert_sorted:
  "sorted_wrt (<) (map fst m) \<Longrightarrow>
   sorted_wrt (<) (map fst (bt_insert k v m)) \<and> fst ` set (bt_insert k v m) = insert k (fst ` set m)"
  by (induction k v m rule: bt_insert.induct) (auto intro: order.strict_trans)

lemma group_var_sorted:
  "sorted_wrt (<) (map fst m) \<Longrightarrow> sorted_wrt (<) (map fst (group_var lower m kv))"
  by (auto simp: group_var_def bt_insert_sorted split: option.split)

lemma groups_sorted: "sorted_wrt (<) (map fst (foldl (group_var lower) [] env))"
proof -
  have "sorted_wrt (<) (map fst m) \<Longrightarrow> sorted_wrt (<) (map fst (foldl (group_var lower) m env))" for m
    by (induction env arbitrary: m) (simp_all add: group_var_sorted)
  then show ?thesis by simp
qed

lemma bind_of_fields_Some:
  assumes "bind_of_fields lower name fs = Inr (Some b)"
  shows "bc_name b = name \<and> bc_host b \<noteq> [] \<and> bc_system_id b \<noteq> [] \<and> bc_password b \<noteq> []"
  using assms
  by (auto simp: bind_of_fields_def require_field_def Let_def result_iffs split: option.splits if_splits)

lemma binds_of_groups_sound:
  "binds_of_groups lower gs = Inr bs \<Longrightarrow> sorted_wrt (<) (map fst gs) \<Longrightarrow>
   sorted_wrt (<) (map bc_name bs) \<and> bc_name ` set bs \<subseteq> fst ` set gs \<and>
   list_all (\<lambda>b. bc_host b \<noteq> [] \<and> bc_system_id b \<noteq> [] \<and> bc_password b \<noteq> []) bs"
proof (induction lower gs arbitrary: bs rule: binds_of_groups.induct)
  case (2 lower name fs gs)
  then obtain b bs' where b: "bind_of_fields lower name fs = Inr b"
    and bs': "binds_of_groups lower gs = Inr bs'" and bs: "bs = (case b of None \<Rightarrow> bs' | Some x \<Rightarrow> x # bs')"
    by (auto simp: result_iffs)
  from "2.IH"[OF bs'] "2.prems"(2) show ?case
    using b by (cases b) (fastforce simp: bs subset_eq image_iff dest!: bind_of_fields_Some)+
qed simp

section \<open>Properties\<close>

text \<open>
  C38. Environment references expand as documented, in one pass: in a template of literals
  and references \<open>${VAR}\<close> or \<open>${VAR:-default}\<close>, each reference becomes the variable's value,
  else the default, else nothing; the literals are untouched and a value is never itself
  expanded again.
\<close>

theorem expand_env_vars_template:
  assumes "template_ok t"
  shows "expand_env_vars env (render t) = subst env t"
  using expand_template[of "fst t" "snd t"] assms by simp

theorem expand_env_vars_template_witness:
  "expand_env_vars [(''PW'', ''a${B}'')] ''password: ${PW} host: ${H:-localhost}!'' =
     ''password: a${B} host: localhost!''"
proof -
  have "template_ok ([(''password: '', ''PW'', None), ('' host: '', ''H'', Some ''localhost'')], ''!'')"
    by code_simp
  from expand_env_vars_template[OF this, of "[(''PW'', ''a${B}'')]"] show ?thesis
    by (simp add: render_def subst_def ref_spec_def env_var_def)
qed

text \<open>
  Binds discovered in the environment are usable and unambiguous: each has a non-empty
  host, system id and password, and they come in strictly increasing order of their names,
  so no name is configured twice.
\<close>

theorem env_binds_well_formed:
  assumes "binds_from_env lower env = Inr bs"
  shows "sorted_wrt (<) (map bc_name bs) \<and>
    list_all (\<lambda>b. bc_host b \<noteq> [] \<and> bc_system_id b \<noteq> [] \<and> bc_password b \<noteq> []) bs"
  using binds_of_groups_sound[OF assms[unfolded binds_from_env_def] groups_sorted] by simp

text \<open>An environment that declares one bind.\<close>

definition sample_env_binds :: env where
  "sample_env_binds =
     [(''PATH'', ''/bin''), (''SMPP_BIND_EU_HOST'', ''smsc''), (''SMPP_BIND_EU_SYSTEM_ID'', ''me''),
      (''SMPP_BIND_EU_PASSWORD'', ''pw''), (''SMPP_BIND_EU_PORT'', ''70000''),
      (''SMPP_BIND_EU_MAX_MPS'', ''4294967296'')]"

lemma sample_env_binds_result:
  "binds_from_env to_ascii_lowercase sample_env_binds = Inr
     [\<lparr>bc_name = ''eu'', bc_host = ''smsc'', bc_port = 4464, bc_system_id = ''me'', bc_password = ''pw'',
       bc_system_type = [], bc_bind_type = ''transceiver'', bc_max_msg_per_sec = 0,
       bc_enquire_link_timer_ms = 30000, bc_response_timer_ms = 30000, bc_tls = None\<rparr>]"
proof -
  have "foldl (group_var to_ascii_lowercase) [] sample_env_binds =
      [(''eu'', [(''HOST'', ''smsc''), (''MAX_MPS'', ''4294967296''), (''PASSWORD'', ''pw''),
        (''PORT'', ''70000''), (''SYSTEM_ID'', ''me'')])]"
    by code_simp
  moreover have "parse_uint 64 ''70000'' = Inr 70000" "parse_uint 64 ''4294967296'' = Inr 4294967296"
    by (simp_all add: parse_uint_def)
  ultimately show ?thesis
    by (simp add: binds_from_env_def bind_of_fields_def parse_u_def require_field_def
        default_bind_type_def default_enquire_link_def default_response_def Let_def)
qed

theorem env_binds_well_formed_witness:
  "\<exists>bs. binds_from_env to_ascii_lowercase sample_env_binds = Inr bs \<and> length bs = 1
     \<and> sorted_wrt (<) (map bc_name bs)"
  using env_binds_well_formed[OF sample_env_binds_result] sample_env_binds_result by simp

text \<open>
  A numeric field of an environment bind is parsed as 64 bits and then cut to the field's
  width without a range check: port 70000 becomes 4464, and a rate cap of 4294967296
  messages per second becomes 0, which means unlimited.
\<close>

theorem env_bind_numbers_wrap:
  "map_sum id (map (\<lambda>b. (bc_port b, bc_max_msg_per_sec b)))
     (binds_from_env to_ascii_lowercase sample_env_binds) = Inr [(4464, 0)]"
  by (simp add: sample_env_binds_result)

text \<open>
  The name of an environment bind ends at the first underscore: variables for a name with
  an underscore in it are grouped under its first part, whose host is never found, and the
  bind is silently not configured.
\<close>

theorem env_bind_name_with_underscore_ignored:
  "binds_from_env to_ascii_lowercase
     [(''SMPP_BIND_AGGREGATOR_EU_HOST'', ''smsc''), (''SMPP_BIND_AGGREGATOR_EU_SYSTEM_ID'', ''me''),
      (''SMPP_BIND_AGGREGATOR_EU_PASSWORD'', ''pw'')] = Inr []" (is "binds_from_env _ ?env = _")
proof -
  have "foldl (group_var to_ascii_lowercase) [] ?env =
      [(''aggregator'', [(''EU_HOST'', ''smsc''), (''EU_PASSWORD'', ''pw''), (''EU_SYSTEM_ID'', ''me'')])]"
    by code_simp
  then show ?thesis by (simp add: binds_from_env_def bind_of_fields_def)
qed

text \<open>
  The documented timer defaults apply only inside a \<open>server:\<close> section: an empty section
  gets them, a document without the section gets zero for every timer.
\<close>

theorem missing_server_section_has_zero_timers:
  "(let s = ServerConfig_of_fields None None None None None None None None None in
      (sv_session_init_timer_ms s, sv_enquire_link_timer_ms s, sv_inactivity_timer_ms s,
       sv_response_timer_ms s)) = (5000, 30000, 300000, 30000)
   \<and> (let s = ServerConfig_default in
      (sv_session_init_timer_ms s, sv_enquire_link_timer_ms s, sv_inactivity_timer_ms s,
       sv_response_timer_ms s)) = (0, 0, 0, 0)"
  by (simp add: ServerConfig_of_fields_def ServerConfig_default_def default_session_init_def
      default_enquire_link_def default_inactivity_def default_response_def)

text \<open>
  The configuration a script can read never depends on a bind password: replacing every
  password leaves \<open>siphon.smpp.config()\<close> unchanged.
\<close>

theorem config_dict_hides_passwords:
  "build_config_dict to_yaml
     (cfg\<lparr>cf_binds := map (\<lambda>b. b\<lparr>bc_password := pw b\<rparr>) (cf_binds cfg)\<rparr>) =
   build_config_dict to_yaml cfg"
proof -
  have "bind_dict (b\<lparr>bc_password := x\<rparr>) = bind_dict b" for b x
    by (simp add: bind_dict_def)
  then show ?thesis
    by (simp add: build_config_dict_def listen_def comp_def Let_def cong: option.case_cong)
qed

end
