(* ===== verification/Smpp_State.thy ===== *)
theory Smpp_State
  imports Smpp_Outcome Smpp_Dispatch Smpp_Metrics Smpp_Limiter Smpp_Config
begin

text \<open>
  The runtime's shared state (\<open>State\<close>, \<open>BindSession\<close>, \<open>EsmeSession\<close> in
  \<open>src/src/runtime.rs\<close>) and the session registries in it. An \<open>Arc\<close> is an address: session
  handles are numbered as they are allocated, the rate limiters are cells of a list. Beside
  the fields of the code the state records what the runtime does to the outside: the
  metrics calls, the session events dispatched, the unbinds sent.
\<close>

section \<open>Sessions\<close>

text \<open>The codec's session handles, with the fields the sources read.\<close>

record SMSC =
  smsc_session_id :: string
  smsc_system_id :: string
  smsc_server_address :: string

record ESME =
  esme_session_id :: string
  esme_system_id :: string
  esme_client_address :: string
  esme_can_receive :: bool

record BindSession =
  bs_name :: string
  bs_smsc :: SMSC
  bs_ptr :: nat
  bs_throttle :: "nat option"
  bs_response_timer :: nat

record EsmeSession =
  es_esme :: ESME
  es_ptr :: nat
  es_throttle :: "nat option"
  es_response_timer :: nat

section \<open>State\<close>

record State =
  st_binds :: "BindSession list"
  st_esmes :: "EsmeSession list"
  st_inbound_max_mps :: u32
  st_throttle_action :: ThrottleAction
  st_inbound_response_timer :: nat
  st_listen_failure :: "string option"
  st_metrics :: metrics
  st_limiters :: "Bucket list"
  st_next_ptr :: nat
  st_events :: "(string \<times> Session \<times> session_event list) list"
  st_unbinds :: "nat list"

text \<open>Milliseconds, in nanoseconds.\<close>

definition from_millis :: "u64 \<Rightarrow> nat" where
  "from_millis ms = unat ms * 1000000"

text \<open>The state \<open>spawn\<close> builds from the configuration.\<close>

definition spawn_state :: "SmppConfig \<Rightarrow> metrics \<Rightarrow> State" where
  "spawn_state cfg m =
     \<lparr>st_binds = [], st_esmes = [],
      st_inbound_max_mps = sv_max_msg_per_sec (cf_server cfg),
      st_throttle_action = sv_throttle_action (cf_server cfg),
      st_inbound_response_timer = from_millis (sv_response_timer_ms (cf_server cfg)),
      st_listen_failure = None, st_metrics = register_all m, st_limiters = [], st_next_ptr = 0,
      st_events = [], st_unbinds = []\<rparr>"

definition count :: "(metrics \<Rightarrow> metrics) \<Rightarrow> State \<Rightarrow> State" where
  "count f st = st\<lparr>st_metrics := f (st_metrics st)\<rparr>"

text \<open>\<open>(rate > 0).then(|| Arc::new(RateLimiter::new(rate)))\<close>\<close>

definition new_limiter :: "u32 \<Rightarrow> nat \<Rightarrow> State \<Rightarrow> nat option \<times> State" where
  "new_limiter rate now st =
     (if 0 < rate
      then (Some (length (st_limiters st)),
            st\<lparr>st_limiters := st_limiters st @ [RateLimiter_new rate now]\<rparr>)
      else (None, st))"

definition dispatch_session_event :: "'c script_env \<Rightarrow> string \<Rightarrow> Session \<Rightarrow> State \<Rightarrow> State" where
  "dispatch_session_event env event s st =
     st\<lparr>st_events := st_events st @ [(event, s, dispatch_session env event s)]\<rparr>"

definition bind_gone :: "BindSession list \<Rightarrow> nat \<Rightarrow> bool" where
  "bind_gone binds smsc \<longleftrightarrow> \<not> list_ex (\<lambda>b. bs_ptr b = smsc) binds"

definition esme_gone :: "EsmeSession list \<Rightarrow> nat \<Rightarrow> bool" where
  "esme_gone esmes esme \<longleftrightarrow> \<not> list_ex (\<lambda>e. es_ptr e = esme) esmes"

definition find_bind_session :: "string \<Rightarrow> BindSession list \<Rightarrow> BindSession option" where
  "find_bind_session sid binds = find (\<lambda>b. smsc_session_id (bs_smsc b) = sid) binds"

definition find_esme :: "string \<Rightarrow> EsmeSession list \<Rightarrow> EsmeSession option" where
  "find_esme sid esmes = find (\<lambda>e. esme_session_id (es_esme e) = sid) esmes"

definition retain_binds :: "string \<Rightarrow> BindSession list \<Rightarrow> BindSession list" where
  "retain_binds sid binds = filter (\<lambda>b. smsc_session_id (bs_smsc b) \<noteq> sid) binds"

definition retain_esmes :: "string \<Rightarrow> EsmeSession list \<Rightarrow> EsmeSession list" where
  "retain_esmes sid esmes = filter (\<lambda>e. esme_session_id (es_esme e) \<noteq> sid) esmes"

section \<open>The registry contract\<close>

text \<open>
  What the runtime relies on of a session list: sessions are looked up by id and asked
  after by handle. Abstractly it is a map from ids to sessions.
\<close>

datatype 's change = Bound 's | Unbound string

locale session_registry =
  fixes sid :: "'s \<Rightarrow> string"
    and handle :: "'s \<Rightarrow> nat"
    and add :: "'s \<Rightarrow> 's list \<Rightarrow> 's list"
    and forget :: "string \<Rightarrow> 's list \<Rightarrow> 's list"
    and lookup :: "string \<Rightarrow> 's list \<Rightarrow> 's option"
    and gone :: "'s list \<Rightarrow> nat \<Rightarrow> bool"
  assumes lookup_Nil: "lookup k [] = None"
    and lookup_add: "lookup k (add s xs) =
      (case lookup k xs of Some x \<Rightarrow> Some x | None \<Rightarrow> if sid s = k then Some s else None)"
    and lookup_forget: "lookup k (forget j xs) = (if k = j then None else lookup k xs)"
    and set_add: "set (add s xs) = insert s (set xs)"
    and set_forget: "set (forget k xs) = {s \<in> set xs. sid s \<noteq> k}"
    and gone_iff: "gone xs p \<longleftrightarrow> p \<notin> handle ` set xs"
begin

fun change :: "'s list \<Rightarrow> 's change \<Rightarrow> 's list" where
  "change xs (Bound s) = add s xs"
| "change xs (Unbound k) = forget k xs"

text \<open>
  The abstract directory. A session that binds under an id still in use does not displace
  the older one.
\<close>

fun abs_change :: "(string \<rightharpoonup> 's) \<Rightarrow> 's change \<Rightarrow> (string \<rightharpoonup> 's)" where
  "abs_change m (Bound s) = [sid s \<mapsto> s] ++ m"
| "abs_change m (Unbound k) = m(k := None)"

lemma refines_step: "(\<lambda>k. lookup k (change xs c)) = abs_change (\<lambda>k. lookup k xs) c"
  by (cases c) (auto simp: lookup_add lookup_forget fun_eq_iff map_add_def split: option.split)

text \<open>A handle is gone once its session is unbound, and stays gone while handles are not reused.\<close>

lemma gone_unbound:
  assumes "\<And>s'. s' \<in> set xs \<Longrightarrow> handle s' = p \<Longrightarrow> sid s' = k"
  shows "gone (change xs (Unbound k)) p"
  using assms by (auto simp: gone_iff set_forget)

lemma gone_change:
  assumes "gone xs p" and "\<And>s. c = Bound s \<Longrightarrow> handle s \<noteq> p"
  shows "gone (change xs c) p"
  using assms by (cases c) (auto simp: gone_iff set_add set_forget)

end

lemma find_filter_other:
  "find (\<lambda>x. f x = k) (filter (\<lambda>x. f x \<noteq> j) xs) = (if k = j then None else find (\<lambda>x. f x = k) xs)"
  by (induction xs) auto

lemma find_snoc:
  "find P (xs @ [s]) = (case find P xs of Some x \<Rightarrow> Some x | None \<Rightarrow> if P s then Some s else None)"
  by (induction xs) auto

lemmas registry_defs = find_bind_session_def find_esme_def retain_binds_def retain_esmes_def
  bind_gone_def esme_gone_def

interpretation binds: session_registry
  "\<lambda>b. smsc_session_id (bs_smsc b)" bs_ptr "\<lambda>b bs. bs @ [b]" retain_binds find_bind_session bind_gone
  by unfold_locales
    (auto simp: registry_defs find_filter_other find_snoc list_ex_iff split: option.splits)

interpretation esmes: session_registry
  "\<lambda>e. esme_session_id (es_esme e)" es_ptr "\<lambda>e es. es @ [e]" retain_esmes find_esme esme_gone
  by unfold_locales
    (auto simp: registry_defs find_filter_other find_snoc list_ex_iff split: option.splits)

end
