(* ===== verification/Smpp_Server.thy ===== *)
theory Smpp_Server
  imports Smpp_State
begin

text \<open>
  The server side (\<open>impl SmppServerListener for State\<close> in \<open>src/src/runtime.rs\<close>): what the
  runtime does with each request of a bound ESME, and the response it sends. A response is
  the codec call that builds it; whether the codec counts it as a success
  (\<open>is_success\<close>) is a parameter. A handler that paces may still be asleep when the clock
  readings it was given end: the result is then \<open>None\<close>.
\<close>

section \<open>Responses\<close>

datatype accept_body =
    AcceptPlain
  | AcceptId string
  | AcceptMulti string "string list"
  | AcceptQuery string string u8 u8
  | AcceptBind string "u8 option"

text \<open>\<open>request.accept(\<dots>)\<close> or \<open>request.reject(status)\<close>, and the parameters pushed onto it.\<close>

datatype resp = Accept accept_body "Tlv list" | RejectWith SmppError "Tlv list"

primrec resp_tlvs :: "resp \<Rightarrow> Tlv list" where
  "resp_tlvs (Accept b ts) = ts"
| "resp_tlvs (RejectWith s ts) = ts"

abbreviation accept :: "accept_body \<Rightarrow> resp" where "accept b \<equiv> Accept b []"
abbreviation reject :: "SmppError \<Rightarrow> resp" where "reject s \<equiv> RejectWith s []"

primrec push_tlv :: "Tlv \<Rightarrow> resp \<Rightarrow> resp" where
  "push_tlv t (Accept b ts) = Accept b (ts @ [t])"
| "push_tlv t (RejectWith s ts) = RejectWith s (ts @ [t])"

definition with_resp_tlvs :: "resp \<Rightarrow> Tlv list \<Rightarrow> resp" where
  "with_resp_tlvs r ts = foldl (\<lambda>r t. push_tlv t r) r ts"

definition submit_sm_response :: "PduReply \<Rightarrow> resp" where
  "submit_sm_response r =
     (if rp_command_status r = ESME_ROK then accept (AcceptId (unwrap_or [] (rp_message_id r)))
      else reject (rp_command_status r))"

definition data_sm_response :: "PduReply \<Rightarrow> resp" where
  "data_sm_response r =
     with_resp_tlvs
       (if rp_command_status r = ESME_ROK then accept (AcceptId (unwrap_or [] (rp_message_id r)))
        else reject (rp_command_status r))
       (rp_tlvs r)"

section \<open>Dispatch helpers\<close>

text \<open>What a request handler gets from outside: the script, clock readings, a duration (ns).\<close>

record 'c io =
  io_script :: "'c script_env"
  io_clock :: "nat list"
  io_elapsed :: nat

definition dispatch_pdu_opt ::
  "'c io \<Rightarrow> string \<Rightarrow> Pdu \<Rightarrow> Session \<Rightarrow> State \<Rightarrow> (string, PduReply) result option \<times> State" where
  "dispatch_pdu_opt io command p s st =
     (case dispatch_on_pdu (io_script io) command p s of
        None \<Rightarrow> (None, st)
      | Some result \<Rightarrow>
          let st = (if metrics_enabled (st_metrics st)
                then count (observe_dispatch command (as_secs_f64 (io_elapsed io))) st else st);
              st = (case result of Inl _ \<Rightarrow> count (record_dispatch_error command) st | Inr _ \<Rightarrow> st)
          in (Some result, st))"

definition dispatch_pdu ::
  "'c io \<Rightarrow> string \<Rightarrow> Pdu \<Rightarrow> Session \<Rightarrow> State \<Rightarrow> (string, PduReply) result \<times> State" where
  "dispatch_pdu io command p s st =
     (case dispatch_pdu_opt io command p s st of
        (Some r, st) \<Rightarrow> (r, st)
      | (None, st) \<Rightarrow> (Inr default_ok, st))"

section \<open>Admission\<close>

datatype InboundAdmit = Proceed | Throttled

text \<open>The bucket at an address; a pass through its mutex writes it back.\<close>

definition set_limiter :: "nat \<Rightarrow> Bucket \<Rightarrow> State \<Rightarrow> State" where
  "set_limiter a b st = st\<lparr>st_limiters := (st_limiters st)[a := b]\<rparr>"

definition admit_inbound :: "nat list \<Rightarrow> string \<Rightarrow> State \<Rightarrow> (InboundAdmit \<times> State) option" where
  "admit_inbound clock session_id st =
     (case Option.bind (find_esme session_id (st_esmes st)) es_throttle of
        None \<Rightarrow> Some (Proceed, st)
      | Some a \<Rightarrow>
          (case st_throttle_action st of
             Pace \<Rightarrow>
               (case acquire clock False (st_limiters st ! a) of
                  None \<Rightarrow> None
                | Some (waited, b) \<Rightarrow>
                    let st = set_limiter a b st
                    in Some (Proceed, if waited then count (record_throttled INBOUND) st else st))
           | Reject \<Rightarrow>
               (case clock of
                  [] \<Rightarrow> None
                | now # _ \<Rightarrow>
                    let (ok, b) = try_acquire now (st_limiters st ! a);
                        st = set_limiter a b st
                    in if ok then Some (Proceed, st)
                       else Some (Throttled, count (record_throttled INBOUND) st))))"

definition esme_session :: "string \<Rightarrow> string \<Rightarrow> State \<Rightarrow> Session" where
  "esme_session session_id client_address st =
     \<lparr>s_kind = EsmeServer, s_session_id = session_id,
      s_system_id = (case find_esme session_id (st_esmes st) of
        Some e \<Rightarrow> esme_system_id (es_esme e) | None \<Rightarrow> []),
      s_client_addr = client_address\<rparr>"

section \<open>Listening and binds\<close>

definition on_listen_failed :: "string \<Rightarrow> State \<Rightarrow> State" where
  "on_listen_failed error st =
     (case st_listen_failure st of
        None \<Rightarrow> st\<lparr>st_listen_failure := Some error\<rparr>
      | Some _ \<Rightarrow> st)"

definition on_bind_transmitter :: "State \<Rightarrow> resp \<times> State" where
  "on_bind_transmitter st = (reject ESME_RINVSYSID, count (record_bind_request REJECTED) st)"

definition on_bind_receiver :: "State \<Rightarrow> resp \<times> State" where
  "on_bind_receiver st = (reject ESME_RINVSYSID, count (record_bind_request REJECTED) st)"

definition on_bind_transceiver :: "'c script_env \<Rightarrow> string \<Rightarrow> string \<Rightarrow> string \<Rightarrow> State \<Rightarrow> resp \<times> State" where
  "on_bind_transceiver env system_id password client_address st =
     (let outcome = dispatch_bind env
        \<lparr>bd_system_id = system_id, bd_password = password, bd_client_addr = client_address\<rparr>
      in if \<not> bo_accept outcome
         then (reject (bo_status outcome), count (record_bind_request REJECTED) st)
         else (accept (AcceptBind system_id (Some 0x34)), count (record_bind_request ACCEPTED) st))"

section \<open>Requests\<close>

definition on_submit_sm ::
  "(resp \<Rightarrow> bool) \<Rightarrow> 'c io \<Rightarrow> string \<Rightarrow> string \<Rightarrow> submit_sm \<Rightarrow> State \<Rightarrow> (resp \<times> State) option" where
  "on_submit_sm is_success io client session_id request st =
     (case admit_inbound (io_clock io) session_id st of
        None \<Rightarrow> None
      | Some (Throttled, st) \<Rightarrow>
          Some (reject ESME_RTHROTTLED, count (record_pdu INBOUND ''submit_sm'' REJECTED) st)
      | Some (Proceed, st) \<Rightarrow>
          (case dispatch_pdu io ''submit_sm'' (from_submit request) (esme_session session_id client st) st of
             (Inr r, st) \<Rightarrow>
               let resp = submit_sm_response r;
                   result = (if is_success resp then ACCEPTED else REJECTED)
               in Some (resp, count (record_pdu INBOUND ''submit_sm'' result) st)
           | (Inl e, st) \<Rightarrow>
               Some (reject ESME_RSYSERR, count (record_pdu INBOUND ''submit_sm'' REJECTED) st)))"

definition on_data_sm ::
  "(resp \<Rightarrow> bool) \<Rightarrow> 'c io \<Rightarrow> string \<Rightarrow> string \<Rightarrow> data_sm \<Rightarrow> State \<Rightarrow> (resp \<times> State) option" where
  "on_data_sm is_success io client session_id request st =
     (case admit_inbound (io_clock io) session_id st of
        None \<Rightarrow> None
      | Some (Throttled, st) \<Rightarrow>
          Some (reject ESME_RTHROTTLED, count (record_pdu INBOUND ''data_sm'' REJECTED) st)
      | Some (Proceed, st) \<Rightarrow>
          (case dispatch_pdu_opt io ''data_sm'' (from_data request) (esme_session session_id client st) st of
             (None, st) \<Rightarrow>
               Some (reject ESME_RSYSERR, count (record_pdu INBOUND ''data_sm'' REJECTED) st)
           | (Some (Inr r), st) \<Rightarrow>
               let resp = data_sm_response r;
                   result = (if is_success resp then ACCEPTED else REJECTED)
               in Some (resp, count (record_pdu INBOUND ''data_sm'' result) st)
           | (Some (Inl e), st) \<Rightarrow>
               Some (reject ESME_RSYSERR, count (record_pdu INBOUND ''data_sm'' REJECTED) st)))"

definition on_cancel_sm :: "'c io \<Rightarrow> string \<Rightarrow> string \<Rightarrow> cancel_sm \<Rightarrow> State \<Rightarrow> resp \<times> State" where
  "on_cancel_sm io client session_id request st =
     (case dispatch_pdu_opt io ''cancel_sm'' (from_cancel request) (esme_session session_id client st) st of
        (None, st) \<Rightarrow> (reject ESME_RCANCELFAIL, count (record_pdu INBOUND ''cancel_sm'' REJECTED) st)
      | (Some (Inr r), st) \<Rightarrow>
          (if rp_command_status r = ESME_ROK
           then (accept AcceptPlain, count (record_pdu INBOUND ''cancel_sm'' ACCEPTED) st)
           else (reject (rp_command_status r), count (record_pdu INBOUND ''cancel_sm'' REJECTED) st))
      | (Some (Inl e), st) \<Rightarrow>
          (reject ESME_RCANCELFAIL, count (record_pdu INBOUND ''cancel_sm'' REJECTED) st))"

definition on_query_sm :: "'c io \<Rightarrow> string \<Rightarrow> string \<Rightarrow> query_sm \<Rightarrow> State \<Rightarrow> resp \<times> State" where
  "on_query_sm io client session_id request st =
     (case dispatch_pdu_opt io ''query_sm'' (from_query request) (esme_session session_id client st) st of
        (None, st) \<Rightarrow> (reject ESME_RQUERYFAIL, count (record_pdu INBOUND ''query_sm'' REJECTED) st)
      | (Some (Inr r), st) \<Rightarrow>
          (if rp_command_status r = ESME_ROK
           then (accept (AcceptQuery (unwrap_or [] (rp_message_id r)) (rp_final_date r)
                   (unwrap_or 0 (rp_message_state r)) (rp_error_code r)),
                 count (record_pdu INBOUND ''query_sm'' ACCEPTED) st)
           else (reject (rp_command_status r), count (record_pdu INBOUND ''query_sm'' REJECTED) st))
      | (Some (Inl e), st) \<Rightarrow>
          (reject ESME_RQUERYFAIL, count (record_pdu INBOUND ''query_sm'' REJECTED) st))"

definition on_replace_sm :: "'c io \<Rightarrow> string \<Rightarrow> string \<Rightarrow> replace_sm \<Rightarrow> State \<Rightarrow> resp \<times> State" where
  "on_replace_sm io client session_id request st =
     (case dispatch_pdu_opt io ''replace_sm'' (from_replace request) (esme_session session_id client st) st of
        (None, st) \<Rightarrow> (reject ESME_RREPLACEFAIL, count (record_pdu INBOUND ''replace_sm'' REJECTED) st)
      | (Some (Inr r), st) \<Rightarrow>
          (if rp_command_status r = ESME_ROK
           then (accept AcceptPlain, count (record_pdu INBOUND ''replace_sm'' ACCEPTED) st)
           else (reject (rp_command_status r), count (record_pdu INBOUND ''replace_sm'' REJECTED) st))
      | (Some (Inl e), st) \<Rightarrow>
          (reject ESME_RREPLACEFAIL, count (record_pdu INBOUND ''replace_sm'' REJECTED) st))"

definition on_submit_sm_multi ::
  "'c io \<Rightarrow> string \<Rightarrow> string \<Rightarrow> submit_sm_multi \<Rightarrow> State \<Rightarrow> (resp \<times> State) option" where
  "on_submit_sm_multi io client session_id request st =
     (case admit_inbound (io_clock io) session_id st of
        None \<Rightarrow> None
      | Some (Throttled, st) \<Rightarrow>
          Some (reject ESME_RTHROTTLED, count (record_pdu INBOUND ''submit_sm_multi'' REJECTED) st)
      | Some (Proceed, st) \<Rightarrow>
          (case dispatch_pdu_opt io ''submit_sm_multi'' (from_submit_multi request)
                  (esme_session session_id client st) st of
             (None, st) \<Rightarrow>
               Some (reject ESME_RSYSERR, count (record_pdu INBOUND ''submit_sm_multi'' REJECTED) st)
           | (Some (Inr r), st) \<Rightarrow>
               (if rp_command_status r = ESME_ROK
                then Some (accept (AcceptMulti (unwrap_or [] (rp_message_id r)) []),
                           count (record_pdu INBOUND ''submit_sm_multi'' ACCEPTED) st)
                else Some (reject (rp_command_status r),
                           count (record_pdu INBOUND ''submit_sm_multi'' REJECTED) st))
           | (Some (Inl e), st) \<Rightarrow>
               Some (reject ESME_RSYSERR, count (record_pdu INBOUND ''submit_sm_multi'' REJECTED) st)))"

section \<open>Session events\<close>

definition on_esme_timeout :: "string \<Rightarrow> State \<Rightarrow> State" where
  "on_esme_timeout session_id st =
     (case find_esme session_id (st_esmes st) of
        Some e \<Rightarrow> st\<lparr>st_unbinds := st_unbinds st @ [es_ptr e]\<rparr>
      | None \<Rightarrow> st)"

definition on_esme_bound :: "'c script_env \<Rightarrow> nat \<Rightarrow> ESME \<Rightarrow> string \<Rightarrow> State \<Rightarrow> State" where
  "on_esme_bound env now esme session_id st =
     (let session = \<lparr>s_kind = EsmeServer, s_session_id = session_id,
            s_system_id = esme_system_id esme, s_client_addr = esme_client_address esme\<rparr>;
          (throttle, st) = new_limiter (st_inbound_max_mps st) now st;
          st = st\<lparr>st_esmes := st_esmes st @
                [\<lparr>es_esme = esme, es_ptr = st_next_ptr st, es_throttle = throttle,
                  es_response_timer = st_inbound_response_timer st\<rparr>],
              st_next_ptr := st_next_ptr st + 1\<rparr>
      in dispatch_session_event env ''bound'' session st)"

definition on_esme_unbound :: "'c script_env \<Rightarrow> string \<Rightarrow> State \<Rightarrow> State" where
  "on_esme_unbound env session_id st =
     (let removed = map_option (\<lambda>e. (esme_system_id (es_esme e), esme_client_address (es_esme e)))
            (find_esme session_id (st_esmes st));
          st = st\<lparr>st_esmes := retain_esmes session_id (st_esmes st)\<rparr>;
          (system_id, client_addr) = unwrap_or ([], []) removed
      in dispatch_session_event env ''unbound''
           \<lparr>s_kind = EsmeServer, s_session_id = session_id, s_system_id = system_id,
            s_client_addr = client_addr\<rparr> st)"

section \<open>All requests together\<close>

datatype inbound =
    In_submit submit_sm | In_data data_sm | In_cancel cancel_sm | In_query query_sm
  | In_replace replace_sm | In_multi submit_sm_multi

text \<open>The listener as the codec drives it: one method per request.\<close>

primrec on_inbound ::
  "(resp \<Rightarrow> bool) \<Rightarrow> 'c io \<Rightarrow> string \<Rightarrow> string \<Rightarrow> inbound \<Rightarrow> State \<Rightarrow> (resp \<times> State) option" where
  "on_inbound ok io client sid (In_submit q) st = on_submit_sm ok io client sid q st"
| "on_inbound ok io client sid (In_data q) st = on_data_sm ok io client sid q st"
| "on_inbound ok io client sid (In_cancel q) st = Some (on_cancel_sm io client sid q st)"
| "on_inbound ok io client sid (In_query q) st = Some (on_query_sm io client sid q st)"
| "on_inbound ok io client sid (In_replace q) st = Some (on_replace_sm io client sid q st)"
| "on_inbound ok io client sid (In_multi q) st = on_submit_sm_multi io client sid q st"

text \<open>The contract, one row per command: its name, its PDU, whether it is rate-limited.\<close>

primrec in_command :: "inbound \<Rightarrow> string" where
  "in_command (In_submit q) = ''submit_sm''"
| "in_command (In_data q) = ''data_sm''"
| "in_command (In_cancel q) = ''cancel_sm''"
| "in_command (In_query q) = ''query_sm''"
| "in_command (In_replace q) = ''replace_sm''"
| "in_command (In_multi q) = ''submit_sm_multi''"

primrec in_pdu :: "inbound \<Rightarrow> Pdu" where
  "in_pdu (In_submit q) = from_submit q"
| "in_pdu (In_data q) = from_data q"
| "in_pdu (In_cancel q) = from_cancel q"
| "in_pdu (In_query q) = from_query q"
| "in_pdu (In_replace q) = from_replace q"
| "in_pdu (In_multi q) = from_submit_multi q"

primrec in_limited :: "inbound \<Rightarrow> bool" where
  "in_limited (In_submit q) = True"
| "in_limited (In_data q) = True"
| "in_limited (In_cancel q) = False"
| "in_limited (In_query q) = False"
| "in_limited (In_replace q) = False"
| "in_limited (In_multi q) = True"

text \<open>The status for a handler that failed.\<close>

primrec in_failure :: "inbound \<Rightarrow> SmppError" where
  "in_failure (In_submit q) = ESME_RSYSERR"
| "in_failure (In_data q) = ESME_RSYSERR"
| "in_failure (In_cancel q) = ESME_RCANCELFAIL"
| "in_failure (In_query q) = ESME_RQUERYFAIL"
| "in_failure (In_replace q) = ESME_RREPLACEFAIL"
| "in_failure (In_multi q) = ESME_RSYSERR"

primrec in_body :: "inbound \<Rightarrow> PduReply \<Rightarrow> accept_body" where
  "in_body (In_submit q) r = AcceptId (unwrap_or [] (rp_message_id r))"
| "in_body (In_data q) r = AcceptId (unwrap_or [] (rp_message_id r))"
| "in_body (In_cancel q) r = AcceptPlain"
| "in_body (In_query q) r = AcceptQuery (unwrap_or [] (rp_message_id r)) (rp_final_date r)
     (unwrap_or 0 (rp_message_state r)) (rp_error_code r)"
| "in_body (In_replace q) r = AcceptPlain"
| "in_body (In_multi q) r = AcceptMulti (unwrap_or [] (rp_message_id r)) []"

text \<open>
  The answer: the reply's status decides; a failed handler is refused; without a handler
  only \<open>submit_sm\<close> is accepted. Parameters ride on \<open>data_sm\<close> responses only.
\<close>

definition answer :: "inbound \<Rightarrow> (string, PduReply) result option \<Rightarrow> resp" where
  "answer req result =
     (case result of
        None \<Rightarrow> (case req of In_submit _ \<Rightarrow> accept (AcceptId []) | _ \<Rightarrow> reject (in_failure req))
      | Some (Inl _) \<Rightarrow> reject (in_failure req)
      | Some (Inr r) \<Rightarrow>
          let ts = (case req of In_data _ \<Rightarrow> rp_tlvs r | _ \<Rightarrow> [])
          in if rp_command_status r = ESME_ROK then Accept (in_body req r) ts
             else RejectWith (rp_command_status r) ts)"

primrec accepted :: "resp \<Rightarrow> bool" where
  "accepted (Accept b ts) = True"
| "accepted (RejectWith s ts) = False"

text \<open>What the codec documents: a response is a success exactly when its status is \<open>ESME_ROK\<close>.\<close>

definition is_success_ok :: "(resp \<Rightarrow> bool) \<Rightarrow> bool" where
  "is_success_ok ok \<longleftrightarrow> (\<forall>b ts. ok (Accept b ts)) \<and> (\<forall>s ts. ok (RejectWith s ts) \<longleftrightarrow> s = ESME_ROK)"

section \<open>Lemmas\<close>

lemma count_simps [simp]:
  "st_binds (count f st) = st_binds st" "st_esmes (count f st) = st_esmes st"
  "st_limiters (count f st) = st_limiters st" "st_next_ptr (count f st) = st_next_ptr st"
  "st_throttle_action (count f st) = st_throttle_action st"
  "st_inbound_max_mps (count f st) = st_inbound_max_mps st"
  "st_metrics (count f st) = f (st_metrics st)"
  by (simp_all add: count_def)

lemma set_limiter_simps [simp]:
  "st_binds (set_limiter a b st) = st_binds st" "st_esmes (set_limiter a b st) = st_esmes st"
  "st_limiters (set_limiter a b st) = (st_limiters st)[a := b]"
  "st_next_ptr (set_limiter a b st) = st_next_ptr st"
  "st_throttle_action (set_limiter a b st) = st_throttle_action st"
  "st_metrics (set_limiter a b st) = st_metrics st"
  by (simp_all add: set_limiter_def)

lemma with_resp_tlvs_simps [simp]:
  "with_resp_tlvs (Accept b ts) us = Accept b (ts @ us)"
  "with_resp_tlvs (RejectWith s ts) us = RejectWith s (ts @ us)"
  by (induction us arbitrary: ts) (simp_all add: with_resp_tlvs_def)

text \<open>The metrics a dispatch leaves behind, given its result.\<close>

definition account :: "'c io \<Rightarrow> string \<Rightarrow> (string, PduReply) result option \<Rightarrow> State \<Rightarrow> State" where
  "account io command result st =
     (case result of
        None \<Rightarrow> st
      | Some r \<Rightarrow>
          let st = (if metrics_enabled (st_metrics st)
                then count (observe_dispatch command (as_secs_f64 (io_elapsed io))) st else st)
          in (case r of Inl _ \<Rightarrow> count (record_dispatch_error command) st | Inr _ \<Rightarrow> st))"

lemma dispatch_pdu_opt_eq:
  "dispatch_pdu_opt io command p s st =
     (dispatch_on_pdu (io_script io) command p s,
      account io command (dispatch_on_pdu (io_script io) command p s) st)"
  by (simp add: dispatch_pdu_opt_def account_def Let_def split: option.split)

lemma dispatch_pdu_eq:
  "dispatch_pdu io command p s st =
     (case dispatch_on_pdu (io_script io) command p s of None \<Rightarrow> Inr default_ok | Some r \<Rightarrow> r,
      account io command (dispatch_on_pdu (io_script io) command p s) st)"
  by (simp add: dispatch_pdu_def dispatch_pdu_opt_eq split: option.split)

lemma account_simps [simp]:
  "st_binds (account io c r st) = st_binds st" "st_esmes (account io c r st) = st_esmes st"
  "st_limiters (account io c r st) = st_limiters st" "st_next_ptr (account io c r st) = st_next_ptr st"
  "st_throttle_action (account io c r st) = st_throttle_action st"
  "metrics_enabled (st_metrics (account io c r st)) = metrics_enabled (st_metrics st)"
  "pdu_count d c' x (st_metrics (account io c r st)) = pdu_count d c' x (st_metrics st)"
  "throttled_count d (st_metrics (account io c r st)) = throttled_count d (st_metrics st)"
  by (simp_all add: account_def Let_def split: option.split sum.split)

text \<open>Every request handler is the same shape around its row of the contract.\<close>

definition admit :: "'c io \<Rightarrow> string \<Rightarrow> inbound \<Rightarrow> State \<Rightarrow> (InboundAdmit \<times> State) option" where
  "admit io sid req st = (if in_limited req then admit_inbound (io_clock io) sid st else Some (Proceed, st))"

definition finish :: "inbound \<Rightarrow> resp \<Rightarrow> State \<Rightarrow> resp \<times> State" where
  "finish req r st =
     (r, count (record_pdu INBOUND (in_command req) (if accepted r then ACCEPTED else REJECTED)) st)"

definition serve :: "'c io \<Rightarrow> string \<Rightarrow> string \<Rightarrow> inbound \<Rightarrow> State \<Rightarrow> (resp \<times> State) option" where
  "serve io client sid req st =
     (case admit io sid req st of
        None \<Rightarrow> None
      | Some (Throttled, st) \<Rightarrow> Some (finish req (reject ESME_RTHROTTLED) st)
      | Some (Proceed, st) \<Rightarrow>
          let s = esme_session sid client st;
              result = dispatch_on_pdu (io_script io) (in_command req) (in_pdu req) s
          in Some (finish req (answer req result) (account io (in_command req) result st)))"

lemmas serve_defs = serve_def admit_def finish_def answer_def dispatch_pdu_eq dispatch_pdu_opt_eq
  Let_def

lemma on_inbound_serve:
  assumes "is_success_ok ok"
  shows "on_inbound ok io client sid req st = serve io client sid req st"
proof (cases req)
  case (In_submit q)
  with assms show ?thesis
    by (simp add: serve_defs on_submit_sm_def submit_sm_response_def is_success_ok_def default_ok_def
        split: option.split prod.split InboundAdmit.split sum.split)
next
  case (In_data q)
  with assms show ?thesis
    by (simp add: serve_defs on_data_sm_def data_sm_response_def is_success_ok_def
        split: option.split prod.split InboundAdmit.split sum.split)
next
  case (In_cancel q)
  then show ?thesis
    by (simp add: serve_defs on_cancel_sm_def split: option.split sum.split)
next
  case (In_query q)
  then show ?thesis
    by (simp add: serve_defs on_query_sm_def split: option.split sum.split)
next
  case (In_replace q)
  then show ?thesis
    by (simp add: serve_defs on_replace_sm_def split: option.split sum.split)
next
  case (In_multi q)
  then show ?thesis
    by (simp add: serve_defs on_submit_sm_multi_def
        split: option.split prod.split InboundAdmit.split sum.split)
qed

text \<open>Admission touches one limiter and one counter, and nothing else.\<close>

definition own_limiter :: "string \<Rightarrow> State \<Rightarrow> nat option" where
  "own_limiter sid st = Option.bind (find_esme sid (st_esmes st)) es_throttle"

lemma admit_inbound_frame:
  assumes "admit_inbound clock sid st = Some (a, st')"
  shows "st_esmes st' = st_esmes st \<and> st_binds st' = st_binds st \<and> st_next_ptr st' = st_next_ptr st
    \<and> length (st_limiters st') = length (st_limiters st)
    \<and> (\<forall>j. own_limiter sid st \<noteq> Some j \<longrightarrow> st_limiters st' ! j = st_limiters st ! j)
    \<and> metrics_enabled (st_metrics st') = metrics_enabled (st_metrics st)
    \<and> pdu_count d c x (st_metrics st') = pdu_count d c x (st_metrics st)
    \<and> (a = Throttled \<longrightarrow> st_throttle_action st = Reject \<and> own_limiter sid st \<noteq> None
        \<and> throttled_count INBOUND (st_metrics st') =
            throttled_count INBOUND (st_metrics st) + (if metrics_enabled (st_metrics st) then 1 else 0))"
  using assms
  by (auto simp: admit_inbound_def own_limiter_def Let_def
      split: option.splits ThrottleAction.splits list.splits prod.splits if_splits)

lemma admit_frame:
  assumes "admit io sid req st = Some (a, st')"
  shows "st_esmes st' = st_esmes st \<and> st_binds st' = st_binds st \<and> st_next_ptr st' = st_next_ptr st
    \<and> length (st_limiters st') = length (st_limiters st)
    \<and> (\<forall>j. own_limiter sid st \<noteq> Some j \<longrightarrow> st_limiters st' ! j = st_limiters st ! j)
    \<and> metrics_enabled (st_metrics st') = metrics_enabled (st_metrics st)
    \<and> pdu_count d c x (st_metrics st') = pdu_count d c x (st_metrics st)"
  using assms admit_inbound_frame[of "io_clock io" sid st a st' d c x]
  by (auto simp: admit_def split: if_splits)

lemma esme_session_cong: "st_esmes st' = st_esmes st \<Longrightarrow> esme_session sid client st' = esme_session sid client st"
  by (simp add: esme_session_def)

lemma serve_cases:
  assumes "serve io client sid req st = Some (r, st')"
  obtains (throttled) st1 where "admit io sid req st = Some (Throttled, st1)"
      "r = reject ESME_RTHROTTLED" "st' = snd (finish req r st1)"
  | (served) st1 where "admit io sid req st = Some (Proceed, st1)"
      "r = answer req (dispatch_on_pdu (io_script io) (in_command req) (in_pdu req) (esme_session sid client st))"
      "st' = snd (finish req r (account io (in_command req)
        (dispatch_on_pdu (io_script io) (in_command req) (in_pdu req) (esme_session sid client st)) st1))"
proof (cases "admit io sid req st")
  case None
  with assms show ?thesis by (simp add: serve_def)
next
  case (Some p)
  obtain a st1 where p: "p = (a, st1)" by (cases p)
  have "st_esmes st1 = st_esmes st" using admit_frame[of io sid req st a st1] Some p by simp
  then have s: "esme_session sid client st1 = esme_session sid client st" by (rule esme_session_cong)
  show ?thesis
  proof (cases a)
    case Proceed
    with assms Some p s show ?thesis by (intro served[of st1]) (auto simp: serve_def finish_def Let_def)
  next
    case Throttled
    with assms Some p show ?thesis by (intro throttled[of st1]) (auto simp: serve_def finish_def)
  qed
qed

section \<open>Properties\<close>

text \<open>An instance of the codec's success test, for the witnesses.\<close>

definition spec_is_success :: "resp \<Rightarrow> bool" where
  "spec_is_success r = (case r of Accept _ _ \<Rightarrow> True | RejectWith s _ \<Rightarrow> s = ESME_ROK)"

lemma spec_is_success_ok: "is_success_ok spec_is_success"
  by (simp add: is_success_ok_def spec_is_success_def)

definition sample_query :: inbound where
  "sample_query = In_query \<lparr>qs_message_id = ''m1'', qs_source_addr_ton = 1, qs_source_addr_npi = 1,
     qs_source_addr = ''100''\<rparr>"

definition sample_io :: "unit io" where
  "sample_io = \<lparr>io_script = sample_env, io_clock = [0], io_elapsed = 0\<rparr>"

definition sample_config :: SmppConfig where
  "sample_config = \<lparr>cf_server = ServerConfig_default\<lparr>sv_max_msg_per_sec := 2, sv_throttle_action := Reject\<rparr>,
     cf_binds = [], cf_routing = \<lparr>rt_default_chain = [], rt_rules = []\<rparr>, cf_bind_address = None, cf_port = None\<rparr>"

text \<open>
  C3. Every one of the six request handlers implements its row of the contract: once a
  request is admitted, the response is exactly the contract's answer to what the script
  returned. The reply's status alone decides between acceptance and refusal; a failed
  handler is refused with the command's failure status; without a handler only
  \<open>submit_sm\<close> is accepted, with an empty message id.
\<close>

theorem server_answers_by_contract:
  assumes "is_success_ok ok" and "admit io sid req st = Some (Proceed, st1)"
  shows "map_option fst (on_inbound ok io client sid req st) =
    Some (answer req (dispatch_on_pdu (io_script io) (in_command req) (in_pdu req) (esme_session sid client st)))"
proof -
  have "st_esmes st1 = st_esmes st" using admit_frame[OF assms(2)] by simp
  then have "esme_session sid client st1 = esme_session sid client st" by (rule esme_session_cong)
  with assms show ?thesis
    by (simp add: on_inbound_serve serve_def finish_def Let_def)
qed

theorem server_answers_by_contract_witness:
  "map_option fst (on_inbound spec_is_success sample_io ''::1'' ''s1'' sample_query (spawn_state sample_config None))
   = Some (RejectWith ESME_RQUERYFAIL [])"
proof -
  have admit: "admit sample_io ''s1'' sample_query (spawn_state sample_config None) =
      Some (Proceed, spawn_state sample_config None)"
    by (simp add: admit_def sample_query_def)
  have "dispatch_on_pdu (io_script sample_io) (in_command sample_query) (in_pdu sample_query) s = None" for s
    by (simp add: dispatch_on_pdu_def on_executor_def first_matching_def handlers_def sample_io_def
        sample_env_def PDU_KIND_def SESSION_KIND_def)
  with server_answers_by_contract[OF spec_is_success_ok admit, of "''::1''"] show ?thesis
    by (simp add: answer_def) (simp add: sample_query_def)
qed

text \<open>
  C12. Every inbound request that is answered is counted exactly once, as accepted when the
  response is an acceptance and as rejected when it is a refusal, on every path: throttled,
  no handler, raised handler, refused, accepted.
\<close>

theorem inbound_request_counted_once:
  assumes "is_success_ok ok" and "on_inbound ok io client sid req st = Some (r, st')"
    and "metrics_enabled (st_metrics st)"
  shows "pdu_count INBOUND (in_command req) ACCEPTED (st_metrics st') =
      pdu_count INBOUND (in_command req) ACCEPTED (st_metrics st) + (if accepted r then 1 else 0)
    \<and> pdu_count INBOUND (in_command req) REJECTED (st_metrics st') =
      pdu_count INBOUND (in_command req) REJECTED (st_metrics st) + (if accepted r then 0 else 1)"
proof -
  have "serve io client sid req st = Some (r, st')"
    using assms(1,2) by (simp add: on_inbound_serve)
  then show ?thesis
  proof (cases rule: serve_cases)
    case (throttled st1)
    with assms(3) admit_frame[OF throttled(1), of INBOUND "in_command req" ACCEPTED]
      admit_frame[OF throttled(1), of INBOUND "in_command req" REJECTED]
    show ?thesis by (simp add: finish_def)
  next
    case (served st1)
    with assms(3) admit_frame[OF served(1), of INBOUND "in_command req" ACCEPTED]
      admit_frame[OF served(1), of INBOUND "in_command req" REJECTED]
    show ?thesis by (simp add: finish_def del: in_command.simps)
  qed
qed

theorem inbound_request_counted_once_witness:
  "\<exists>r st'. on_inbound spec_is_success sample_io ''::1'' ''s1'' sample_query (spawn_state sample_config (Some [])) = Some (r, st')
     \<and> pdu_count INBOUND ''query_sm'' ACCEPTED (st_metrics st') + pdu_count INBOUND ''query_sm'' REJECTED (st_metrics st') = 1"
proof -
  obtain r st' where run: "on_inbound spec_is_success sample_io ''::1'' ''s1'' sample_query
      (spawn_state sample_config (Some [])) = Some (r, st')"
    by (cases "on_query_sm sample_io ''::1'' ''s1'' \<lparr>qs_message_id = ''m1'', qs_source_addr_ton = 1,
        qs_source_addr_npi = 1, qs_source_addr = ''100''\<rparr> (spawn_state sample_config (Some []))")
      (simp add: sample_query_def)
  have en: "metrics_enabled (st_metrics (spawn_state sample_config (Some [])))"
    by (simp add: spawn_state_def register_all_def metrics_enabled_def emit_def)
  have zero: "pdu_count INBOUND ''query_sm'' x (st_metrics (spawn_state sample_config (Some []))) = 0" for x
    by (simp add: spawn_state_def register_all_def pdu_count_def counter_def emit_def)
  have cmd: "in_command sample_query = ''query_sm''" by (simp add: sample_query_def)
  show ?thesis
    using run inbound_request_counted_once[OF spec_is_success_ok run en] by (simp add: zero cmd)
qed

text \<open>
  C13. Throttling is per session: serving a request changes no session list and no rate
  limiter but the one of the session the request came in on, so one busy ESME cannot use
  up another's tokens or a bind's.
\<close>

theorem throttling_is_per_session:
  assumes "is_success_ok ok" and "on_inbound ok io client sid req st = Some (r, st')"
    and "own_limiter sid st \<noteq> Some j"
  shows "st_limiters st' ! j = st_limiters st ! j \<and> length (st_limiters st') = length (st_limiters st)
    \<and> st_esmes st' = st_esmes st \<and> st_binds st' = st_binds st"
proof -
  have "serve io client sid req st = Some (r, st')"
    using assms(1,2) by (simp add: on_inbound_serve)
  then show ?thesis
  proof (cases rule: serve_cases)
    case (throttled st1)
    with admit_frame[OF throttled(1)] assms(3) show ?thesis by (simp add: finish_def)
  next
    case (served st1)
    with admit_frame[OF served(1)] assms(3) show ?thesis by (simp add: finish_def)
  qed
qed

text \<open>A state with two sessions, the first one's bucket empty, for the witnesses.\<close>

definition sample_esme :: "string \<Rightarrow> ESME" where
  "sample_esme sid = \<lparr>esme_session_id = sid, esme_system_id = ''esme'', esme_client_address = ''::1'',
     esme_can_receive = True\<rparr>"

definition busy_state :: "ThrottleAction \<Rightarrow> State" where
  "busy_state action = (spawn_state sample_config (Some []))
     \<lparr>st_throttle_action := action,
      st_esmes := [\<lparr>es_esme = sample_esme ''s1'', es_ptr = 0, es_throttle = Some 0, es_response_timer = 0\<rparr>,
        \<lparr>es_esme = sample_esme ''s2'', es_ptr = 1, es_throttle = Some 1, es_response_timer = 0\<rparr>],
      st_limiters := [\<lparr>b_tokens = 0, b_max = 2, b_refill_per_sec = 2, b_last = 0\<rparr>,
        \<lparr>b_tokens = 2, b_max = 2, b_refill_per_sec = 2, b_last = 0\<rparr>], st_next_ptr := 2\<rparr>"

definition sample_submit :: inbound where
  "sample_submit = In_submit \<lparr>ss_service_type = [], ss_source_addr_ton = 1, ss_source_addr_npi = 1,
     ss_source_addr = ''100'', ss_dest_addr_ton = 1, ss_dest_addr_npi = 1, ss_destination_addr = ''200'',
     ss_esm_class = 0, ss_protocol_id = 0, ss_priority_flag = 0, ss_schedule_delivery_time = [],
     ss_validity_period = [], ss_registered_delivery = 0, ss_replace_if_present_flag = 0,
     ss_data_coding = 0, ss_sm_default_msg_id = 0, ss_sm_length = 2, ss_short_message = [0x68, 0x69],
     ss_tlvs = []\<rparr>"

lemma busy_state_simps [simp]:
  "st_throttle_action (busy_state a) = a"
  "own_limiter ''s1'' (busy_state a) = Some 0"
  "st_limiters (busy_state a) = [\<lparr>b_tokens = 0, b_max = 2, b_refill_per_sec = 2, b_last = 0\<rparr>,
        \<lparr>b_tokens = 2, b_max = 2, b_refill_per_sec = 2, b_last = 0\<rparr>]"
  "in_limited sample_submit"
  by (simp_all add: busy_state_def own_limiter_def find_esme_def sample_esme_def sample_submit_def)

lemma admit_throttled:
  assumes "in_limited req" and "st_throttle_action st = Reject"
    and "own_limiter sid st = Some a" and "io_clock io = now # clock"
    and "\<not> fst (try_acquire now (st_limiters st ! a))"
  obtains b where "admit io sid req st = Some (Throttled, count (record_throttled INBOUND) (set_limiter a b st))"
proof -
  obtain b where "try_acquire now (st_limiters st ! a) = (False, b)"
    using assms(5) by (cases "try_acquire now (st_limiters st ! a)") auto
  then show ?thesis
    using assms(1-4) that by (simp add: admit_def admit_inbound_def own_limiter_def)
qed

lemma busy_state_empty: "\<not> fst (try_acquire 0 (st_limiters (busy_state a) ! 0))"
  by (simp add: try_acquire_def refill_def)

text \<open>
  C14. Over the cap with the \<open>reject\<close> action: when the session's bucket has no whole token, a
  rate-limited request is answered \<open>ESME_RTHROTTLED\<close> at once whatever the script would have
  said, and the throttle counter goes up by one.
\<close>

theorem over_cap_is_rejected:
  assumes "is_success_ok ok" and "in_limited req" and "st_throttle_action st = Reject"
    and "own_limiter sid st = Some a" and "io_clock io = now # clock"
    and "\<not> fst (try_acquire now (st_limiters st ! a))"
  shows "\<exists>st'. on_inbound ok io client sid req st = Some (reject ESME_RTHROTTLED, st')
    \<and> throttled_count INBOUND (st_metrics st') =
        throttled_count INBOUND (st_metrics st) + (if metrics_enabled (st_metrics st) then 1 else 0)"
proof -
  obtain b where "admit io sid req st = Some (Throttled, count (record_throttled INBOUND) (set_limiter a b st))"
    using admit_throttled[OF assms(2-6)] .
  with assms(1) show ?thesis by (simp add: on_inbound_serve serve_def finish_def)
qed

theorem over_cap_is_rejected_witness:
  "\<exists>st'. on_inbound spec_is_success sample_io ''::1'' ''s1'' sample_submit (busy_state Reject)
     = Some (reject ESME_RTHROTTLED, st')"
proof -
  have "io_clock sample_io = [0]" by (simp add: sample_io_def)
  with over_cap_is_rejected[OF spec_is_success_ok, of sample_submit "busy_state Reject" "''s1''" 0 sample_io 0 "[]"]
    busy_state_empty[of Reject]
  show ?thesis by auto
qed

theorem throttling_is_per_session_witness:
  "\<exists>r st'. on_inbound spec_is_success sample_io ''::1'' ''s1'' sample_submit (busy_state Reject) = Some (r, st')
     \<and> st_limiters st' ! 1 = st_limiters (busy_state Reject) ! 1"
proof -
  have "io_clock sample_io = [0]" by (simp add: sample_io_def)
  then obtain b where "admit sample_io ''s1'' sample_submit (busy_state Reject) =
      Some (Throttled, count (record_throttled INBOUND) (set_limiter 0 b (busy_state Reject)))"
    using admit_throttled[of sample_submit "busy_state Reject" "''s1''" 0 sample_io 0 "[]"]
      busy_state_empty[of Reject] by auto
  then obtain r st' where run: "on_inbound spec_is_success sample_io ''::1'' ''s1'' sample_submit (busy_state Reject) = Some (r, st')"
    by (simp add: on_inbound_serve[OF spec_is_success_ok] serve_def finish_def)
  have "own_limiter ''s1'' (busy_state Reject) \<noteq> Some 1" by simp
  from run throttling_is_per_session[OF spec_is_success_ok run this] show ?thesis by blast
qed

text \<open>
  What a paced session's request costs: nothing but a token when there is one, otherwise a
  wait on the bucket, which the throttle counter records.
\<close>

lemma admit_paced:
  assumes "in_limited req" and "st_throttle_action st = Pace" and "own_limiter sid st = Some a"
  shows "admit io sid req st = map_option (\<lambda>(waited, b). (Proceed,
    if waited then count (record_throttled INBOUND) (set_limiter a b st) else set_limiter a b st))
      (acquire (io_clock io) False (st_limiters st ! a))"
  using assms by (simp add: admit_def admit_inbound_def own_limiter_def Let_def split: option.split)

lemma serve_paced:
  assumes "is_success_ok ok" and "in_limited req" and "st_throttle_action st = Pace"
    and "own_limiter sid st = Some a"
    and "acquire (io_clock io) False (st_limiters st ! a) = Some (waited, b)"
  obtains st' where "on_inbound ok io client sid req st = Some (answer req
      (dispatch_on_pdu (io_script io) (in_command req) (in_pdu req) (esme_session sid client st)), st')"
    and "st_limiters st' = (st_limiters st)[a := b]"
    and "throttled_count INBOUND (st_metrics st') = throttled_count INBOUND (st_metrics st)
      + (if waited \<and> metrics_enabled (st_metrics st) then 1 else 0)"
proof -
  define st1 where "st1 = (if waited then count (record_throttled INBOUND) (set_limiter a b st) else set_limiter a b st)"
  have admit: "admit io sid req st = Some (Proceed, st1)"
    using assms(5) by (simp add: admit_paced[OF assms(2-4)] st1_def)
  have st1: "st_esmes st1 = st_esmes st" "st_limiters st1 = (st_limiters st)[a := b]"
    "throttled_count INBOUND (st_metrics st1) = throttled_count INBOUND (st_metrics st)
      + (if waited \<and> metrics_enabled (st_metrics st) then 1 else 0)"
    by (simp_all add: st1_def)
  have "on_inbound ok io client sid req st = Some (finish req (answer req
      (dispatch_on_pdu (io_script io) (in_command req) (in_pdu req) (esme_session sid client st)))
      (account io (in_command req)
        (dispatch_on_pdu (io_script io) (in_command req) (in_pdu req) (esme_session sid client st)) st1))"
    using assms(1) admit esme_session_cong[OF st1(1)] by (simp add: on_inbound_serve serve_def Let_def)
  then show ?thesis using that st1 by (simp add: finish_def del: in_command.simps)
qed

text \<open>
  C15. Pacing delays a request over the cap and never refuses it. With a whole token in the
  bucket, the request is answered at its first turn, takes the token and counts nothing. With
  none, it is held: at its first turn there is no answer. At its next turn, once the clock is
  past the time the bucket asked for, it takes a token, is answered as the contract says,
  and the throttle counter goes up by one.
\<close>

theorem over_cap_is_paced:
  assumes "is_success_ok ok" and "in_limited req" and "st_throttle_action st = Pace"
    and "own_limiter sid st = Some a" and "bucket_ok (st_limiters st ! a)"
    and "contract = answer req
      (dispatch_on_pdu (io_script io) (in_command req) (in_pdu req) (esme_session sid client st))"
    and "throttles = throttled_count INBOUND (st_metrics st)"
  shows "case acquire_pass t (st_limiters st ! a) of
      (None, b) \<Rightarrow> 1 \<le> b_tokens (refill t (st_limiters st ! a))
        \<and> (\<exists>st'. on_inbound ok (io\<lparr>io_clock := [t]\<rparr>) client sid req st = Some (contract, st')
            \<and> st_limiters st' = (st_limiters st)[a := b]
            \<and> throttled_count INBOUND (st_metrics st') = throttles)
    | (Some w, b) \<Rightarrow> b_tokens (refill t (st_limiters st ! a)) < 1
        \<and> on_inbound ok (io\<lparr>io_clock := [t]\<rparr>) client sid req st = None
        \<and> (\<forall>t'. t + w < t' \<longrightarrow>
            (\<exists>st'. on_inbound ok (io\<lparr>io_clock := [t, t']\<rparr>) client sid req st = Some (contract, st')
              \<and> 1 \<le> b_tokens (refill t' b)
              \<and> st_limiters st' = (st_limiters st)[a := snd (acquire_pass t' b)]
              \<and> throttled_count INBOUND (st_metrics st') =
                  throttles + (if metrics_enabled (st_metrics st) then 1 else 0)))"
proof (cases "acquire_pass t (st_limiters st ! a)")
  case (Pair wait b)
  show ?thesis
  proof (cases wait)
    case None
    then have "acquire (io_clock (io\<lparr>io_clock := [t]\<rparr>)) False (st_limiters st ! a) = Some (False, b)"
      using Pair by simp
    from serve_paced[OF assms(1-4) this, of client] obtain st' where
      "on_inbound ok (io\<lparr>io_clock := [t]\<rparr>) client sid req st = Some (contract, st')"
      "st_limiters st' = (st_limiters st)[a := b]" "throttled_count INBOUND (st_metrics st') = throttles"
      using assms(6,7) by auto
    moreover have "1 \<le> b_tokens (refill t (st_limiters st ! a))"
      using None Pair by (simp add: acquire_pass_def Let_def split: if_splits)
    ultimately show ?thesis unfolding Pair None by auto
  next
    case (Some w)
    with Pair have pass: "acquire_pass t (st_limiters st ! a) = (Some w, b)" by simp
    then have "admit (io\<lparr>io_clock := [t]\<rparr>) sid req st = None"
      by (simp add: admit_paced[OF assms(2-4)])
    then have held: "on_inbound ok (io\<lparr>io_clock := [t]\<rparr>) client sid req st = None"
      using assms(1) by (simp add: on_inbound_serve serve_def)
    have "\<exists>st'. on_inbound ok (io\<lparr>io_clock := [t, t']\<rparr>) client sid req st = Some (contract, st')
        \<and> 1 \<le> b_tokens (refill t' b) \<and> st_limiters st' = (st_limiters st)[a := snd (acquire_pass t' b)]
        \<and> throttled_count INBOUND (st_metrics st') =
            throttles + (if metrics_enabled (st_metrics st) then 1 else 0)" if "t + w < t'" for t'
    proof -
      have token: "1 \<le> b_tokens (refill t' b)" by (rule refill_after_wait[OF assms(5) pass that])
      then have "acquire_pass t' b = (None, snd (acquire_pass t' b))" by (simp add: acquire_pass_def Let_def)
      then have "acquire (io_clock (io\<lparr>io_clock := [t, t']\<rparr>)) False (st_limiters st ! a) =
          Some (True, snd (acquire_pass t' b))"
        using pass by (cases "acquire_pass t' b") simp
      from serve_paced[OF assms(1-4) this, of client] obtain st' where
        "on_inbound ok (io\<lparr>io_clock := [t, t']\<rparr>) client sid req st = Some (contract, st')"
        "st_limiters st' = (st_limiters st)[a := snd (acquire_pass t' b)]"
        "throttled_count INBOUND (st_metrics st') = throttles + (if metrics_enabled (st_metrics st) then 1 else 0)"
        using assms(6,7) by auto
      with token show ?thesis by blast
    qed
    moreover have "b_tokens (refill t (st_limiters st ! a)) < 1"
      using pass by (simp add: acquire_pass_def Let_def split: if_splits)
    ultimately show ?thesis using held unfolding pass by simp
  qed
qed

theorem over_cap_is_paced_witness:
  "on_inbound spec_is_success (sample_io\<lparr>io_clock := [0]\<rparr>) ''::1'' ''s1'' sample_submit (busy_state Pace) = None
   \<and> (\<exists>st'. on_inbound spec_is_success (sample_io\<lparr>io_clock := [0, 500000001]\<rparr>) ''::1'' ''s1'' sample_submit
        (busy_state Pace) = Some (accept (AcceptId []), st')
      \<and> throttled_count INBOUND (st_metrics st') = throttled_count INBOUND (st_metrics (busy_state Pace)) + 1)"
proof -
  have ok: "bucket_ok (st_limiters (busy_state Pace) ! 0)" by (simp add: bucket_ok_two)
  have pass: "acquire_pass 0 (st_limiters (busy_state Pace) ! 0) = (Some 500000000,
      \<lparr>b_tokens = 0, b_max = 2, b_refill_per_sec = 2, b_last = 0\<rparr>)"
    by (simp add: acquire_pass_empty_two)
  have none: "dispatch_on_pdu (io_script sample_io) (in_command sample_submit) (in_pdu sample_submit) s = None" for s
    by (simp add: dispatch_on_pdu_def on_executor_def first_matching_def handlers_def sample_io_def
        sample_env_def PDU_KIND_def SESSION_KIND_def)
  have contract: "answer sample_submit None = accept (AcceptId [])"
    by (simp add: answer_def) (simp add: sample_submit_def)
  have en: "metrics_enabled (st_metrics (busy_state Pace))"
    by (simp add: busy_state_def spawn_state_def register_all_def metrics_enabled_def emit_def)
  have "0 + 500000000 < (500000001 :: nat)" by simp
  with over_cap_is_paced[OF spec_is_success_ok _ _ _ ok refl refl, where req = sample_submit and sid = "''s1''"
      and io = sample_io and client = "''::1''" and t = 0]
  show ?thesis
    unfolding none contract pass using en by auto
qed

lemma in_command_eq: "p_command (in_pdu req) = in_command req"
  by (cases req) (simp_all add: from_submit_def from_data_def from_cancel_def from_query_def
      from_replace_def from_submit_multi_def)

text \<open>
  C37. Optional parameters handed to \<open>pdu.reply\<close> are never lost: when the script answers an
  admitted request with a reply built from that request, the response leaves with exactly the
  parameters the keyword argument encodes to, whatever the command and the status.
\<close>

theorem reply_tlvs_reach_the_wire:
  assumes "is_success_ok ok" and "admit io sid req st = Some (Proceed, st1)"
    and "reply C (in_pdu req) status mid kw = Inr r"
    and "dispatch_on_pdu (io_script io) (in_command req) (in_pdu req) (esme_session sid client st) = Some (Inr r)"
  shows "\<exists>resp st'. on_inbound ok io client sid req st = Some (resp, st')
    \<and> tlvs_from_py C kw = Inr (resp_tlvs resp)
    \<and> accepted resp = (parse_smpp_status status = Some ESME_ROK)"
proof -
  have "st_esmes st1 = st_esmes st" using admit_frame[OF assms(2)] by simp
  then have "esme_session sid client st1 = esme_session sid client st" by (rule esme_session_cong)
  with assms(1,2,4) obtain st' where run: "on_inbound ok io client sid req st = Some (answer req (Some (Inr r)), st')"
    by (simp add: on_inbound_serve serve_def finish_def Let_def)
  have r: "tlvs_from_py C kw = Inr (rp_tlvs r)" "in_command req = ''data_sm'' \<or> rp_tlvs r = []"
    "parse_smpp_status status = Some (rp_command_status r)"
    using assms(3) by (auto simp: reply_def in_command_eq parse_status_def result_iffs ok_or_def
        split: if_splits option.splits)
  have "resp_tlvs (answer req (Some (Inr r))) = rp_tlvs r"
    using r(2) by (cases req) (auto simp: answer_def Let_def)
  moreover have "accepted (answer req (Some (Inr r))) = (rp_command_status r = ESME_ROK)"
    by (simp add: answer_def Let_def)
  ultimately show ?thesis using run r by auto
qed

definition sample_data :: inbound where
  "sample_data = In_data \<lparr>dt_service_type = [], dt_source_addr_ton = 1, dt_source_addr_npi = 1,
     dt_source_addr = ''100'', dt_dest_addr_ton = 1, dt_dest_addr_npi = 1, dt_destination_addr = ''200'',
     dt_esm_class = 0, dt_registered_delivery = 0, dt_data_coding = 0, dt_tlvs = []\<rparr>"

lemma sample_reply_tlvs:
  "tlvs_from_py spec_codec (Some [(PyStr ''delivery_failure_reason'', PyInt 1 :: unit pyval)]) =
     Inr [\<lparr>tlv_tag = 0x0425, tlv_value = [1]\<rparr>]"
  by code_simp

text \<open>A script that answers one command with a fixed reply.\<close>

definition replying_io :: "string \<Rightarrow> PduReply \<Rightarrow> unit io" where
  "replying_io command r = sample_io\<lparr>io_script := sample_env\<lparr>handlers_for := (\<lambda>kind.
     if kind = PDU_KIND then [HandlerEntry \<lparr>h_callable = (\<lambda>_. Inr (PyObject ''PduReply'' (Some True) (PduReplyObj r))),
       h_is_async = False, h_key = Some command\<rparr>] else [])\<rparr>\<rparr>"

lemma replying_dispatch: "dispatch_on_pdu (io_script (replying_io command r)) command p s = Some (Inr r)"
  by (simp add: dispatch_on_pdu_def on_executor_def first_matching_def handlers_def replying_io_def sample_env_def
      PDU_KIND_def map_filter_simps invoke_def Started_settle_def pdu_reply_def)

theorem reply_tlvs_reach_the_wire_witness:
  "\<exists>r resp st'. reply spec_codec (in_pdu sample_data) ''ESME_RX_T_APPN'' None
       (Some [(PyStr ''delivery_failure_reason'', PyInt 1 :: unit pyval)]) = Inr r
     \<and> on_inbound spec_is_success (replying_io ''data_sm'' r) ''::1'' ''s3'' sample_data (busy_state Pace) = Some (resp, st')
     \<and> resp_tlvs resp = [\<lparr>tlv_tag = 0x0425, tlv_value = [1]\<rparr>] \<and> \<not> accepted resp"
proof -
  have cmd: "p_command (in_pdu sample_data) = ''data_sm''" "in_command sample_data = ''data_sm''"
    by (simp_all add: sample_data_def from_data_def)
  have status: "parse_smpp_status ''ESME_RX_T_APPN'' = Some ESME_RX_T_APPN"
    by (simp add: parse_smpp_status_def status_names_def)
  obtain r where r: "reply spec_codec (in_pdu sample_data) ''ESME_RX_T_APPN'' None
       (Some [(PyStr ''delivery_failure_reason'', PyInt 1 :: unit pyval)]) = Inr r"
    by (simp add: reply_def parse_status_def status sample_reply_tlvs cmd)
  have admit: "admit (replying_io ''data_sm'' r) ''s3'' sample_data (busy_state Pace) = Some (Proceed, busy_state Pace)"
    by (simp add: admit_def admit_inbound_def busy_state_def find_esme_def sample_esme_def)
  have "ESME_RX_T_APPN \<noteq> ESME_ROK" by simp
  with reply_tlvs_reach_the_wire[OF spec_is_success_ok admit r, of "''::1''"] r show ?thesis
    unfolding cmd by (auto simp: replying_dispatch sample_reply_tlvs status)
qed

text \<open>
  A reply built by the class itself has no such guard: \<open>PduReply(tlvs=\<dots>)\<close> accepts
  parameters on any path, and off the \<open>data_sm\<close> path the response leaves without them.
\<close>

theorem constructed_reply_tlvs_are_dropped:
  "\<exists>r. PduReply_new spec_codec ''ESME_RSUBMITFAIL'' None
       (Some [(PyStr ''delivery_failure_reason'', PyInt 1 :: unit pyval)]) = Inr r
     \<and> rp_tlvs r = [\<lparr>tlv_tag = 0x0425, tlv_value = [1]\<rparr>]
     \<and> answer sample_submit (Some (Inr r)) = RejectWith ESME_RSUBMITFAIL []"
proof -
  have st: "parse_status ''ESME_RSUBMITFAIL'' = Inr ESME_RSUBMITFAIL"
    by (simp add: parse_status_def parse_smpp_status_def status_names_def)
  show ?thesis
    by (simp add: PduReply_new_def sample_reply_tlvs st answer_def Let_def) (simp add: sample_submit_def)
qed

end
