(* ===== verification/Smpp_Client.thy ===== *)
theory Smpp_Client
  imports Smpp_Server
begin

text \<open>
  The client side of \<open>src/src/runtime.rs\<close>: the listener of an outbound bind
  (\<open>BindListener\<close>) and the supervisor that keeps the bind up (\<open>run_bind_loop\<close>). The codec's
  client is a parameter: what the supervisor sees of it are readings of \<open>is_alive()\<close>, of
  the connect-failed flag and of the clock.
\<close>

section \<open>The listener\<close>

record BindListener =
  bl_bind_name :: string
  bl_max_msg_per_sec :: u32
  bl_response_timer :: nat
  bl_connect_failed :: bool

definition on_connection_failed :: "BindListener \<Rightarrow> State \<Rightarrow> BindListener \<times> State" where
  "on_connection_failed l st =
     (l\<lparr>bl_connect_failed := True\<rparr>, count (record_bind_connect_failure (bl_bind_name l)) st)"

definition bind_session :: "BindListener \<Rightarrow> string \<Rightarrow> string \<Rightarrow> Session" where
  "bind_session l session_id server_address =
     \<lparr>s_kind = FromBind, s_session_id = session_id, s_system_id = bl_bind_name l,
      s_client_addr = server_address\<rparr>"

definition on_deliver_sm ::
  "'c io \<Rightarrow> BindListener \<Rightarrow> string \<Rightarrow> string \<Rightarrow> deliver_sm \<Rightarrow> State \<Rightarrow> resp \<times> State" where
  "on_deliver_sm io l server session_id request st =
     (case dispatch_pdu io ''deliver_sm'' (from_deliver request) (bind_session l session_id server) st of
        (Inr r, st) \<Rightarrow>
          (if rp_command_status r = ESME_ROK
           then (accept AcceptPlain, count (record_pdu EGRESS ''deliver_sm'' ACCEPTED) st)
           else (reject (rp_command_status r), count (record_pdu EGRESS ''deliver_sm'' REJECTED) st))
      | (Inl e, st) \<Rightarrow>
          (reject ESME_RSYSERR, count (record_pdu EGRESS ''deliver_sm'' REJECTED) st))"

definition on_bind_data_sm ::
  "(resp \<Rightarrow> bool) \<Rightarrow> 'c io \<Rightarrow> BindListener \<Rightarrow> string \<Rightarrow> string \<Rightarrow> data_sm \<Rightarrow> State \<Rightarrow> resp \<times> State" where
  "on_bind_data_sm is_success io l server session_id request st =
     (case dispatch_pdu_opt io ''data_sm'' (from_data request) (bind_session l session_id server) st of
        (None, st) \<Rightarrow> (reject ESME_RSYSERR, count (record_pdu EGRESS ''data_sm'' REJECTED) st)
      | (Some (Inr r), st) \<Rightarrow>
          let resp = data_sm_response r;
              result = (if is_success resp then ACCEPTED else REJECTED)
          in (resp, count (record_pdu EGRESS ''data_sm'' result) st)
      | (Some (Inl e), st) \<Rightarrow>
          (reject ESME_RSYSERR, count (record_pdu EGRESS ''data_sm'' REJECTED) st))"

definition on_alert_notification ::
  "'c io \<Rightarrow> BindListener \<Rightarrow> string \<Rightarrow> string \<Rightarrow> alert_notification \<Rightarrow> State \<Rightarrow> State" where
  "on_alert_notification io l server session_id request st =
     (case dispatch_alert (io_script io) (from_alert request) (bind_session l session_id server) of
        Inr _ \<Rightarrow> count (record_pdu EGRESS ''alert_notification'' ACCEPTED) st
      | Inl e \<Rightarrow>
          count (record_pdu EGRESS ''alert_notification'' REJECTED)
            (count (record_dispatch_error ''alert_notification'') st))"

definition on_bind_timeout :: "string \<Rightarrow> State \<Rightarrow> State" where
  "on_bind_timeout session_id st =
     (case find_bind_session session_id (st_binds st) of
        Some b \<Rightarrow> st\<lparr>st_unbinds := st_unbinds st @ [bs_ptr b]\<rparr>
      | None \<Rightarrow> st)"

definition on_smsc_bound ::
  "'c script_env \<Rightarrow> BindListener \<Rightarrow> nat \<Rightarrow> SMSC \<Rightarrow> string \<Rightarrow> State \<Rightarrow> State" where
  "on_smsc_bound env l now smsc session_id st =
     (let (throttle, st) = new_limiter (bl_max_msg_per_sec l) now st;
          session = \<lparr>s_kind = FromBind, s_session_id = session_id, s_system_id = bl_bind_name l,
            s_client_addr = smsc_server_address smsc\<rparr>;
          st = st\<lparr>st_binds := st_binds st @
                [\<lparr>bs_name = bl_bind_name l, bs_smsc = smsc, bs_ptr = st_next_ptr st,
                  bs_throttle = throttle, bs_response_timer = bl_response_timer l\<rparr>],
              st_next_ptr := st_next_ptr st + 1\<rparr>
      in dispatch_session_event env ''bound'' session st)"

definition on_smsc_unbound :: "'c script_env \<Rightarrow> BindListener \<Rightarrow> string \<Rightarrow> State \<Rightarrow> State" where
  "on_smsc_unbound env l session_id st =
     (let before = length (st_binds st);
          st = st\<lparr>st_binds := retain_binds session_id (st_binds st)\<rparr>;
          removed = length (st_binds st) < before
      in if removed
         then dispatch_session_event env ''unbound''
           \<lparr>s_kind = FromBind, s_session_id = session_id, s_system_id = bl_bind_name l,
            s_client_addr = []\<rparr> st
         else st)"

section \<open>The supervisor\<close>

datatype BIND_TYPE = TX | RX | TRX

definition bind_type_of :: "string \<Rightarrow> BIND_TYPE" where
  "bind_type_of s = (if s = ''transmitter'' then TX else if s = ''receiver'' then RX else TRX)"

definition listener_of :: "BindConfig \<Rightarrow> BindListener" where
  "listener_of cfg = \<lparr>bl_bind_name = bc_name cfg, bl_max_msg_per_sec = bc_max_msg_per_sec cfg,
     bl_response_timer = from_millis (bc_response_timer_ms cfg), bl_connect_failed = False\<rparr>"

definition awaiting_bind :: "bool \<Rightarrow> bool \<Rightarrow> nat \<Rightarrow> nat \<Rightarrow> bool" where
  "awaiting_bind alive connect_failed waited deadline \<longleftrightarrow> \<not> alive \<and> \<not> connect_failed \<and> waited < deadline"

definition bind_deadline :: nat where "bind_deadline = from_secs 15"
definition healthy_threshold :: nat where "healthy_threshold = from_secs 30"
definition poll_interval :: nat where "poll_interval = from_secs 1"

text \<open>
  What an attempt observes: a reading (alive, connect failed, time waited) each time the
  first loop tests its condition, whether the client is alive right after it, a reading of
  \<open>is_alive()\<close> each time the second loop tests its condition, and how long the session was
  held.
\<close>

record attempt =
  at_phase1 :: "(bool \<times> bool \<times> nat) list"
  at_alive :: bool
  at_phase2 :: "bool list"
  at_held :: nat

text \<open>Both loops give the number of sleeps they took; \<open>None\<close> is still looping.\<close>

fun wait_for_bind :: "(bool \<times> bool \<times> nat) list \<Rightarrow> nat option" where
  "wait_for_bind [] = None"
| "wait_for_bind ((alive, failed, waited) # rs) =
     (if awaiting_bind alive failed waited bind_deadline then map_option Suc (wait_for_bind rs)
      else Some 0)"

fun hold_session :: "bool list \<Rightarrow> nat option" where
  "hold_session [] = None"
| "hold_session (alive # rs) = (if alive then map_option Suc (hold_session rs) else Some 0)"

text \<open>
  One turn of the supervisor's loop, from the backoff it starts with: the delay it sleeps
  before the next attempt, and the next backoff.
\<close>

definition supervise_attempt ::
  "BindConfig \<Rightarrow> attempt \<Rightarrow> u64 \<Rightarrow> State \<Rightarrow> ((u64 \<times> u64) \<times> State) option" where
  "supervise_attempt cfg a backoff st =
     (case wait_for_bind (at_phase1 a) of
        None \<Rightarrow> None
      | Some _ \<Rightarrow>
          (case (if at_alive a then map_option (\<lambda>_. Some (at_held a)) (hold_session (at_phase2 a))
                 else Some None) of
             None \<Rightarrow> None
           | Some bound \<Rightarrow>
               let backoff = (case bound of
                     Some held \<Rightarrow> if healthy_threshold \<le> held then 1000 else backoff
                   | None \<Rightarrow> backoff);
                   st = (case bound of
                     Some _ \<Rightarrow> count (record_bind_reconnect (bc_name cfg)) st
                   | None \<Rightarrow> st)
               in Some ((backoff, min (backoff * 2) 60000), st)))"

text \<open>The delays of a run of attempts; the loop starts with one second.\<close>

fun supervise :: "BindConfig \<Rightarrow> attempt list \<Rightarrow> u64 \<Rightarrow> State \<Rightarrow> (u64 list \<times> State) option" where
  "supervise cfg [] backoff st = Some ([], st)"
| "supervise cfg (a # as) backoff st =
     (case supervise_attempt cfg a backoff st of
        None \<Rightarrow> None
      | Some ((delay, next), st) \<Rightarrow> map_option (map_prod ((#) delay) id) (supervise cfg as next st))"

definition run_bind_loop :: "BindConfig \<Rightarrow> attempt list \<Rightarrow> State \<Rightarrow> (u64 list \<times> State) option" where
  "run_bind_loop cfg as st = supervise cfg as 1000 st"

section \<open>Lemmas\<close>

definition backoff_ok :: "u64 \<Rightarrow> bool" where
  "backoff_ok b \<longleftrightarrow> 1000 \<le> b \<and> b \<le> 60000"

lemma next_backoff:
  assumes "backoff_ok b"
  shows "unat (min (b * 2) 60000) = min (unat b * 2) 60000 \<and> backoff_ok (min (b * 2) 60000)"
proof -
  have b: "1000 \<le> unat b" "unat b \<le> 60000"
    using assms by (simp_all add: backoff_ok_def word_le_nat_alt)
  then have "unat (b * 2) = unat b * 2"
    by (simp add: unat_word_ariths)
  with b show ?thesis
    by (auto simp: backoff_ok_def min_def word_le_nat_alt)
qed

text \<open>Whether an attempt came up, and whether it stayed up long enough to count as healthy.\<close>

definition came_up :: "attempt \<Rightarrow> bool" where
  "came_up a = at_alive a"

definition healthy :: "attempt \<Rightarrow> bool" where
  "healthy a \<longleftrightarrow> at_alive a \<and> healthy_threshold \<le> at_held a"

lemma supervise_attempt_result:
  assumes "supervise_attempt cfg a b st = Some ((delay, nxt), st')"
  shows "delay = (if healthy a then 1000 else b) \<and> nxt = min (delay * 2) 60000
    \<and> st' = (if came_up a then count (record_bind_reconnect (bc_name cfg)) st else st)"
  using assms
  by (auto simp: supervise_attempt_def healthy_def came_up_def Let_def split: option.splits if_splits)

lemma reconnect_count_record [simp]:
  "reconnect_count b (record_bind_reconnect b' m) =
     reconnect_count b m + (if b' = b \<and> metrics_enabled m then 1 else 0)"
  "metrics_enabled (record_bind_reconnect b' m) = metrics_enabled m"
  by (simp_all add: record_bind_reconnect_def reconnect_count_def)

text \<open>The reference schedule, on unbounded numbers.\<close>

fun schedule :: "attempt list \<Rightarrow> nat \<Rightarrow> nat list" where
  "schedule [] b = []"
| "schedule (a # as) b =
     (let d = (if healthy a then 1000 else b) in d # schedule as (min (d * 2) 60000))"

lemma supervise_schedule:
  assumes "supervise cfg as b st = Some (delays, st')" and "backoff_ok b"
  shows "map unat delays = schedule as (unat b) \<and> list_all backoff_ok delays \<and>
    metrics_enabled (st_metrics st') = metrics_enabled (st_metrics st) \<and>
    reconnect_count (bc_name cfg) (st_metrics st') = reconnect_count (bc_name cfg) (st_metrics st)
      + (if metrics_enabled (st_metrics st) then length (filter came_up as) else 0)"
  using assms
proof (induction cfg as b st arbitrary: delays rule: supervise.induct)
  case (1 cfg b st)
  then show ?case by simp
next
  case (2 cfg a as b st)
  from "2.prems"(1) obtain d n st1 ds where att: "supervise_attempt cfg a b st = Some ((d, n), st1)"
    and rest: "supervise cfg as n st1 = Some (ds, st')" and delays: "delays = d # ds"
    by (auto split: option.splits)
  note r = supervise_attempt_result[OF att]
  have d: "backoff_ok d" "unat d = (if healthy a then 1000 else unat b)"
    using r "2.prems"(2) by (auto simp: backoff_ok_def)
  note n = next_backoff[OF d(1)]
  have IH: "map unat ds = schedule as (unat n) \<and> list_all backoff_ok ds \<and>
    metrics_enabled (st_metrics st') = metrics_enabled (st_metrics st1) \<and>
    reconnect_count (bc_name cfg) (st_metrics st') = reconnect_count (bc_name cfg) (st_metrics st1)
      + (if metrics_enabled (st_metrics st1) then length (filter came_up as) else 0)"
    using "2.IH"[OF att refl refl rest] r n by simp
  with r d n show ?case
    by (auto simp: delays Let_def)
qed

lemma schedule_failures:
  "list_all (\<lambda>a. \<not> healthy a) as \<Longrightarrow>
   schedule as (min (1000 * 2 ^ k) 60000) = map (\<lambda>i. min (1000 * 2 ^ i) 60000) [k..<k + length as]"
proof (induction as arbitrary: k)
  case (Cons a as)
  have "min (min (1000 * 2 ^ k) 60000 * 2) 60000 = min (1000 * 2 ^ Suc k) (60000 :: nat)"
    by (simp add: min_def)
  with Cons show ?case
    by (simp add: Let_def upt_conv_Cons del: upt_Suc power_Suc)
qed simp

section \<open>Properties\<close>

text \<open>
  C30. The reconnect delays follow the reference schedule exactly, without wrap-around in
  their 64 bits: whatever the attempts do, every delay is between one second and one
  minute, a session that was held for the healthy threshold resets the delay to one
  second, every other attempt keeps it, and it doubles after each attempt. The reconnect
  counter goes up once for each session that had come up.
\<close>

theorem reconnect_delays:
  assumes "run_bind_loop cfg as st = Some (delays, st')"
  shows "map unat delays = schedule as 1000 \<and> list_all (\<lambda>d. 1000 \<le> d \<and> d \<le> 60000) delays
    \<and> reconnect_count (bc_name cfg) (st_metrics st') = reconnect_count (bc_name cfg) (st_metrics st)
      + (if metrics_enabled (st_metrics st) then length (filter came_up as) else 0)"
  using supervise_schedule[OF assms[unfolded run_bind_loop_def]]
  by (simp add: backoff_ok_def[abs_def])

text \<open>
  Against a peer that never holds a healthy session the delay before the \<open>k\<close>-th retry is
  \<open>2\<^sup>k\<close> seconds, capped at one minute.
\<close>

theorem backoff_doubles_to_the_cap:
  assumes "run_bind_loop cfg as st = Some (delays, st')" and "list_all (\<lambda>a. \<not> healthy a) as"
  shows "map unat delays = map (\<lambda>k. min (1000 * 2 ^ k) 60000) [0..<length as]"
  using supervise_schedule[OF assms(1)[unfolded run_bind_loop_def]] schedule_failures[OF assms(2), of 0]
  by (simp add: backoff_ok_def)

text \<open>
  The wait for a bind ends: with readings a poll interval apart it takes at most fifteen
  sleeps, and it ends at the first reading at which the session is up, the connect has
  failed or the deadline has passed, never later.
\<close>

theorem bind_wait_ends:
  assumes "15 < length rs" and "list_all (\<lambda>i. i * poll_interval \<le> snd (snd (rs ! i))) [0..<length rs]"
  shows "\<exists>n \<le> 15. wait_for_bind rs = Some n
    \<and> \<not> awaiting_bind (fst (rs ! n)) (fst (snd (rs ! n))) (snd (snd (rs ! n))) bind_deadline
    \<and> list_all (\<lambda>i. awaiting_bind (fst (rs ! i)) (fst (snd (rs ! i))) (snd (snd (rs ! i))) bind_deadline) [0..<n]"
proof -
  define waits where "waits = (\<lambda>i. awaiting_bind (fst (rs ! i)) (fst (snd (rs ! i))) (snd (snd (rs ! i))) bind_deadline)"
  have find: "wait_for_bind rs' = Some n" if "n < length rs'"
    "\<not> (case rs' ! n of (a, f, w) \<Rightarrow> awaiting_bind a f w bind_deadline)"
    "\<forall>i < n. case rs' ! i of (a, f, w) \<Rightarrow> awaiting_bind a f w bind_deadline" for rs' n
    using that
  proof (induction rs' arbitrary: n)
    case (Cons r rs')
    then show ?case
      by (cases n) (auto simp: All_less_Suc2 split: prod.splits)
  qed simp
  have "15 * poll_interval \<le> snd (snd (rs ! 15))"
    using assms by (auto simp: list_all_iff)
  then have "\<not> waits 15"
    by (simp add: waits_def awaiting_bind_def bind_deadline_def poll_interval_def from_secs_def)
  then obtain n where n: "n \<le> 15" "\<not> waits n" "\<forall>i < n. waits i"
    using ex_least_nat_le[of "\<lambda>i. \<not> waits i" 15] by blast
  then have "wait_for_bind rs = Some n"
    using assms(1) by (intro find) (auto simp: waits_def case_prod_beta)
  with n show ?thesis by (auto simp: waits_def list_all_iff)
qed

text \<open>Attempts for the witnesses: a refused connect, and a session held for a minute.\<close>

definition refused_attempt :: attempt where
  "refused_attempt = \<lparr>at_phase1 = [(False, False, 0), (False, True, 1000000000)], at_alive = False,
     at_phase2 = [], at_held = 0\<rparr>"

definition healthy_attempt :: attempt where
  "healthy_attempt = \<lparr>at_phase1 = [(True, False, 0)], at_alive = True, at_phase2 = [True, False],
     at_held = 60000000000\<rparr>"

definition sample_bind_config :: BindConfig where
  "sample_bind_config = \<lparr>bc_name = ''eu'', bc_host = ''smsc'', bc_port = 2775, bc_system_id = ''me'',
     bc_password = ''pw'', bc_system_type = [], bc_bind_type = ''transceiver'', bc_max_msg_per_sec = 0,
     bc_enquire_link_timer_ms = 30000, bc_response_timer_ms = 30000, bc_tls = None\<rparr>"

lemma sample_attempts:
  "supervise_attempt cfg refused_attempt b st = Some ((b, min (b * 2) 60000), st)"
  "supervise_attempt cfg healthy_attempt b st =
     Some ((1000, 2000), count (record_bind_reconnect (bc_name cfg)) st)"
  "\<not> healthy refused_attempt"
  by (simp_all add: supervise_attempt_def refused_attempt_def healthy_attempt_def awaiting_bind_def
      bind_deadline_def healthy_threshold_def from_secs_def healthy_def)

theorem reconnect_delays_witness:
  "\<exists>delays st'. run_bind_loop sample_bind_config [refused_attempt, refused_attempt, healthy_attempt]
       (spawn_state sample_config None) = Some (delays, st')
     \<and> list_all (\<lambda>d. 1000 \<le> d \<and> d \<le> 60000) delays"
proof -
  obtain delays st' where run: "run_bind_loop sample_bind_config
      [refused_attempt, refused_attempt, healthy_attempt] (spawn_state sample_config None) = Some (delays, st')"
    by (simp add: run_bind_loop_def sample_attempts)
  from run reconnect_delays[OF run] show ?thesis by blast
qed

theorem backoff_doubles_to_the_cap_witness:
  "\<exists>delays st'. run_bind_loop sample_bind_config [refused_attempt, refused_attempt, refused_attempt, refused_attempt, refused_attempt, refused_attempt, refused_attempt]
       (spawn_state sample_config None) = Some (delays, st')
     \<and> map unat delays = [1000, 2000, 4000, 8000, 16000, 32000, 60000]"
proof -
  obtain delays st' where run: "run_bind_loop sample_bind_config [refused_attempt, refused_attempt, refused_attempt, refused_attempt, refused_attempt, refused_attempt, refused_attempt]
      (spawn_state sample_config None) = Some (delays, st')"
    by (simp add: run_bind_loop_def sample_attempts)
  have "list_all (\<lambda>a. \<not> healthy a) [refused_attempt, refused_attempt, refused_attempt, refused_attempt, refused_attempt, refused_attempt, refused_attempt]"
    by (simp add: sample_attempts)
  from run backoff_doubles_to_the_cap[OF run this] show ?thesis
    by (simp add: upt_rec_numeral)
qed

theorem bind_wait_ends_witness:
  "\<exists>n \<le> 15. wait_for_bind (map (\<lambda>i. (False, 3 \<le> i, i * poll_interval)) [0..<16]) = Some n"
proof -
  have "15 < length (map (\<lambda>i. (False, 3 \<le> i, i * poll_interval)) [0..<16])" by simp
  moreover have "list_all (\<lambda>i. i * poll_interval \<le>
      snd (snd (map (\<lambda>i. (False, 3 \<le> i, i * poll_interval)) [0..<16] ! i)))
      [0..<length (map (\<lambda>i. (False, 3 \<le> i, i * poll_interval)) [0..<16])]"
    by (simp add: list_all_iff)
  ultimately show ?thesis using bind_wait_ends by blast
qed

text \<open>
  C39. The listener of a bind: every \<open>deliver_sm\<close>, receipts included, is dispatched and
  accepted exactly when the reply's status is \<open>ESME_ROK\<close> or no handler is registered, refused
  with the reply's own status, or with \<open>ESME_RSYSERR\<close> when the handler failed; a \<open>data_sm\<close> is
  answered exactly as the server answers one; and each is counted once, under its outcome.
\<close>

theorem bind_listener_contract:
  assumes "is_success_ok ok"
  shows "(let result = dispatch_on_pdu (io_script io) ''deliver_sm'' (from_deliver q) (bind_session l sid server);
        (r, st') = on_deliver_sm io l server sid q st
    in r = (case result of
              None \<Rightarrow> accept AcceptPlain
            | Some (Inl e) \<Rightarrow> reject ESME_RSYSERR
            | Some (Inr rep) \<Rightarrow>
                if rp_command_status rep = ESME_ROK then accept AcceptPlain
                else reject (rp_command_status rep))
     \<and> (\<forall>x. pdu_count EGRESS ''deliver_sm'' x (st_metrics st') = pdu_count EGRESS ''deliver_sm'' x (st_metrics st)
          + (if metrics_enabled (st_metrics st) \<and> x = (if accepted r then ACCEPTED else REJECTED) then 1 else 0)))
   \<and> (let result = dispatch_on_pdu (io_script io) ''data_sm'' (from_data d) (bind_session l sid server);
        (r, st') = on_bind_data_sm ok io l server sid d st
    in r = answer (In_data d) result
     \<and> (\<forall>x. pdu_count EGRESS ''data_sm'' x (st_metrics st') = pdu_count EGRESS ''data_sm'' x (st_metrics st)
          + (if metrics_enabled (st_metrics st) \<and> x = (if accepted r then ACCEPTED else REJECTED) then 1 else 0)))"
proof (rule conjI)
  show "let result = dispatch_on_pdu (io_script io) ''data_sm'' (from_data d) (bind_session l sid server);
        (r, st') = on_bind_data_sm ok io l server sid d st
    in r = answer (In_data d) result
     \<and> (\<forall>x. pdu_count EGRESS ''data_sm'' x (st_metrics st') = pdu_count EGRESS ''data_sm'' x (st_metrics st)
          + (if metrics_enabled (st_metrics st) \<and> x = (if accepted r then ACCEPTED else REJECTED) then 1 else 0))"
    using assms
    by (auto simp: on_bind_data_sm_def dispatch_pdu_opt_eq data_sm_response_def answer_def is_success_ok_def
        Let_def split: option.split sum.split)
qed (auto simp: on_deliver_sm_def dispatch_pdu_eq default_ok_def Let_def split: option.split sum.split)

text \<open>A request on a bind whose script has no handlers, for the witness.\<close>

definition sample_listener :: BindListener where
  "sample_listener = \<lparr>bl_bind_name = ''up'', bl_max_msg_per_sec = 0, bl_response_timer = 5, bl_connect_failed = False\<rparr>"

definition sample_data_request :: data_sm where
  "sample_data_request =
     \<lparr>dt_service_type = [], dt_source_addr_ton = 1, dt_source_addr_npi = 1, dt_source_addr = ''100'',
      dt_dest_addr_ton = 1, dt_dest_addr_npi = 1, dt_destination_addr = ''200'', dt_esm_class = 0,
      dt_registered_delivery = 0, dt_data_coding = 0, dt_tlvs = []\<rparr>"

theorem bind_listener_contract_witness:
  "fst (on_bind_data_sm spec_is_success sample_io sample_listener ''::1'' ''c1'' sample_data_request
     (spawn_state sample_config None)) = RejectWith ESME_RSYSERR []"
proof -
  have none: "dispatch_on_pdu (io_script sample_io) c p s = None" for c p s
    by (simp add: dispatch_on_pdu_def on_executor_def first_matching_def handlers_def sample_io_def
        sample_env_def PDU_KIND_def SESSION_KIND_def)
  from bind_listener_contract[OF spec_is_success_ok, THEN conjunct2, of sample_io sample_data_request
      sample_listener "''c1''" "''::1''" "spawn_state sample_config None"]
  show ?thesis by (auto simp: none answer_def Let_def split: prod.splits)
qed

end
