(* ===== verification/Smpp_Sends.thy ===== *)
theory Smpp_Sends
  imports Smpp_Client
begin

text \<open>
  The send helpers scripts await (\<open>src/src/sends.rs\<close>). The codec's session is a parameter:
  what its send call returned, how long that took, and what other tasks did to the state
  meanwhile. A helper gives its result, the request it put on a session (the session's
  handle and the PDU) if any, and the state; \<open>None\<close> is a helper still pacing when its clock
  readings end.
\<close>

section \<open>Requests on the wire\<close>

datatype wire =
    Wire_submit submit_sm
  | Wire_multi submit_sm_multi
  | Wire_data data_sm
  | Wire_cancel cancel_sm
  | Wire_query query_sm
  | Wire_replace replace_sm
  | Wire_deliver deliver_sm
  | Wire_alert u8 u8 string u8 u8 string "u8 option"

record 'q net =
  nt_clock :: "nat list"
  nt_result :: "(SmppError, 'q) result"
  nt_waited :: nat
  nt_meanwhile :: "State \<Rightarrow> State"

type_synonym 'r sent = "('r py_result \<times> (nat \<times> wire) option \<times> State) option"

text \<open>
  \<open>{:?}\<close> of a string: quoted, with quotes, backslashes and control characters escaped;
  other characters are taken to be printable.
\<close>

definition debug_char :: "char \<Rightarrow> string" where
  "debug_char c =
     (if c = CHR 0x22 then [CHR 0x5C, CHR 0x22] else if c = CHR 0x5C then [CHR 0x5C, CHR 0x5C]
      else if c = CHR 0x0A then [CHR 0x5C, CHR ''n''] else if c = CHR 0x0D then [CHR 0x5C, CHR ''r'']
      else if c = CHR 0x09 then [CHR 0x5C, CHR ''t''] else if c = CHR 0x00 then [CHR 0x5C, CHR ''0'']
      else if (of_char c :: nat) < 32 \<or> of_char c = (127 :: nat)
        then [CHR 0x5C] @ ''u{'' @ to_ascii_lowercase (hex_upper 1 (of_char c)) @ ''}''
      else [c])"

definition str_debug :: "string \<Rightarrow> string" where
  "str_debug s = [CHR 0x22] @ concat (map debug_char s) @ [CHR 0x22]"

section \<open>Checks\<close>

definition SHORT_MESSAGE_MAX :: nat where "SHORT_MESSAGE_MAX = 254"

definition check_short_message :: "string \<Rightarrow> nat \<Rightarrow> bool \<Rightarrow> unit py_result" where
  "check_short_message command len payload_available =
     (if len \<le> SHORT_MESSAGE_MAX then Inr ()
      else Inl (PyValueError (Short_message_too_long command len payload_available)))"

definition fold_message_payload :: "codec \<Rightarrow> string \<Rightarrow> bytes \<Rightarrow> Tlv list \<Rightarrow> (Tlv list) py_result" where
  "fold_message_payload C command short_message tlvs =
     (if short_message = [] then Inr tlvs
      else if get_message_payload C tlvs \<noteq> None then Inl (PyValueError (Body_given_twice command))
      else Inr (tlvs @ [\<lparr>tlv_tag = tag_code C MessagePayload, tlv_value = short_message\<rparr>]))"

definition build_data_sm ::
  "codec \<Rightarrow> string \<Rightarrow> u8 \<Rightarrow> u8 \<Rightarrow> string \<Rightarrow> u8 \<Rightarrow> u8 \<Rightarrow> string \<Rightarrow> u8 \<Rightarrow> u8 \<Rightarrow> u8 \<Rightarrow> bytes \<Rightarrow> Tlv list
   \<Rightarrow> data_sm py_result" where
  "build_data_sm C service_type source_addr_ton source_addr_npi source_addr dest_addr_ton dest_addr_npi
      destination_addr esm_class registered_delivery data_coding short_message tlvs =
     rbind (fold_message_payload C ''data_sm'' short_message tlvs) (\<lambda>tlvs. Inr
       \<lparr>dt_service_type = service_type,
        dt_source_addr_ton = source_addr_ton,
        dt_source_addr_npi = source_addr_npi,
        dt_source_addr = source_addr,
        dt_dest_addr_ton = dest_addr_ton,
        dt_dest_addr_npi = dest_addr_npi,
        dt_destination_addr = destination_addr,
        dt_esm_class = esm_class,
        dt_registered_delivery = registered_delivery,
        dt_data_coding = data_coding,
        dt_tlvs = tlvs\<rparr>)"

section \<open>Answers\<close>

record SmppResp =
  sr_command_status :: string
  sr_command_status_code :: u32
  sr_message_id :: string

definition SmppResp_ok :: "SmppResp \<Rightarrow> bool" where
  "SmppResp_ok r \<longleftrightarrow> sr_command_status_code r = status_code ESME_ROK"

definition SmppResp_throttled :: "SmppResp \<Rightarrow> bool" where
  "SmppResp_throttled r \<longleftrightarrow> is_throttle (sr_command_status_code r)"

definition SmppResp_from_reply :: "codec \<Rightarrow> response \<Rightarrow> SmppResp" where
  "SmppResp_from_reply C rep =
     (let status = Reply_status rep
      in \<lparr>sr_command_status = status_name (from_command_status C) status,
          sr_command_status_code = status, sr_message_id = Reply_message_id rep\<rparr>)"

definition SmppResp_written :: "codec \<Rightarrow> SmppResp" where
  "SmppResp_written C =
     \<lparr>sr_command_status = status_name (from_command_status C) (status_code ESME_ROK),
      sr_command_status_code = status_code ESME_ROK, sr_message_id = []\<rparr>"

record QueryResp =
  qr_command_status :: string
  qr_command_status_code :: u32
  qr_message_id :: string
  qr_message_state :: u8
  qr_final_date :: string
  qr_error_code :: u8

definition QueryResp_ok :: "QueryResp \<Rightarrow> bool" where
  "QueryResp_ok r \<longleftrightarrow> qr_command_status_code r = status_code ESME_ROK"

definition QueryResp_throttled :: "QueryResp \<Rightarrow> bool" where
  "QueryResp_throttled r \<longleftrightarrow> is_throttle (qr_command_status_code r)"

definition QueryResp_from_reply :: "codec \<Rightarrow> query_sm_resp \<Rightarrow> QueryResp" where
  "QueryResp_from_reply C rep =
     (let status = Reply_status (Query_sm_resp rep)
      in \<lparr>qr_command_status = status_name (from_command_status C) status,
          qr_command_status_code = status, qr_message_id = qp_message_id rep,
          qr_message_state = qp_message_state rep, qr_final_date = qp_final_date rep,
          qr_error_code = qp_error_code rep\<rparr>)"

section \<open>Lookups, pacing, settling\<close>

record BindTarget =
  tg_smsc :: nat
  tg_throttle :: "nat option"
  tg_response_timer :: nat

definition bind_handle :: "State \<Rightarrow> string \<Rightarrow> BindTarget py_result" where
  "bind_handle st bind =
     ok_or (map_option (\<lambda>b. \<lparr>tg_smsc = bs_ptr b, tg_throttle = bs_throttle b,
                              tg_response_timer = bs_response_timer b\<rparr>)
             (find (\<lambda>b. bs_name b = bind) (st_binds st)))
       (PyKeyError (Bind_not_bound bind))"

definition esme_handle :: "State \<Rightarrow> string \<Rightarrow> EsmeSession py_result" where
  "esme_handle st session_id =
     ok_or (find_esme session_id (st_esmes st)) (PyKeyError (Esme_not_bound session_id))"

definition pace :: "nat list \<Rightarrow> nat option \<Rightarrow> State \<Rightarrow> State option" where
  "pace clock throttle st =
     (case throttle of
        None \<Rightarrow> Some st
      | Some a \<Rightarrow>
          (case acquire clock False (st_limiters st ! a) of
             None \<Rightarrow> None
           | Some (waited, b) \<Rightarrow>
               let st = set_limiter a b st
               in Some (if waited then count (record_throttled EGRESS) st else st)))"

definition settle_on_bind :: "'q net \<Rightarrow> BindTarget \<Rightarrow> string \<Rightarrow> string \<Rightarrow> State \<Rightarrow> 'q py_result" where
  "settle_on_bind N target bind command st =
     map_err (\<lambda>failure. into_pyerr failure command (''bind '' @ str_debug bind))
       (settle (nt_result N) (nt_waited N) (tg_response_timer target)
         (bind_gone (st_binds st) (tg_smsc target)))"

definition settle_on_esme :: "'q net \<Rightarrow> EsmeSession \<Rightarrow> string \<Rightarrow> string \<Rightarrow> State \<Rightarrow> 'q py_result" where
  "settle_on_esme N esme session_id command st =
     map_err (\<lambda>failure. into_pyerr failure command (''session '' @ str_debug session_id))
       (settle (nt_result N) (nt_waited N) (es_response_timer esme)
         (esme_gone (st_esmes st) (es_ptr esme)))"

definition require_state :: "State option \<Rightarrow> State py_result" where
  "require_state st = ok_or st (PyRuntimeError Runtime_not_started)"

text \<open>
  The body of the awaitable of a request on a bind: resolve the bind, pace if this command
  is paced, send, wait, report.
\<close>

definition request_on_bind ::
  "'q net \<Rightarrow> string \<Rightarrow> bool \<Rightarrow> string \<Rightarrow> wire \<Rightarrow> ('q \<Rightarrow> 'r) \<Rightarrow> State \<Rightarrow> 'r sent" where
  "request_on_bind N bind paced command w convert st =
     (case bind_handle st bind of
        Inl e \<Rightarrow> Some (Inl e, None, st)
      | Inr target \<Rightarrow>
          (case (if paced then pace (nt_clock N) (tg_throttle target) st else Some st) of
             None \<Rightarrow> None
           | Some st \<Rightarrow>
               let st = nt_meanwhile N st
               in Some (rbind (settle_on_bind N target bind command st) (\<lambda>resp. Inr (convert resp)),
                        Some (tg_smsc target, w), st)))"

definition request_on_esme ::
  "'q net \<Rightarrow> string \<Rightarrow> bool \<Rightarrow> string \<Rightarrow> wire \<Rightarrow> ('q \<Rightarrow> 'r) \<Rightarrow> State \<Rightarrow> 'r sent" where
  "request_on_esme N session_id needs_rx command w convert st =
     (case esme_handle st session_id of
        Inl e \<Rightarrow> Some (Inl e, None, st)
      | Inr esme \<Rightarrow>
          if needs_rx \<and> \<not> esme_can_receive (es_esme esme)
          then Some (Inl (PyRuntimeError (Esme_not_receiver session_id command)), None, st)
          else
            let st = nt_meanwhile N st
            in Some (rbind (settle_on_esme N esme session_id command st) (\<lambda>resp. Inr (convert resp)),
                     Some (es_ptr esme, w), st))"

text \<open>A check that fails before the awaitable exists: the call itself raises.\<close>

definition checked :: "'a py_result \<Rightarrow> State \<Rightarrow> ('a \<Rightarrow> 'r sent) \<Rightarrow> 'r sent" where
  "checked c st k = (case c of Inl e \<Rightarrow> Some (Inl e, None, st) | Inr a \<Rightarrow> k a)"

section \<open>Keyword arguments\<close>

text \<open>
  A helper's keyword arguments, converted to the types of its signature; \<open>None\<close> is an
  argument the script left out, which takes the signature's default. \<open>submit_via\<close>,
  \<open>submit_multi_via\<close> and \<open>deliver_to\<close> share theirs, as do \<open>data_via\<close> and \<open>data_to\<close>.
\<close>

record 'o message_kw =
  mk_source_addr :: string
  mk_short_message :: bytes
  mk_source_addr_ton :: "u8 option"
  mk_source_addr_npi :: "u8 option"
  mk_dest_addr_ton :: "u8 option"
  mk_dest_addr_npi :: "u8 option"
  mk_service_type :: "string option"
  mk_esm_class :: "u8 option"
  mk_protocol_id :: "u8 option"
  mk_priority_flag :: "u8 option"
  mk_schedule_delivery_time :: "string option"
  mk_validity_period :: "string option"
  mk_registered_delivery :: "u8 option"
  mk_replace_if_present_flag :: "u8 option"
  mk_data_coding :: "u8 option"
  mk_sm_default_msg_id :: "u8 option"
  mk_tlvs :: "'o pydict option"

record 'o data_kw =
  dk_source_addr :: string
  dk_destination_addr :: string
  dk_short_message :: "bytes option"
  dk_source_addr_ton :: "u8 option"
  dk_source_addr_npi :: "u8 option"
  dk_dest_addr_ton :: "u8 option"
  dk_dest_addr_npi :: "u8 option"
  dk_service_type :: "string option"
  dk_esm_class :: "u8 option"
  dk_registered_delivery :: "u8 option"
  dk_data_coding :: "u8 option"
  dk_tlvs :: "'o pydict option"

record cancel_kw =
  ck_message_id :: string
  ck_source_addr :: "string option"
  ck_destination_addr :: "string option"
  ck_service_type :: "string option"
  ck_source_addr_ton :: "u8 option"
  ck_source_addr_npi :: "u8 option"
  ck_dest_addr_ton :: "u8 option"
  ck_dest_addr_npi :: "u8 option"

record query_kw =
  qk_message_id :: string
  qk_source_addr :: "string option"
  qk_source_addr_ton :: "u8 option"
  qk_source_addr_npi :: "u8 option"

record replace_kw =
  rk_message_id :: string
  rk_source_addr :: "string option"
  rk_source_addr_ton :: "u8 option"
  rk_source_addr_npi :: "u8 option"
  rk_schedule_delivery_time :: "string option"
  rk_validity_period :: "string option"
  rk_registered_delivery :: "u8 option"
  rk_sm_default_msg_id :: "u8 option"
  rk_short_message :: "bytes option"

record alert_kw =
  ak_source_addr :: string
  ak_esme_addr :: string
  ak_source_addr_ton :: "u8 option"
  ak_source_addr_npi :: "u8 option"
  ak_esme_addr_ton :: "u8 option"
  ak_esme_addr_npi :: "u8 option"
  ak_ms_availability_status :: "u8 option"

section \<open>Outbound\<close>

definition submit_sm_pdu :: "codec \<Rightarrow> string \<Rightarrow> 'o message_kw \<Rightarrow> Tlv list \<Rightarrow> submit_sm" where
  "submit_sm_pdu C destination_addr kw tlvs =
     \<lparr>ss_service_type = unwrap_or [] (mk_service_type kw),
      ss_source_addr_ton = unwrap_or 1 (mk_source_addr_ton kw),
      ss_source_addr_npi = unwrap_or 1 (mk_source_addr_npi kw),
      ss_source_addr = mk_source_addr kw,
      ss_dest_addr_ton = unwrap_or 1 (mk_dest_addr_ton kw),
      ss_dest_addr_npi = unwrap_or 1 (mk_dest_addr_npi kw),
      ss_destination_addr = destination_addr,
      ss_esm_class = unwrap_or 0 (mk_esm_class kw),
      ss_protocol_id = unwrap_or 0 (mk_protocol_id kw),
      ss_priority_flag = unwrap_or 0 (mk_priority_flag kw),
      ss_schedule_delivery_time = unwrap_or [] (mk_schedule_delivery_time kw),
      ss_validity_period = unwrap_or [] (mk_validity_period kw),
      ss_registered_delivery = unwrap_or 0 (mk_registered_delivery kw),
      ss_replace_if_present_flag = unwrap_or 0 (mk_replace_if_present_flag kw),
      ss_data_coding = unwrap_or 0 (mk_data_coding kw),
      ss_sm_default_msg_id = unwrap_or 0 (mk_sm_default_msg_id kw),
      ss_sm_length = sm_length_of C (mk_short_message kw),
      ss_short_message = mk_short_message kw,
      ss_tlvs = tlvs\<rparr>"

definition submit_via ::
  "codec \<Rightarrow> response net \<Rightarrow> string \<Rightarrow> string \<Rightarrow> 'o message_kw \<Rightarrow> State \<Rightarrow> SmppResp sent" where
  "submit_via C N bind destination_addr kw st =
     checked (check_short_message ''submit_sm'' (length (mk_short_message kw)) True) st (\<lambda>_.
     checked (tlvs_from_py C (mk_tlvs kw)) st (\<lambda>tlvs.
     request_on_bind N bind True ''submit_sm'' (Wire_submit (submit_sm_pdu C destination_addr kw tlvs))
       (SmppResp_from_reply C) st))"

definition submit_sm_multi_pdu ::
  "codec \<Rightarrow> DestAddress list \<Rightarrow> 'o message_kw \<Rightarrow> Tlv list \<Rightarrow> submit_sm_multi" where
  "submit_sm_multi_pdu C dest_addresses kw tlvs =
     \<lparr>sm_service_type = unwrap_or [] (mk_service_type kw),
      sm_source_addr_ton = unwrap_or 1 (mk_source_addr_ton kw),
      sm_source_addr_npi = unwrap_or 1 (mk_source_addr_npi kw),
      sm_source_addr = mk_source_addr kw,
      sm_esm_class = unwrap_or 0 (mk_esm_class kw),
      sm_protocol_id = unwrap_or 0 (mk_protocol_id kw),
      sm_priority_flag = unwrap_or 0 (mk_priority_flag kw),
      sm_schedule_delivery_time = unwrap_or [] (mk_schedule_delivery_time kw),
      sm_validity_period = unwrap_or [] (mk_validity_period kw),
      sm_registered_delivery = unwrap_or 0 (mk_registered_delivery kw),
      sm_replace_if_present_flag = unwrap_or 0 (mk_replace_if_present_flag kw),
      sm_data_coding = unwrap_or 0 (mk_data_coding kw),
      sm_sm_default_msg_id = unwrap_or 0 (mk_sm_default_msg_id kw),
      sm_sm_length = sm_length_of C (mk_short_message kw),
      sm_short_message = mk_short_message kw,
      sm_tlvs = tlvs,
      sm_dest_addresses = dest_addresses\<rparr>"

definition submit_multi_via ::
  "codec \<Rightarrow> response net \<Rightarrow> string \<Rightarrow> string list \<Rightarrow> 'o message_kw \<Rightarrow> State \<Rightarrow> SmppResp sent" where
  "submit_multi_via C N bind destinations kw st =
     checked (check_short_message ''submit_sm_multi'' (length (mk_short_message kw)) True) st (\<lambda>_.
     checked (tlvs_from_py C (mk_tlvs kw)) st (\<lambda>tlvs.
     let dest_addresses = map (Sme (unwrap_or 1 (mk_dest_addr_ton kw)) (unwrap_or 1 (mk_dest_addr_npi kw)))
           destinations in
     if 254 < length dest_addresses
     then Some (Inl (PyValueError (Too_many_destinations (length dest_addresses))), None, st)
     else request_on_bind N bind True ''submit_sm_multi''
       (Wire_multi (submit_sm_multi_pdu C dest_addresses kw tlvs)) (SmppResp_from_reply C) st))"

definition data_sm_pdu :: "codec \<Rightarrow> 'o data_kw \<Rightarrow> data_sm py_result" where
  "data_sm_pdu C kw =
     rbind (tlvs_from_py C (dk_tlvs kw)) (\<lambda>tlvs.
       build_data_sm C (unwrap_or [] (dk_service_type kw))
         (unwrap_or 1 (dk_source_addr_ton kw)) (unwrap_or 1 (dk_source_addr_npi kw)) (dk_source_addr kw)
         (unwrap_or 1 (dk_dest_addr_ton kw)) (unwrap_or 1 (dk_dest_addr_npi kw)) (dk_destination_addr kw)
         (unwrap_or 0 (dk_esm_class kw)) (unwrap_or 0 (dk_registered_delivery kw))
         (unwrap_or 0 (dk_data_coding kw)) (unwrap_or [] (dk_short_message kw)) tlvs)"

definition data_via ::
  "codec \<Rightarrow> response net \<Rightarrow> string \<Rightarrow> 'o data_kw \<Rightarrow> State \<Rightarrow> SmppResp sent" where
  "data_via C N bind kw st =
     checked (data_sm_pdu C kw) st (\<lambda>pdu.
     request_on_bind N bind True ''data_sm'' (Wire_data pdu) (SmppResp_from_reply C) st)"

definition cancel_via ::
  "codec \<Rightarrow> response net \<Rightarrow> string \<Rightarrow> cancel_kw \<Rightarrow> State \<Rightarrow> SmppResp sent" where
  "cancel_via C N bind kw st =
     request_on_bind N bind False ''cancel_sm''
       (Wire_cancel
         \<lparr>cs_service_type = unwrap_or [] (ck_service_type kw),
          cs_message_id = ck_message_id kw,
          cs_source_addr_ton = unwrap_or 1 (ck_source_addr_ton kw),
          cs_source_addr_npi = unwrap_or 1 (ck_source_addr_npi kw),
          cs_source_addr = unwrap_or [] (ck_source_addr kw),
          cs_dest_addr_ton = unwrap_or 1 (ck_dest_addr_ton kw),
          cs_dest_addr_npi = unwrap_or 1 (ck_dest_addr_npi kw),
          cs_destination_addr = unwrap_or [] (ck_destination_addr kw)\<rparr>)
       (SmppResp_from_reply C) st"

definition query_via ::
  "codec \<Rightarrow> query_sm_resp net \<Rightarrow> string \<Rightarrow> query_kw \<Rightarrow> State \<Rightarrow> QueryResp sent" where
  "query_via C N bind kw st =
     request_on_bind N bind False ''query_sm''
       (Wire_query
         \<lparr>qs_message_id = qk_message_id kw,
          qs_source_addr_ton = unwrap_or 1 (qk_source_addr_ton kw),
          qs_source_addr_npi = unwrap_or 1 (qk_source_addr_npi kw),
          qs_source_addr = unwrap_or [] (qk_source_addr kw)\<rparr>)
       (QueryResp_from_reply C) st"

definition replace_via ::
  "codec \<Rightarrow> response net \<Rightarrow> string \<Rightarrow> replace_kw \<Rightarrow> State \<Rightarrow> SmppResp sent" where
  "replace_via C N bind kw st =
     (let short_message = unwrap_or [] (rk_short_message kw) in
     checked (check_short_message ''replace_sm'' (length short_message) False) st (\<lambda>_.
     request_on_bind N bind False ''replace_sm''
       (Wire_replace
         \<lparr>rs_message_id = rk_message_id kw,
          rs_source_addr_ton = unwrap_or 1 (rk_source_addr_ton kw),
          rs_source_addr_npi = unwrap_or 1 (rk_source_addr_npi kw),
          rs_source_addr = unwrap_or [] (rk_source_addr kw),
          rs_schedule_delivery_time = unwrap_or [] (rk_schedule_delivery_time kw),
          rs_validity_period = unwrap_or [] (rk_validity_period kw),
          rs_registered_delivery = unwrap_or 0 (rk_registered_delivery kw),
          rs_sm_default_msg_id = unwrap_or 0 (rk_sm_default_msg_id kw),
          rs_sm_length = sm_length_of C short_message,
          rs_short_message = short_message\<rparr>)
       (SmppResp_from_reply C) st))"

section \<open>Inbound\<close>

definition deliver_sm_pdu :: "codec \<Rightarrow> string \<Rightarrow> 'o message_kw \<Rightarrow> Tlv list \<Rightarrow> deliver_sm" where
  "deliver_sm_pdu C destination_addr kw tlvs =
     \<lparr>ds_service_type = unwrap_or [] (mk_service_type kw),
      ds_source_addr_ton = unwrap_or 1 (mk_source_addr_ton kw),
      ds_source_addr_npi = unwrap_or 1 (mk_source_addr_npi kw),
      ds_source_addr = mk_source_addr kw,
      ds_dest_addr_ton = unwrap_or 1 (mk_dest_addr_ton kw),
      ds_dest_addr_npi = unwrap_or 1 (mk_dest_addr_npi kw),
      ds_destination_addr = destination_addr,
      ds_esm_class = unwrap_or 0 (mk_esm_class kw),
      ds_protocol_id = unwrap_or 0 (mk_protocol_id kw),
      ds_priority_flag = unwrap_or 0 (mk_priority_flag kw),
      ds_schedule_delivery_time = unwrap_or [] (mk_schedule_delivery_time kw),
      ds_validity_period = unwrap_or [] (mk_validity_period kw),
      ds_registered_delivery = unwrap_or 0 (mk_registered_delivery kw),
      ds_replace_if_present_flag = unwrap_or 0 (mk_replace_if_present_flag kw),
      ds_data_coding = unwrap_or 0 (mk_data_coding kw),
      ds_sm_default_msg_id = unwrap_or 0 (mk_sm_default_msg_id kw),
      ds_sm_length = sm_length_of C (mk_short_message kw),
      ds_short_message = mk_short_message kw,
      ds_tlvs = tlvs\<rparr>"

definition deliver_to ::
  "codec \<Rightarrow> response net \<Rightarrow> string \<Rightarrow> string \<Rightarrow> 'o message_kw \<Rightarrow> State \<Rightarrow> SmppResp sent" where
  "deliver_to C N session_id destination_addr kw st =
     checked (check_short_message ''deliver_sm'' (length (mk_short_message kw)) True) st (\<lambda>_.
     checked (tlvs_from_py C (mk_tlvs kw)) st (\<lambda>tlvs.
     request_on_esme N session_id True ''deliver_sm'' (Wire_deliver (deliver_sm_pdu C destination_addr kw tlvs))
       (SmppResp_from_reply C) st))"

definition data_to ::
  "codec \<Rightarrow> response net \<Rightarrow> string \<Rightarrow> 'o data_kw \<Rightarrow> State \<Rightarrow> SmppResp sent" where
  "data_to C N session_id kw st =
     checked (data_sm_pdu C kw) st (\<lambda>pdu.
     request_on_esme N session_id False ''data_sm'' (Wire_data pdu) (SmppResp_from_reply C) st)"

text \<open>No response to wait for: only the write, after which other tasks may have run.\<close>

definition alert_to ::
  "codec \<Rightarrow> response net \<Rightarrow> string \<Rightarrow> alert_kw \<Rightarrow> State \<Rightarrow> SmppResp sent" where
  "alert_to C N session_id kw st =
     (case esme_handle st session_id of
        Inl e \<Rightarrow> Some (Inl e, None, st)
      | Inr esme \<Rightarrow>
          if \<not> esme_can_receive (es_esme esme)
          then Some (Inl (PyRuntimeError (Esme_not_receiver session_id ''alert_notification'')), None, st)
          else Some (Inr (SmppResp_written C),
                 Some (es_ptr esme,
                   Wire_alert (unwrap_or 1 (ak_source_addr_ton kw)) (unwrap_or 1 (ak_source_addr_npi kw))
                     (ak_source_addr kw) (unwrap_or 1 (ak_esme_addr_ton kw))
                     (unwrap_or 1 (ak_esme_addr_npi kw)) (ak_esme_addr kw) (ak_ms_availability_status kw)),
                 nt_meanwhile N st))"

text \<open>Every helper first needs the runtime to have been started.\<close>

definition with_runtime :: "State option \<Rightarrow> (State \<Rightarrow> 'r sent) \<Rightarrow> ('r py_result \<times> (nat \<times> wire) option) option" where
  "with_runtime rt f =
     (case require_state rt of
        Inl e \<Rightarrow> Some (Inl e, None)
      | Inr st \<Rightarrow> map_option (\<lambda>(r, w, _). (r, w)) (f st))"

end
