(* ===== verification/Smpp_Calls.thy ===== *)
theory Smpp_Calls
  imports Smpp_Sends
begin

text \<open>
  What the send helpers of \<open>src/src/sends.rs\<close> promise a script: which requests reach a
  session and in what shape, how the peer's answer or its absence is reported, that a refused
  call has no effect, and that a PDU a script relays arrives unchanged.
\<close>

section \<open>All calls together\<close>

datatype 'o call =
    Call_submit string "'o message_kw"
  | Call_multi "string list" "'o message_kw"
  | Call_data "'o data_kw"
  | Call_cancel cancel_kw
  | Call_replace replace_kw
  | Call_deliver string "'o message_kw"
  | Call_data_to "'o data_kw"

text \<open>A call of a helper that resolves to an \<open>SmppResp\<close>; the target is a bind or a session id.\<close>

primrec send :: "codec \<Rightarrow> response net \<Rightarrow> string \<Rightarrow> 'o call \<Rightarrow> State \<Rightarrow> SmppResp sent" where
  "send C N target (Call_submit d kw) st = submit_via C N target d kw st"
| "send C N target (Call_multi ds kw) st = submit_multi_via C N target ds kw st"
| "send C N target (Call_data kw) st = data_via C N target kw st"
| "send C N target (Call_cancel kw) st = cancel_via C N target kw st"
| "send C N target (Call_replace kw) st = replace_via C N target kw st"
| "send C N target (Call_deliver d kw) st = deliver_to C N target d kw st"
| "send C N target (Call_data_to kw) st = data_to C N target kw st"

text \<open>The contract, one row per helper.\<close>

primrec call_command :: "'o call \<Rightarrow> string" where
  "call_command (Call_submit d kw) = ''submit_sm''"
| "call_command (Call_multi ds kw) = ''submit_sm_multi''"
| "call_command (Call_data kw) = ''data_sm''"
| "call_command (Call_cancel kw) = ''cancel_sm''"
| "call_command (Call_replace kw) = ''replace_sm''"
| "call_command (Call_deliver d kw) = ''deliver_sm''"
| "call_command (Call_data_to kw) = ''data_sm''"

primrec call_on_bind :: "'o call \<Rightarrow> bool" where
  "call_on_bind (Call_submit d kw) = True"
| "call_on_bind (Call_multi ds kw) = True"
| "call_on_bind (Call_data kw) = True"
| "call_on_bind (Call_cancel kw) = True"
| "call_on_bind (Call_replace kw) = True"
| "call_on_bind (Call_deliver d kw) = False"
| "call_on_bind (Call_data_to kw) = False"

primrec call_paced :: "'o call \<Rightarrow> bool" where
  "call_paced (Call_submit d kw) = True"
| "call_paced (Call_multi ds kw) = True"
| "call_paced (Call_data kw) = True"
| "call_paced (Call_cancel kw) = False"
| "call_paced (Call_replace kw) = False"
| "call_paced (Call_deliver d kw) = False"
| "call_paced (Call_data_to kw) = False"

primrec call_needs_rx :: "'o call \<Rightarrow> bool" where
  "call_needs_rx (Call_submit d kw) = False"
| "call_needs_rx (Call_multi ds kw) = False"
| "call_needs_rx (Call_data kw) = False"
| "call_needs_rx (Call_cancel kw) = False"
| "call_needs_rx (Call_replace kw) = False"
| "call_needs_rx (Call_deliver d kw) = True"
| "call_needs_rx (Call_data_to kw) = False"

text \<open>The checks that run before anything is awaited, and the request they let through.\<close>

primrec prepare :: "codec \<Rightarrow> 'o call \<Rightarrow> wire py_result" where
  "prepare C (Call_submit d kw) =
     rbind (check_short_message ''submit_sm'' (length (mk_short_message kw)) True) (\<lambda>_.
     rbind (tlvs_from_py C (mk_tlvs kw)) (\<lambda>tlvs. Inr (Wire_submit (submit_sm_pdu C d kw tlvs))))"
| "prepare C (Call_multi ds kw) =
     rbind (check_short_message ''submit_sm_multi'' (length (mk_short_message kw)) True) (\<lambda>_.
     rbind (tlvs_from_py C (mk_tlvs kw)) (\<lambda>tlvs.
     if 254 < length ds then Inl (PyValueError (Too_many_destinations (length ds)))
     else Inr (Wire_multi (submit_sm_multi_pdu C
       (map (Sme (unwrap_or 1 (mk_dest_addr_ton kw)) (unwrap_or 1 (mk_dest_addr_npi kw))) ds) kw tlvs))))"
| "prepare C (Call_data kw) = rbind (data_sm_pdu C kw) (\<lambda>q. Inr (Wire_data q))"
| "prepare C (Call_cancel kw) = Inr (Wire_cancel
     \<lparr>cs_service_type = unwrap_or [] (ck_service_type kw), cs_message_id = ck_message_id kw,
      cs_source_addr_ton = unwrap_or 1 (ck_source_addr_ton kw),
      cs_source_addr_npi = unwrap_or 1 (ck_source_addr_npi kw),
      cs_source_addr = unwrap_or [] (ck_source_addr kw),
      cs_dest_addr_ton = unwrap_or 1 (ck_dest_addr_ton kw),
      cs_dest_addr_npi = unwrap_or 1 (ck_dest_addr_npi kw),
      cs_destination_addr = unwrap_or [] (ck_destination_addr kw)\<rparr>)"
| "prepare C (Call_replace kw) =
     rbind (check_short_message ''replace_sm'' (length (unwrap_or [] (rk_short_message kw))) False) (\<lambda>_.
     Inr (Wire_replace
      \<lparr>rs_message_id = rk_message_id kw,
       rs_source_addr_ton = unwrap_or 1 (rk_source_addr_ton kw),
       rs_source_addr_npi = unwrap_or 1 (rk_source_addr_npi kw),
       rs_source_addr = unwrap_or [] (rk_source_addr kw),
       rs_schedule_delivery_time = unwrap_or [] (rk_schedule_delivery_time kw),
       rs_validity_period = unwrap_or [] (rk_validity_period kw),
       rs_registered_delivery = unwrap_or 0 (rk_registered_delivery kw),
       rs_sm_default_msg_id = unwrap_or 0 (rk_sm_default_msg_id kw),
       rs_sm_length = sm_length_of C (unwrap_or [] (rk_short_message kw)),
       rs_short_message = unwrap_or [] (rk_short_message kw)\<rparr>))"
| "prepare C (Call_deliver d kw) =
     rbind (check_short_message ''deliver_sm'' (length (mk_short_message kw)) True) (\<lambda>_.
     rbind (tlvs_from_py C (mk_tlvs kw)) (\<lambda>tlvs. Inr (Wire_deliver (deliver_sm_pdu C d kw tlvs))))"
| "prepare C (Call_data_to kw) = rbind (data_sm_pdu C kw) (\<lambda>q. Inr (Wire_data q))"

lemma checked_simps [simp]:
  "checked (Inl e) st k = Some (Inl e, None, st)"
  "checked (Inr a) st k = k a"
  by (simp_all add: checked_def)

lemma checked_rbind: "checked (rbind a f) st k = checked a st (\<lambda>x. checked (f x) st k)"
  by (cases a) simp_all

lemma checked_if: "checked (if P then a else b) st k = (if P then checked a st k else checked b st k)"
  by simp

text \<open>Every helper is its checks followed by one request on its target.\<close>

lemma send_eq:
  "send C N target c st = checked (prepare C c) st (\<lambda>w.
     if call_on_bind c
     then request_on_bind N target (call_paced c) (call_command c) w (SmppResp_from_reply C) st
     else request_on_esme N target (call_needs_rx c) (call_command c) w (SmppResp_from_reply C) st)"
  by (cases c)
    (simp_all add: submit_via_def submit_multi_via_def data_via_def cancel_via_def replace_via_def
      deliver_to_def data_to_def checked_rbind checked_if Let_def cong: if_cong)

section \<open>Targets\<close>

text \<open>The session a call resolves to: its handle, its limiter and its response timer.\<close>

definition session_of :: "bool \<Rightarrow> string \<Rightarrow> State \<Rightarrow> (nat \<times> nat option \<times> nat) option" where
  "session_of on_bind target st =
     (if on_bind
      then map_option (\<lambda>b. (bs_ptr b, bs_throttle b, bs_response_timer b))
        (find (\<lambda>b. bs_name b = target) (st_binds st))
      else map_option (\<lambda>e. (es_ptr e, None, es_response_timer e)) (find_esme target (st_esmes st)))"

definition session_gone :: "bool \<Rightarrow> nat \<Rightarrow> State \<Rightarrow> bool" where
  "session_gone on_bind h st =
     (if on_bind then bind_gone (st_binds st) h else esme_gone (st_esmes st) h)"

definition not_found :: "bool \<Rightarrow> string \<Rightarrow> py_error" where
  "not_found on_bind target = PyKeyError (if on_bind then Bind_not_bound target else Esme_not_bound target)"

text \<open>What a request that was put on a session resolves to.\<close>

definition reported :: "codec \<Rightarrow> string \<Rightarrow> nat \<Rightarrow> bool \<Rightarrow> response net \<Rightarrow> string \<Rightarrow> SmppResp py_result" where
  "reported C command timer gone N described =
     (case nt_result N of
        Inr resp \<Rightarrow> Inr (SmppResp_from_reply C resp)
      | Inl e \<Rightarrow> Inl (into_pyerr (classify e (nt_waited N) timer gone) command described))"

definition described_target :: "bool \<Rightarrow> string \<Rightarrow> string" where
  "described_target on_bind target = (if on_bind then ''bind '' else ''session '') @ str_debug target"

lemma send_cases:
  assumes "send C N target c st = Some (r, sent, st')"
  obtains (refused) e where "prepare C c = Inl e" "r = Inl e" "sent = None" "st' = st"
  | (unknown) w where "prepare C c = Inr w" "session_of (call_on_bind c) target st = None"
      "r = Inl (not_found (call_on_bind c) target)" "sent = None" "st' = st"
  | (deaf) w s where "prepare C c = Inr w" "call_needs_rx c" "find_esme target (st_esmes st) = Some s"
      "\<not> esme_can_receive (es_esme s)" "r = Inl (PyRuntimeError (Esme_not_receiver target (call_command c)))"
      "sent = None" "st' = st"
  | (sent) w h th timer st1 where "prepare C c = Inr w"
      "session_of (call_on_bind c) target st = Some (h, th, timer)"
      "(if call_paced c then pace (nt_clock N) th st else Some st) = Some st1"
      "st' = nt_meanwhile N st1" "sent = Some (h, w)"
      "r = reported C (call_command c) timer (session_gone (call_on_bind c) h st') N
         (described_target (call_on_bind c) target)"
proof (cases "prepare C c")
  case (Inl e)
  with assms show ?thesis by (intro refused) (auto simp: send_eq)
next
  case (Inr w)
  note prep = this
  show ?thesis
  proof (cases "call_on_bind c")
    case bind: True
    show ?thesis
    proof (cases "find (\<lambda>b. bs_name b = target) (st_binds st)")
      case None
      with assms prep bind show ?thesis
        by (intro unknown)
          (auto simp: send_eq request_on_bind_def bind_handle_def session_of_def not_found_def)
    next
      case (Some b)
      with assms prep bind obtain st1
        where st1: "(if call_paced c then pace (nt_clock N) (bs_throttle b) st else Some st) = Some st1"
        by (auto simp: send_eq request_on_bind_def bind_handle_def split: option.splits if_splits)
      from st1 Some assms prep bind show ?thesis
        by (intro sent[of w "bs_ptr b" "bs_throttle b" "bs_response_timer b" st1])
          (auto simp: send_eq request_on_bind_def bind_handle_def session_of_def settle_on_bind_def
            reported_def described_target_def session_gone_def Let_def split: sum.splits cong: if_cong)
    qed
  next
    case esme: False
    then have unpaced: "\<not> call_paced c" by (cases c) simp_all
    show ?thesis
    proof (cases "find_esme target (st_esmes st)")
      case None
      with assms prep esme show ?thesis
        by (intro unknown)
          (auto simp: send_eq request_on_esme_def esme_handle_def session_of_def not_found_def)
    next
      case (Some s)
      show ?thesis
      proof (cases "call_needs_rx c \<and> \<not> esme_can_receive (es_esme s)")
        case True
        with assms prep esme Some show ?thesis
          by (intro deaf) (auto simp: send_eq request_on_esme_def esme_handle_def)
      next
        case False
        with assms prep esme Some unpaced show ?thesis
          by (intro sent[of w "es_ptr s" None "es_response_timer s" st])
            (auto simp: send_eq request_on_esme_def esme_handle_def session_of_def settle_on_esme_def
              reported_def described_target_def session_gone_def Let_def split: sum.splits)
      qed
    qed
  qed
qed

section \<open>Requests that leave\<close>

text \<open>
  What the codec's constructors assert: a \<open>short_message\<close> of at most 254 octets, at most 254
  destinations; and no optional parameter twice. A \<open>data_sm\<close> has no \<open>short_message\<close>: its
  body is a parameter.
\<close>

primrec wire_ok :: "wire \<Rightarrow> bool" where
  "wire_ok (Wire_submit q) \<longleftrightarrow> length (ss_short_message q) \<le> 254 \<and> distinct (map tlv_tag (ss_tlvs q))"
| "wire_ok (Wire_multi q) \<longleftrightarrow> length (sm_short_message q) \<le> 254 \<and> length (sm_dest_addresses q) \<le> 254
     \<and> distinct (map tlv_tag (sm_tlvs q))"
| "wire_ok (Wire_data q) \<longleftrightarrow> distinct (map tlv_tag (dt_tlvs q))"
| "wire_ok (Wire_cancel q) \<longleftrightarrow> True"
| "wire_ok (Wire_query q) \<longleftrightarrow> True"
| "wire_ok (Wire_replace q) \<longleftrightarrow> length (rs_short_message q) \<le> 254"
| "wire_ok (Wire_deliver q) \<longleftrightarrow> length (ds_short_message q) \<le> 254 \<and> distinct (map tlv_tag (ds_tlvs q))"
| "wire_ok (Wire_alert ston snpi src eton enpi esme ms) \<longleftrightarrow> True"

text \<open>The codec's reader of \<open>message_payload\<close> gives the value of the first parameter with that tag.\<close>

definition payload_reader_ok :: "codec \<Rightarrow> bool" where
  "payload_reader_ok C \<longleftrightarrow> (\<forall>ts. get_message_payload C ts =
     map_option tlv_value (find (\<lambda>x. tlv_tag x = tag_code C MessagePayload) ts))"

lemma payload_reader_spec [simp]: "payload_reader_ok spec_codec"
  by (simp add: payload_reader_ok_def spec_codec_def)

lemma payload_reader_None:
  assumes "payload_reader_ok C" and "get_message_payload C ts = None"
  shows "tag_code C MessagePayload \<notin> tlv_tag ` set ts"
proof -
  have "find (\<lambda>x. tlv_tag x = tag_code C MessagePayload) ts = None"
    using assms by (simp add: payload_reader_ok_def)
  then show ?thesis by (auto simp: find_None_iff)
qed

lemma check_short_message_Inr [simp]:
  "check_short_message command n b = Inr u \<longleftrightarrow> n \<le> 254"
  by (auto simp: check_short_message_def SHORT_MESSAGE_MAX_def)

lemma fold_message_payload_Inr:
  "fold_message_payload C command sm ts = Inr ts' \<longleftrightarrow>
     (if sm = [] then ts' = ts
      else get_message_payload C ts = None
        \<and> ts' = ts @ [\<lparr>tlv_tag = tag_code C MessagePayload, tlv_value = sm\<rparr>])"
  by (auto simp: fold_message_payload_def)

lemma data_sm_pdu_Inr:
  assumes "data_sm_pdu C kw = Inr q"
  obtains ts where "tlvs_from_py C (dk_tlvs kw) = Inr ts"
    and "fold_message_payload C ''data_sm'' (unwrap_or [] (dk_short_message kw)) ts = Inr (dt_tlvs q)"
  using assms by (auto simp: data_sm_pdu_def build_data_sm_def result_iffs)

lemma data_sm_pdu_distinct:
  assumes "payload_reader_ok C" and "data_sm_pdu C kw = Inr q"
  shows "distinct (map tlv_tag (dt_tlvs q))"
proof -
  from assms(2) obtain ts where ts: "tlvs_from_py C (dk_tlvs kw) = Inr ts"
    and fold: "fold_message_payload C ''data_sm'' (unwrap_or [] (dk_short_message kw)) ts = Inr (dt_tlvs q)"
    by (rule data_sm_pdu_Inr)
  then show ?thesis
    using tlvs_from_py_distinct[OF ts] payload_reader_None[OF assms(1), of ts]
    by (auto simp: fold_message_payload_Inr split: if_splits)
qed

text \<open>The checks raise errors of their own, never the one of an unanswered request.\<close>

lemma tlvs_from_py_error: "tlvs_from_py C d \<noteq> Inl (SmppSendError v)"
proof -
  have tag: "tag_from_py C k \<noteq> Inl (SmppSendError v)" for C and k :: "'a pyval"
    by (simp add: tag_from_py_def ok_or_def split: pyval.split option.split)
  have val: "value_to_bytes C t x \<noteq> Inl (SmppSendError v)" for C t and x :: "'a pyval"
    by (simp add: value_to_bytes_def result_iffs ok_or_def Let_def split: pyval.split option.split)
  have "tlvs_from_items C out items \<noteq> Inl (SmppSendError v)" for out and items :: "'a pydict"
    by (induction C out items rule: tlvs_from_items.induct) (auto simp: result_iffs tag val)
  then show ?thesis by (simp add: tlvs_from_py_def split: option.split)
qed

lemma prepare_error: "prepare C c \<noteq> Inl (SmppSendError v)"
  by (cases c)
    (auto simp: result_iffs tlvs_from_py_error check_short_message_def data_sm_pdu_def build_data_sm_def
      fold_message_payload_def split: if_splits)

text \<open>The optional parameters of a request.\<close>

primrec wire_tlvs :: "wire \<Rightarrow> Tlv list" where
  "wire_tlvs (Wire_submit q) = ss_tlvs q"
| "wire_tlvs (Wire_multi q) = sm_tlvs q"
| "wire_tlvs (Wire_data q) = dt_tlvs q"
| "wire_tlvs (Wire_cancel q) = []"
| "wire_tlvs (Wire_query q) = []"
| "wire_tlvs (Wire_replace q) = []"
| "wire_tlvs (Wire_deliver q) = ds_tlvs q"
| "wire_tlvs (Wire_alert ston snpi src eton enpi esme ms) = []"

lemma prepare_distinct:
  "payload_reader_ok C \<Longrightarrow> prepare C c = Inr w \<Longrightarrow> distinct (map tlv_tag (wire_tlvs w))"
  by (cases c)
    (auto simp: result_iffs submit_sm_pdu_def submit_sm_multi_pdu_def deliver_sm_pdu_def
      data_sm_pdu_distinct dest: tlvs_from_py_distinct split: if_splits)

text \<open>The body of a \<open>data_sm\<close>: the given one, when there is one, is the value of \<open>message_payload\<close>.\<close>

definition payload_carried :: "codec \<Rightarrow> 'o data_kw \<Rightarrow> data_sm \<Rightarrow> bool" where
  "payload_carried C kw q \<longleftrightarrow> unwrap_or [] (dk_short_message kw) = []
     \<or> get_message_payload C (dt_tlvs q) = Some (unwrap_or [] (dk_short_message kw))"

definition can_receive :: "string \<Rightarrow> State \<Rightarrow> bool" where
  "can_receive session_id st = (case find_esme session_id (st_esmes st) of
     None \<Rightarrow> False | Some s \<Rightarrow> esme_can_receive (es_esme s))"

text \<open>A body folded into the parameters is the one the reader finds.\<close>

lemma find_append_new: "find P xs = None \<Longrightarrow> P y \<Longrightarrow> find P (xs @ [y]) = Some y"
  by (simp add: find_snoc)

lemma payload_reader_appended:
  "payload_reader_ok C \<Longrightarrow> get_message_payload C ts = None \<Longrightarrow>
   get_message_payload C (ts @ [\<lparr>tlv_tag = tag_code C MessagePayload, tlv_value = sm\<rparr>]) = Some sm"
  by (simp add: payload_reader_ok_def find_append_new)

lemma data_payload_carried:
  assumes "payload_reader_ok C" and "data_sm_pdu C kw = Inr q"
  shows "payload_carried C kw q"
  using assms(2)
proof (rule data_sm_pdu_Inr)
  fix ts
  assume "fold_message_payload C ''data_sm'' (unwrap_or [] (dk_short_message kw)) ts = Inr (dt_tlvs q)"
  with payload_reader_appended[OF assms(1), of ts] show ?thesis
    by (auto simp: fold_message_payload_Inr payload_carried_def split: if_splits)
qed

section \<open>Relaying\<close>

text \<open>
  The keyword arguments of a script that forwards a PDU attribute by attribute, and its
  optional parameters as the dict the script reads.
\<close>

definition relay_tlvs :: "Pdu \<Rightarrow> 'o pydict option" where
  "relay_tlvs p = Some (map (\<lambda>(t, b). (PyInt (uint t), PyBytes b)) (Pdu_tlvs p))"

definition relay_kw :: "Pdu \<Rightarrow> 'o message_kw" where
  "relay_kw p =
     \<lparr>mk_source_addr = p_source_addr p, mk_short_message = p_short_message p,
      mk_source_addr_ton = Some (p_source_addr_ton p), mk_source_addr_npi = Some (p_source_addr_npi p),
      mk_dest_addr_ton = Some (p_dest_addr_ton p), mk_dest_addr_npi = Some (p_dest_addr_npi p),
      mk_service_type = Some (p_service_type p), mk_esm_class = Some (p_esm_class p),
      mk_protocol_id = Some (p_protocol_id p), mk_priority_flag = Some (p_priority_flag p),
      mk_schedule_delivery_time = Some (p_schedule_delivery_time p),
      mk_validity_period = Some (p_validity_period p),
      mk_registered_delivery = Some (p_registered_delivery p),
      mk_replace_if_present_flag = Some (p_replace_if_present_flag p),
      mk_data_coding = Some (p_data_coding p), mk_sm_default_msg_id = Some (p_sm_default_msg_id p),
      mk_tlvs = relay_tlvs p\<rparr>"

definition relay_data_kw :: "Pdu \<Rightarrow> 'o data_kw" where
  "relay_data_kw p =
     \<lparr>dk_source_addr = p_source_addr p, dk_destination_addr = p_destination_addr p,
      dk_short_message = None,
      dk_source_addr_ton = Some (p_source_addr_ton p), dk_source_addr_npi = Some (p_source_addr_npi p),
      dk_dest_addr_ton = Some (p_dest_addr_ton p), dk_dest_addr_npi = Some (p_dest_addr_npi p),
      dk_service_type = Some (p_service_type p), dk_esm_class = Some (p_esm_class p),
      dk_registered_delivery = Some (p_registered_delivery p), dk_data_coding = Some (p_data_coding p),
      dk_tlvs = relay_tlvs p\<rparr>"

definition relay_cancel_kw :: "Pdu \<Rightarrow> cancel_kw" where
  "relay_cancel_kw p =
     \<lparr>ck_message_id = p_message_id p, ck_source_addr = Some (p_source_addr p),
      ck_destination_addr = Some (p_destination_addr p), ck_service_type = Some (p_service_type p),
      ck_source_addr_ton = Some (p_source_addr_ton p), ck_source_addr_npi = Some (p_source_addr_npi p),
      ck_dest_addr_ton = Some (p_dest_addr_ton p), ck_dest_addr_npi = Some (p_dest_addr_npi p)\<rparr>"

definition relay_replace_kw :: "Pdu \<Rightarrow> replace_kw" where
  "relay_replace_kw p =
     \<lparr>rk_message_id = p_message_id p, rk_source_addr = Some (p_source_addr p),
      rk_source_addr_ton = Some (p_source_addr_ton p), rk_source_addr_npi = Some (p_source_addr_npi p),
      rk_schedule_delivery_time = Some (p_schedule_delivery_time p),
      rk_validity_period = Some (p_validity_period p),
      rk_registered_delivery = Some (p_registered_delivery p),
      rk_sm_default_msg_id = Some (p_sm_default_msg_id p), rk_short_message = Some (p_short_message p)\<rparr>"

fun relay :: "wire \<Rightarrow> 'o call option" where
  "relay (Wire_submit q) =
     Some (Call_submit (p_destination_addr (from_submit q)) (relay_kw (from_submit q)))"
| "relay (Wire_deliver q) =
     Some (Call_deliver (p_destination_addr (from_deliver q)) (relay_kw (from_deliver q)))"
| "relay (Wire_data q) = Some (Call_data (relay_data_kw (from_data q)))"
| "relay (Wire_cancel q) = Some (Call_cancel (relay_cancel_kw (from_cancel q)))"
| "relay (Wire_replace q) = Some (Call_replace (relay_replace_kw (from_replace q)))"
| "relay _ = None"

text \<open>The length octet is the one the codec puts there.\<close>

fun length_octet_ok :: "codec \<Rightarrow> wire \<Rightarrow> bool" where
  "length_octet_ok C (Wire_submit q) \<longleftrightarrow> ss_sm_length q = sm_length_of C (ss_short_message q)"
| "length_octet_ok C (Wire_deliver q) \<longleftrightarrow> ds_sm_length q = sm_length_of C (ds_short_message q)"
| "length_octet_ok C (Wire_replace q) \<longleftrightarrow> rs_sm_length q = sm_length_of C (rs_short_message q)"
| "length_octet_ok C _ \<longleftrightarrow> True"

section \<open>Samples\<close>

text \<open>A state with one bind, whose bucket is empty, and requests for the witnesses.\<close>

definition sample_bound :: State where
  "sample_bound = (busy_state Pace)
     \<lparr>st_binds := [\<lparr>bs_name = ''up'', bs_smsc = \<lparr>smsc_session_id = ''c1'', smsc_system_id = ''smsc'',
        smsc_server_address = ''::1''\<rparr>, bs_ptr = 7, bs_throttle = Some 0, bs_response_timer = 5\<rparr>],
      st_limiters := [\<lparr>b_tokens = 0, b_max = 2, b_refill_per_sec = 2, b_last = 0\<rparr>]\<rparr>"

definition sample_net :: "(SmppError, response) result \<Rightarrow> nat \<Rightarrow> response net" where
  "sample_net result waited =
     \<lparr>nt_clock = [0, 1000000000], nt_result = result, nt_waited = waited, nt_meanwhile = (\<lambda>st. st)\<rparr>"

definition sample_data_sm :: data_sm where
  "sample_data_sm =
     \<lparr>dt_service_type = [], dt_source_addr_ton = 1, dt_source_addr_npi = 1, dt_source_addr = ''100'',
      dt_dest_addr_ton = 1, dt_dest_addr_npi = 1, dt_destination_addr = ''200'', dt_esm_class = 0,
      dt_registered_delivery = 0, dt_data_coding = 0,
      dt_tlvs = [\<lparr>tlv_tag = 0x0424, tlv_value = [0x68, 0x69]\<rparr>]\<rparr>"

definition sample_data_kw :: "unit data_kw" where
  "sample_data_kw =
     \<lparr>dk_source_addr = ''100'', dk_destination_addr = ''200'', dk_short_message = Some [0x68, 0x69],
      dk_source_addr_ton = None, dk_source_addr_npi = None, dk_dest_addr_ton = None,
      dk_dest_addr_npi = None, dk_service_type = None, dk_esm_class = None,
      dk_registered_delivery = None, dk_data_coding = None, dk_tlvs = None\<rparr>"

definition sample_data_call :: "unit call" where
  "sample_data_call = Call_data sample_data_kw"

lemma sample_data_kw_pdu: "data_sm_pdu spec_codec sample_data_kw = Inr sample_data_sm"
  by code_simp

lemma sample_data_call_prepare:
  "prepare spec_codec sample_data_call = Inr (Wire_data sample_data_sm)"
  "call_paced sample_data_call" "call_on_bind sample_data_call" "call_command sample_data_call = ''data_sm''"
  by (simp_all add: sample_data_call_def sample_data_kw_pdu)

lemma sample_session: "session_of True ''up'' sample_bound = Some (7, Some 0, 5)"
  "st_limiters sample_bound = [\<lparr>b_tokens = 0, b_max = 2, b_refill_per_sec = 2, b_last = 0\<rparr>]"
  by (simp_all add: session_of_def sample_bound_def)

definition sample_cancel :: "unit call" where
  "sample_cancel = Call_cancel \<lparr>ck_message_id = ''42'', ck_source_addr = None, ck_destination_addr = None,
     ck_service_type = None, ck_source_addr_ton = None, ck_source_addr_npi = None,
     ck_dest_addr_ton = None, ck_dest_addr_npi = None\<rparr>"

lemma sample_cancel_sent:
  "\<exists>r w. send spec_codec (sample_net result waited) ''up'' sample_cancel sample_bound =
     Some (r, Some (7, w), sample_bound)"
  by (simp add: sample_cancel_def cancel_via_def request_on_bind_def bind_handle_def sample_bound_def
      sample_net_def Let_def)

section \<open>Properties\<close>

text \<open>
  C5. A script is told what the peer answered and nothing else: once a request is on a
  session, a response is reported with its own status, name and message id, whatever the
  status is, and without an exception; with no response the call raises \<open>SmppSendError\<close> for
  this command, whose reason is \<open>nack\<close> for a generic nack, \<open>timeout\<close> when the session's own
  response timer had run out, \<open>closed\<close> when it had not and the session the request went to
  is gone by then, and \<open>unanswered\<close> otherwise.
\<close>

theorem peer_answer_reported:
  assumes "send C N target c st = Some (r, Some (h, w), st')"
  shows "\<exists>th timer. session_of (call_on_bind c) target st = Some (h, th, timer) \<and>
    (case nt_result N of
       Inr resp \<Rightarrow> \<exists>v. r = Inr v \<and> sr_command_status_code v = Reply_status resp
         \<and> sr_command_status v = status_name (from_command_status C) (Reply_status resp)
         \<and> sr_message_id v = Reply_message_id resp \<and> (SmppResp_ok v \<longleftrightarrow> Reply_status resp = 0)
         \<and> (SmppResp_throttled v \<longleftrightarrow> Reply_status resp = 0x58 \<or> Reply_status resp = 0x14)
     | Inl e \<Rightarrow> \<exists>v. r = Inl (SmppSendError v) \<and> se_command v = call_command c
         \<and> se_reason v = (if e \<noteq> ESME_RSYSERR then ''nack''
             else if timer \<le> nt_waited N then ''timeout''
             else if session_gone (call_on_bind c) h st' then ''closed'' else ''unanswered''))"
  using assms
proof (cases rule: send_cases)
  case (sent w' h' th timer st1)
  then show ?thesis
    by (auto simp: reported_def SmppResp_from_reply_def SmppResp_ok_def SmppResp_throttled_def
        is_throttle_def ESME_RTHROTTLED_CODE_def ESME_RMSGQFUL_CODE_def Let_def
        into_pyerr_def classify_def split: sum.split)
qed simp_all

theorem peer_answer_reported_witness:
  "\<exists>v w. send spec_codec (sample_net (Inl ESME_RSYSERR) 9) ''up'' sample_cancel sample_bound =
     Some (Inl (SmppSendError v), Some (7, w), sample_bound) \<and> se_reason v = ''timeout''"
proof -
  obtain r w where sent: "send spec_codec (sample_net (Inl ESME_RSYSERR) 9) ''up'' sample_cancel sample_bound =
      Some (r, Some (7, w), sample_bound)"
    using sample_cancel_sent by blast
  from peer_answer_reported[OF this] sent show ?thesis
    by (auto simp: sample_net_def sample_cancel_def sample_session)
qed

text \<open>
  C8. No call can make the codec panic on a request: one that reaches a session fits the fields
  it is written into. A \<open>short_message\<close> is at most 254 octets and is the body the script gave;
  a \<open>data_sm\<close>, which has no such field, carries a body of any length as its one
  \<open>message_payload\<close> parameter; there are at most 254 destinations, all the given ones in
  order, and no optional parameter occurs twice. The request goes to the session that was
  looked up.
\<close>

theorem only_valid_requests_are_sent:
  assumes "payload_reader_ok C" and "send C N target c st = Some (r, Some (h, w), st')"
  shows "(\<exists>th timer. session_of (call_on_bind c) target st = Some (h, th, timer))
    \<and> distinct (map tlv_tag (wire_tlvs w))
    \<and> (case c of
        Call_submit d kw \<Rightarrow> \<exists>q. w = Wire_submit q \<and> length (ss_short_message q) \<le> 254
          \<and> ss_short_message q = mk_short_message kw
      | Call_multi ds kw \<Rightarrow> \<exists>q. w = Wire_multi q \<and> length (sm_short_message q) \<le> 254
          \<and> sm_short_message q = mk_short_message kw \<and> length (sm_dest_addresses q) \<le> 254
          \<and> map dest_name (sm_dest_addresses q) = ds
      | Call_deliver d kw \<Rightarrow> \<exists>q. w = Wire_deliver q \<and> length (ds_short_message q) \<le> 254
          \<and> ds_short_message q = mk_short_message kw
      | Call_replace kw \<Rightarrow> \<exists>q. w = Wire_replace q \<and> length (rs_short_message q) \<le> 254
          \<and> rs_short_message q = unwrap_or [] (rk_short_message kw)
      | Call_data kw \<Rightarrow> \<exists>q. w = Wire_data q \<and> payload_carried C kw q
      | Call_data_to kw \<Rightarrow> \<exists>q. w = Wire_data q \<and> payload_carried C kw q
      | Call_cancel kw \<Rightarrow> \<exists>q. w = Wire_cancel q)"
  using assms(2)
proof (cases rule: send_cases)
  case (sent w' h' th timer st1)
  then have prep: "prepare C c = Inr w" by simp
  have "distinct (map tlv_tag (wire_tlvs w))" by (rule prepare_distinct[OF assms(1) prep])
  with sent prep data_payload_carried[OF assms(1)] show ?thesis
    by (cases c) (auto simp: result_iffs submit_sm_pdu_def submit_sm_multi_pdu_def deliver_sm_pdu_def
        comp_def split: if_splits)
qed simp_all

definition sample_text_kw :: "nat \<Rightarrow> unit message_kw" where
  "sample_text_kw n =
     \<lparr>mk_source_addr = ''100'', mk_short_message = replicate n 0x68, mk_source_addr_ton = None,
      mk_source_addr_npi = None, mk_dest_addr_ton = None, mk_dest_addr_npi = None,
      mk_service_type = None, mk_esm_class = None, mk_protocol_id = None, mk_priority_flag = None,
      mk_schedule_delivery_time = None, mk_validity_period = None, mk_registered_delivery = None,
      mk_replace_if_present_flag = None, mk_data_coding = None, mk_sm_default_msg_id = None,
      mk_tlvs = None\<rparr>"

lemma sample_text_sent:
  assumes "n \<le> 254"
  shows "\<exists>r w. send spec_codec (sample_net (Inr (Deliver_sm_resp 0)) 0) ''s1''
    (Call_deliver ''200'' (sample_text_kw n)) sample_bound = Some (r, Some (0, w), sample_bound)"
  using assms
  by (simp add: deliver_to_def sample_text_kw_def tlvs_from_py_def request_on_esme_def esme_handle_def
      sample_bound_def busy_state_def find_esme_def sample_esme_def sample_net_def check_short_message_def
      SHORT_MESSAGE_MAX_def Let_def)

theorem only_valid_requests_are_sent_witness:
  "\<exists>r q. send spec_codec (sample_net (Inr (Deliver_sm_resp 0)) 0) ''s1''
      (Call_deliver ''200'' (sample_text_kw 254)) sample_bound = Some (r, Some (0, Wire_deliver q), sample_bound)
    \<and> length (ds_short_message q) = 254"
proof -
  obtain r w where sent: "send spec_codec (sample_net (Inr (Deliver_sm_resp 0)) 0) ''s1''
      (Call_deliver ''200'' (sample_text_kw 254)) sample_bound = Some (r, Some (0, w), sample_bound)"
    using sample_text_sent[of 254] by auto
  from only_valid_requests_are_sent[OF payload_reader_spec this] sent show ?thesis
    by (auto simp: sample_text_kw_def)
qed

text \<open>
  C33. A call is refused exactly when a check of its arguments fails, its target is not bound,
  or it needs a session that can receive and the target cannot; then nothing is sent, the
  state is unchanged and the exception is the one for that reason. In every other case a call
  that returns has put its request on the session it was given for.
\<close>

theorem refused_call_has_no_effect:
  "case prepare C c of
     Inl e \<Rightarrow> send C N target c st = Some (Inl e, None, st)
   | Inr w \<Rightarrow>
       (case session_of (call_on_bind c) target st of
          None \<Rightarrow> send C N target c st = Some (Inl (not_found (call_on_bind c) target), None, st)
        | Some (h, th, timer) \<Rightarrow>
            if call_needs_rx c \<and> \<not> can_receive target st
            then send C N target c st =
              Some (Inl (PyRuntimeError (Esme_not_receiver target (call_command c))), None, st)
            else \<forall>r s st'. send C N target c st = Some (r, s, st') \<longrightarrow> s = Some (h, w))"
proof (cases "call_on_bind c")
  case True
  then have "\<not> call_needs_rx c" by (cases c) simp_all
  with True show ?thesis
    by (auto simp: send_eq request_on_bind_def bind_handle_def session_of_def not_found_def Let_def
        split: sum.split option.splits if_splits)
next
  case False
  then show ?thesis
    by (auto simp: send_eq request_on_esme_def esme_handle_def session_of_def not_found_def can_receive_def Let_def
        split: sum.split option.splits if_splits)
qed

text \<open>A session that is bound as a transmitter only.\<close>

definition sample_deaf :: State where
  "sample_deaf = sample_bound\<lparr>st_esmes := map (\<lambda>s. s\<lparr>es_esme := (es_esme s)\<lparr>esme_can_receive := False\<rparr>\<rparr>) (st_esmes sample_bound)\<rparr>"

theorem refused_call_has_no_effect_witness:
  "send spec_codec (sample_net (Inr (Deliver_sm_resp 0)) 0) ''s1'' (Call_deliver ''200'' (sample_text_kw 2)) sample_deaf =
     Some (Inl (PyRuntimeError (Esme_not_receiver ''s1'' ''deliver_sm'')), None, sample_deaf)
   \<and> send spec_codec (sample_net (Inr (Cancel_sm_resp 0)) 0) ''down'' sample_cancel sample_bound =
     Some (Inl (PyKeyError (Bind_not_bound ''down'')), None, sample_bound)"
proof
  have "session_of False ''s1'' sample_deaf = Some (0, None, 0)" "\<not> can_receive ''s1'' sample_deaf"
    by (simp_all add: session_of_def can_receive_def sample_deaf_def sample_bound_def busy_state_def find_esme_def sample_esme_def)
  with refused_call_has_no_effect[where C = spec_codec and c = "Call_deliver ''200'' (sample_text_kw 2)"
      and N = "sample_net (Inr (Deliver_sm_resp 0)) 0" and target = "''s1''" and st = sample_deaf]
  show "send spec_codec (sample_net (Inr (Deliver_sm_resp 0)) 0) ''s1'' (Call_deliver ''200'' (sample_text_kw 2)) sample_deaf =
     Some (Inl (PyRuntimeError (Esme_not_receiver ''s1'' ''deliver_sm'')), None, sample_deaf)"
    by (simp add: sample_text_kw_def tlvs_from_py_def check_short_message_def SHORT_MESSAGE_MAX_def)
next
  have "session_of True ''down'' sample_bound = None" by (simp add: session_of_def sample_bound_def)
  with refused_call_has_no_effect[where C = spec_codec and c = sample_cancel
      and N = "sample_net (Inr (Cancel_sm_resp 0)) 0" and target = "''down''" and st = sample_bound]
  show "send spec_codec (sample_net (Inr (Cancel_sm_resp 0)) 0) ''down'' sample_cancel sample_bound =
     Some (Inl (PyKeyError (Bind_not_bound ''down'')), None, sample_bound)"
    by (simp add: sample_cancel_def not_found_def)
qed

text \<open>
  C35. \<open>SmppSendError\<close> is raised exactly when a request was put on a session and no response
  came back, never for a refused call, and what a script reads off the instance says what
  happened to that request: \<open>command\<close> is the helper's command; \<open>reason\<close> is \<open>nack\<close>, \<open>timeout\<close>,
  \<open>closed\<close> or \<open>unanswered\<close> by what the session reported, the session's own timer and whether
  the session is gone; the status attributes are \<open>None\<close> but for a nack, where the name parses
  back to the peer's status and the number is its code.
\<close>

theorem send_error_attributes:
  assumes "send C N target c st = Some (r, put, st')"
  shows "((\<exists>v. r = Inl (SmppSendError v)) \<longleftrightarrow> put \<noteq> None \<and> isl (nt_result N))
    \<and> (\<forall>v. r = Inl (SmppSendError v) \<longrightarrow>
        (\<exists>h w th timer e. put = Some (h, w) \<and> session_of (call_on_bind c) target st = Some (h, th, timer)
          \<and> nt_result N = Inl e
          \<and> map_of (SendErrorValue_instance v) ''command'' = Some (PyStr (call_command c))
          \<and> map_of (SendErrorValue_instance v) ''reason'' = Some (PyStr
              (if e \<noteq> ESME_RSYSERR then ''nack'' else if timer \<le> nt_waited N then ''timeout''
               else if session_gone (call_on_bind c) h st' then ''closed'' else ''unanswered''))
          \<and> (if e = ESME_RSYSERR
             then map_of (SendErrorValue_instance v) ''command_status'' = Some PyNone
               \<and> map_of (SendErrorValue_instance v) ''command_status_code'' = Some PyNone
             else \<exists>name. map_of (SendErrorValue_instance v) ''command_status'' = Some (PyStr name)
               \<and> parse_smpp_status name = Some e
               \<and> map_of (SendErrorValue_instance v) ''command_status_code'' =
                   Some (PyInt (uint (status_code e))))))"
  using assms
proof (cases rule: send_cases)
  case (refused e)
  with prepare_error show ?thesis by auto
next
  case (unknown w)
  then show ?thesis by (simp add: not_found_def)
next
  case (sent w h th timer st1)
  show ?thesis
  proof (cases "nt_result N")
    case (Inl e)
    then show ?thesis unfolding sent
      by (simp add: reported_def into_pyerr_def classify_def SendErrorValue_instance_def parse_status_debug
          del: status_code.simps)
  next
    case (Inr resp)
    with sent show ?thesis by (simp add: reported_def)
  qed
qed simp

theorem send_error_attributes_witness:
  "\<exists>v w. send spec_codec (sample_net (Inl ESME_RTHROTTLED) 0) ''up'' sample_cancel sample_bound =
     Some (Inl (SmppSendError v), Some (7, w), sample_bound)
     \<and> map_of (SendErrorValue_instance v) ''reason'' = Some (PyStr ''nack'')"
proof -
  obtain r w where sent: "send spec_codec (sample_net (Inl ESME_RTHROTTLED) 0) ''up'' sample_cancel sample_bound =
      Some (r, Some (7, w), sample_bound)"
    using sample_cancel_sent by blast
  have "ESME_RTHROTTLED \<noteq> ESME_RSYSERR" by simp
  with send_error_attributes[OF sent] sent show ?thesis by (fastforce simp: sample_net_def)
qed

text \<open>
  C34. A \<open>data_sm\<close> carries the script's body where the receiver looks for it: the request is
  refused exactly when the body is given both ways, and otherwise the receiver's \<open>body\<close> is
  the given \<open>short_message\<close>, or the given \<open>MESSAGE_PAYLOAD\<close> if that is empty, with every
  other given parameter kept in place.
\<close>

theorem data_sm_carries_the_body:
  assumes "payload_reader_ok C" and "tlvs_from_py C (dk_tlvs kw) = Inr ts"
    and "sm = unwrap_or [] (dk_short_message kw)"
  shows "case data_sm_pdu C kw of
      Inl e \<Rightarrow> e = PyValueError (Body_given_twice ''data_sm'') \<and> sm \<noteq> [] \<and> get_message_payload C ts \<noteq> None
    | Inr q \<Rightarrow> body C (from_data q) = (if sm = [] then unwrap_or [] (get_message_payload C ts) else sm)
        \<and> (sm = [] \<or> get_message_payload C ts = None) \<and> take (length ts) (dt_tlvs q) = ts"
  using assms(2,3) payload_reader_appended[OF assms(1), of ts sm]
  by (auto simp: data_sm_pdu_def build_data_sm_def fold_message_payload_def body_def from_data_def
      unwrap_or_def split: option.split)

theorem data_sm_carries_the_body_witness:
  "body spec_codec (from_data sample_data_sm) = [0x68, 0x69]"
proof -
  have "tlvs_from_py spec_codec (dk_tlvs sample_data_kw) = Inr []"
    by (simp add: sample_data_kw_def tlvs_from_py_def)
  from data_sm_carries_the_body[OF payload_reader_spec this refl] show ?thesis
    by (simp add: sample_data_kw_pdu) (simp add: sample_data_kw_def)
qed

text \<open>
  C11. A relayed request arrives unchanged: a script that forwards the attributes of a PDU it
  received, with its optional parameters as the dict it reads them as, sends exactly that
  PDU again.
\<close>

theorem relayed_request_arrives_unchanged:
  assumes "wire_ok w" and "length_octet_ok C w" and "relay w = Some c"
  shows "prepare C c = Inr w"
  using assms
  by (cases w)
    (auto simp: relay_kw_def relay_data_kw_def relay_cancel_kw_def relay_replace_kw_def
      relay_tlvs_def Pdu_tlvs_def tlvs_py_roundtrip submit_sm_pdu_def deliver_sm_pdu_def data_sm_pdu_def
      build_data_sm_def fold_message_payload_def check_short_message_def SHORT_MESSAGE_MAX_def
      from_submit_def from_deliver_def from_data_def from_cancel_def from_replace_def)

theorem relayed_request_arrives_unchanged_witness:
  "\<exists>c :: unit call. relay (Wire_data sample_data_sm) = Some c
     \<and> prepare spec_codec c = Inr (Wire_data sample_data_sm)"
  using relayed_request_arrives_unchanged[of "Wire_data sample_data_sm" spec_codec, where ?'a = unit]
  by (simp add: sample_data_sm_def)

text \<open>
  C32. A paced send goes out: with the bucket's wait over at the second turn, the request is
  put on the bind; only that bind's limiter has changed, the sessions are untouched, and the
  throttle counter goes up exactly when the call had to wait.
\<close>

theorem paced_send_goes_out:
  assumes "prepare C c = Inr w" and "call_paced c"
    and "session_of True target st = Some (h, Some a, timer)"
    and "bucket_ok (st_limiters st ! a)" and "nt_clock N = t # t' # clock"
    and "case fst (acquire_pass t (st_limiters st ! a)) of None \<Rightarrow> True | Some s \<Rightarrow> t + s < t'"
  shows "\<exists>r st1. send C N target c st = Some (r, Some (h, w), nt_meanwhile N st1)
    \<and> st_binds st1 = st_binds st \<and> st_esmes st1 = st_esmes st
    \<and> (\<exists>b. st_limiters st1 = (st_limiters st)[a := b] \<and> bucket_ok b)
    \<and> throttled_count EGRESS (st_metrics st1) = throttled_count EGRESS (st_metrics st)
        + (if metrics_enabled (st_metrics st) \<and> fst (acquire_pass t (st_limiters st ! a)) \<noteq> None then 1 else 0)"
proof -
  obtain b where b: "acquire (t # t' # clock) False (st_limiters st ! a) =
      Some (fst (acquire_pass t (st_limiters st ! a)) \<noteq> None, b)" "bucket_ok b"
    using acquire_two_turns[OF assms(4,6)] by blast
  define st1 where "st1 = (if fst (acquire_pass t (st_limiters st ! a)) \<noteq> None
    then count (record_throttled EGRESS) (set_limiter a b st) else set_limiter a b st)"
  have pace: "pace (nt_clock N) (Some a) st = Some st1"
    using b(1) by (simp add: pace_def assms(5) st1_def Let_def)
  have bind: "call_on_bind c" using assms(2) by (cases c) simp_all
  then obtain bs where bs: "find (\<lambda>b. bs_name b = target) (st_binds st) = Some bs"
    "h = bs_ptr bs" "bs_throttle bs = Some a" "timer = bs_response_timer bs"
    using assms(3) by (auto simp: session_of_def)
  have "\<exists>r. send C N target c st = Some (r, Some (h, w), nt_meanwhile N st1)"
    using bs bind assms(1,2) pace
    by (simp add: send_eq request_on_bind_def bind_handle_def Let_def)
  moreover have "st_binds st1 = st_binds st" "st_esmes st1 = st_esmes st"
    "st_limiters st1 = (st_limiters st)[a := b]"
    "throttled_count EGRESS (st_metrics st1) = throttled_count EGRESS (st_metrics st)
      + (if metrics_enabled (st_metrics st) \<and> fst (acquire_pass t (st_limiters st ! a)) \<noteq> None then 1 else 0)"
    by (simp_all add: st1_def set_limiter_def count_def)
  ultimately show ?thesis
    using b(2) by blast
qed

theorem paced_send_goes_out_witness:
  "\<exists>r st1. send spec_codec (sample_net (Inr (Data_sm_resp 0)) 0) ''up'' sample_data_call sample_bound =
      Some (r, Some (7, Wire_data sample_data_sm), st1)
    \<and> throttled_count EGRESS (st_metrics st1) = throttled_count EGRESS (st_metrics sample_bound) + 1"
proof -
  have pass: "acquire_pass 0 (st_limiters sample_bound ! 0) =
      (Some 500000000, \<lparr>b_tokens = 0, b_max = 2, b_refill_per_sec = 2, b_last = 0\<rparr>)"
    by (simp add: sample_bound_def acquire_pass_empty_two)
  have "metrics_enabled (st_metrics sample_bound)"
    by (simp add: sample_bound_def busy_state_def spawn_state_def metrics_enabled_def register_all_def emit_def)
  then show ?thesis
    using paced_send_goes_out[of spec_codec sample_data_call "Wire_data sample_data_sm" "''up''"
        sample_bound 7 0 5 "sample_net (Inr (Data_sm_resp 0)) 0" 0 1000000000 "[]"] pass
    by (auto simp: sample_data_call_prepare sample_session bucket_ok_two sample_net_def)
qed

end
