(* ===== verification/Smpp_Spawn.thy ===== *)
theory Smpp_Spawn
  imports Smpp_Client
begin

text \<open>
  Starting the runtime (\<open>spawn\<close> of \<open>src/src/runtime.rs\<close>, \<open>install\<close> of \<open>src/src/metrics.rs\<close>):
  the state is built once per process, and the tasks that work on it are started from the
  configuration. The codec's constructors are positional, so are theirs here. The standard
  library's parser of IP addresses is an argument.
\<close>

section \<open>What the codec is given\<close>

text \<open>
  Host, port, TLS, bind type, system id, password, system type, address ton, npi and range,
  listener, the session-init, enquire-link, inactivity and response timers, and two more
  settings.
\<close>

datatype SmppClient = SmppClient_new string u16 bool BIND_TYPE string string string u8 u8 string
  BindListener u64 u64 u64 u64 nat nat

definition new_client :: "BindConfig \<Rightarrow> SmppClient" where
  "new_client cfg = SmppClient_new (bc_host cfg) (bc_port cfg) (bc_tls cfg \<noteq> None)
     (bind_type_of (bc_bind_type cfg)) (bc_system_id cfg) (bc_password cfg) (bc_system_type cfg)
     1 1 [] (listener_of cfg) 5000 (bc_enquire_link_timer_ms cfg) 60000 (bc_response_timer_ms cfg) 1500 20"

text \<open>Address, port, the session-init, enquire-link, inactivity and response timers, one more.\<close>

datatype 'ip SmppServer = SmppServer_new 'ip u16 u64 u64 u64 u64 nat

definition new_server :: "(string \<Rightarrow> 'ip option) \<Rightarrow> 'ip \<Rightarrow> SmppConfig \<Rightarrow> 'ip SmppServer" where
  "new_server parse_ip unspecified cfg =
     (let (host, port) = listen cfg; s = cf_server cfg
      in SmppServer_new (unwrap_or unspecified (parse_ip host)) port (sv_session_init_timer_ms s)
           (sv_enquire_link_timer_ms s) (sv_inactivity_timer_ms s) (sv_response_timer_ms s) 1500)"

section \<open>Tasks\<close>

datatype 'ip task = Sampler_task | Server_task "'ip SmppServer" | Bind_task BindConfig

text \<open>The metrics are registered and sampled only when the host has a store for them.\<close>

definition metrics_install :: "metrics \<Rightarrow> metrics \<times> 'ip task list" where
  "metrics_install m = (if metrics_enabled m then (register_all m, [Sampler_task]) else (m, []))"

text \<open>A process has one runtime: a second call finds the state set and does nothing.\<close>

definition spawn ::
  "(string \<Rightarrow> 'ip option) \<Rightarrow> 'ip \<Rightarrow> SmppConfig \<Rightarrow> metrics \<Rightarrow> State option \<Rightarrow> State \<times> 'ip task list" where
  "spawn parse_ip unspecified cfg m running =
     (case running of
        Some st \<Rightarrow> (st, [])
      | None \<Rightarrow>
          (spawn_state cfg m,
           snd (metrics_install m) @ [Server_task (new_server parse_ip unspecified cfg)]
             @ map Bind_task (cf_binds cfg)))"

text \<open>What the server task finds once the codec's \<open>start\<close> returned: why it will never serve, if so.\<close>

definition server_down :: "State \<Rightarrow> string option" where
  "server_down st = st_listen_failure st"

section \<open>Lemmas\<close>

lemma register_all_enabled: "metrics_enabled (register_all m) = metrics_enabled m"
  by (simp add: register_all_def metrics_enabled_def emit_def)

lemma spawn_state_metrics: "st_metrics (spawn_state cfg m) = fst (metrics_install m)"
  by (cases m) (simp_all add: spawn_state_def metrics_install_def metrics_enabled_def register_all_def emit_def)

lemma spawn_once: "spawn p u cfg' m' (Some (fst (spawn p u cfg m None))) = (spawn_state cfg m, [])"
  by (simp add: spawn_def)

text \<open>
  A missing response is judged by the same timer the codec runs: the listener of a bind and
  the state of the server keep the value the codec is given.
\<close>

fun client_response_timer :: "SmppClient \<Rightarrow> u64" where
  "client_response_timer (SmppClient_new h p t bt si pw sy ton npi rg l i e ina r a b) = r"

fun server_response_timer :: "'ip SmppServer \<Rightarrow> u64" where
  "server_response_timer (SmppServer_new ip p i e ina r a) = r"

lemma response_timers_agree:
  "bl_response_timer (listener_of b) = from_millis (client_response_timer (new_client b))"
  "st_inbound_response_timer (spawn_state cfg m) = from_millis (server_response_timer (new_server p u cfg))"
  by (simp_all add: listener_of_def new_client_def spawn_state_def new_server_def Let_def split: prod.split)

text \<open>Only the first failure to listen is kept.\<close>

lemma server_down_first:
  "server_down (on_listen_failed e st) = Some (unwrap_or e (server_down st))"
  by (simp add: server_down_def on_listen_failed_def unwrap_or_def split: option.split)

end
