(* ===== verification/Smpp_System.thy ===== *)
theory Smpp_System
  imports Smpp_Calls Smpp_Spawn "HOL-Library.Sublist"
begin

text \<open>
  The runtime as a whole: a step relation with one rule per event that can happen to the
  shared state (a call of the codec on one of the two listeners, a turn of a rate limiter, a
  reconnect, a sampler tick), the states reachable from the one \<open>spawn\<close> builds, the
  invariant of these states, and the session directory they implement.
\<close>

section \<open>Steps\<close>

text \<open>
  The type argument is the one of the script's own objects. Every step may run under another
  script environment: scripts can be reloaded. Listeners of binds are those the supervisors
  build from the configuration. A turn of a limiter stands for the passes of tasks that are
  still waiting in \<open>acquire\<close>, of an inbound session or of a send.
\<close>

inductive transition :: "'c itself \<Rightarrow> SmppConfig \<Rightarrow> State \<Rightarrow> State \<Rightarrow> bool" for T :: "'c itself" and cfg where
  listen_failed: "transition T cfg st (on_listen_failed e st)"
| bind_transmitter: "transition T cfg st (snd (on_bind_transmitter st))"
| bind_receiver: "transition T cfg st (snd (on_bind_receiver st))"
| bind_transceiver: "transition T cfg st (snd (on_bind_transceiver (env :: 'c script_env) sysid pw client st))"
| inbound: "on_inbound ok (io :: 'c io) client sid req st = Some (r, st') \<Longrightarrow> transition T cfg st st'"
| esme_timeout: "transition T cfg st (on_esme_timeout sid st)"
| esme_bound: "transition T cfg st (on_esme_bound (env :: 'c script_env) now esme (esme_session_id esme) st)"
| esme_unbound: "transition T cfg st (on_esme_unbound (env :: 'c script_env) sid st)"
| connection_failed: "transition T cfg st (snd (on_connection_failed l st))"
| deliver: "transition T cfg st (snd (on_deliver_sm (io :: 'c io) l server sid dq st))"
| bind_data: "transition T cfg st (snd (on_bind_data_sm ok (io :: 'c io) l server sid tq st))"
| alert: "transition T cfg st (on_alert_notification (io :: 'c io) l server sid aq st)"
| bind_timeout: "transition T cfg st (on_bind_timeout sid st)"
| smsc_bound: "b \<in> set (cf_binds cfg) \<Longrightarrow>
    transition T cfg st (on_smsc_bound (env :: 'c script_env) (listener_of b) now smsc (smsc_session_id smsc) st)"
| smsc_unbound: "transition T cfg st (on_smsc_unbound (env :: 'c script_env) l sid st)"
| limiter_turn: "a < length (st_limiters st) \<Longrightarrow>
    transition T cfg st (set_limiter a (snd (limiter_step op (st_limiters st ! a))) st)"
| reconnect: "supervise_attempt b att backoff st = Some (delays, st') \<Longrightarrow> transition T cfg st st'"
| paced: "pace clock th st = Some st' \<Longrightarrow> transition T cfg st st'"
| sampled: "transition T cfg st (count (sampler_tick (st_binds st) (st_esmes st)) st)"

inductive reachable :: "'c itself \<Rightarrow> SmppConfig \<Rightarrow> metrics \<Rightarrow> State \<Rightarrow> bool" for T :: "'c itself" and cfg m where
  spawned: "reachable T cfg m (spawn_state cfg m)"
| stepped: "reachable T cfg m st \<Longrightarrow> transition T cfg st st' \<Longrightarrow> reachable T cfg m st'"

text \<open>
  The run of one inbound session inside the whole runtime: its rate-limited requests as its
  listener serves them, turns of requests of it that go on waiting for a token, and, between
  them, any other step that leaves the session bound and its bucket alone (requests of other
  sessions do, by the frame property of the server). The numbers: how many of the requests
  were answered otherwise than with \<open>ESME_RTHROTTLED\<close>, and the clock readings, in order.
\<close>

inductive session_trace ::
  "'c itself \<Rightarrow> SmppConfig \<Rightarrow> (resp \<Rightarrow> bool) \<Rightarrow> string \<Rightarrow> State \<Rightarrow> nat \<Rightarrow> nat list \<Rightarrow> State \<Rightarrow> bool"
  for T :: "'c itself" and cfg ok sid where
  trace_end: "session_trace T cfg ok sid st 0 [] st"
| trace_request: "on_inbound ok (io :: 'c io) client sid req st = Some (r, st1) \<Longrightarrow> in_limited req \<Longrightarrow>
    session_trace T cfg ok sid st1 n ts st' \<Longrightarrow>
    session_trace T cfg ok sid st ((if r = reject ESME_RTHROTTLED then 0 else 1) + n) (io_clock io @ ts) st'"
| trace_waiting: "own_limiter sid st = Some a \<Longrightarrow> limiter_step op (st_limiters st ! a) = (False, b) \<Longrightarrow>
    session_trace T cfg ok sid (set_limiter a b st) n ts st' \<Longrightarrow>
    session_trace T cfg ok sid st n (op_time op # ts) st'"
| trace_other: "transition T cfg st st1 \<Longrightarrow> own_limiter sid st1 = own_limiter sid st \<Longrightarrow>
    own_limiter sid st = Some a \<Longrightarrow> st_limiters st1 ! a = st_limiters st ! a \<Longrightarrow>
    session_trace T cfg ok sid st1 n ts st' \<Longrightarrow> session_trace T cfg ok sid st n ts st'"

section \<open>Quiet steps\<close>

text \<open>
  Most steps leave the sessions alone: they only change the level of a bucket, the counters,
  and the record of events and unbinds.
\<close>

definition bucket_kept :: "Bucket \<Rightarrow> Bucket \<Rightarrow> bool" where
  "bucket_kept b b' \<longleftrightarrow> b_max b' = b_max b \<and> (bucket_ok b \<longrightarrow> bucket_ok b')"

definition quiet :: "State \<Rightarrow> State \<Rightarrow> bool" where
  "quiet st st' \<longleftrightarrow> st_binds st' = st_binds st \<and> st_esmes st' = st_esmes st \<and> st_next_ptr st' = st_next_ptr st
     \<and> st_inbound_max_mps st' = st_inbound_max_mps st \<and> st_throttle_action st' = st_throttle_action st
     \<and> st_inbound_response_timer st' = st_inbound_response_timer st
     \<and> list_all2 bucket_kept (st_limiters st) (st_limiters st')"

lemma bucket_kept_refl [simp]: "bucket_kept b b"
  by (simp add: bucket_kept_def)

lemma bucket_kept_trans: "bucket_kept a b \<Longrightarrow> bucket_kept b c \<Longrightarrow> bucket_kept a c"
  by (simp add: bucket_kept_def)

lemma bucket_kept_step: "bucket_kept b (snd (limiter_step op b))"
  using limiter_step_consts[of op b] bucket_ok_step[of b op]
  by (cases "limiter_step op b") (auto simp: bucket_kept_def)

lemma bucket_kept_try: "try_acquire now b = (ok, b') \<Longrightarrow> bucket_kept b b'"
  using bucket_kept_step[of b "Try_acquire now"] by simp

lemma bucket_kept_acquire: "acquire clock waited b = Some (w, b') \<Longrightarrow> bucket_kept b b'"
proof (induction clock waited b rule: acquire.induct)
  case (2 now clock waited b)
  have "bucket_kept b (snd (acquire_pass now b))"
    using bucket_kept_step[of b "Acquire_turn now"] by simp
  with 2 show ?case
    by (auto split: prod.splits option.splits intro: bucket_kept_trans)
qed simp

lemma quiet_refl [simp]: "quiet st st"
  by (simp add: quiet_def list.rel_refl)

lemma quiet_trans [trans]: "quiet s t \<Longrightarrow> quiet t u \<Longrightarrow> quiet s u"
  by (auto simp: quiet_def intro: list_all2_trans[of bucket_kept bucket_kept bucket_kept] bucket_kept_trans)

lemma quiet_count [simp]: "quiet st (count f st')  \<longleftrightarrow> quiet st st'"
  by (simp add: quiet_def count_def)

lemma quiet_set_limiter:
  assumes "bucket_kept (st_limiters st ! a) b"
  shows "quiet st (set_limiter a b st)"
proof -
  have "list_all2 bucket_kept (st_limiters st) ((st_limiters st)[a := b])"
    using assms
    by (cases "a < length (st_limiters st)")
      (auto simp: list_all2_conv_all_nth nth_list_update list.rel_refl)
  then show ?thesis by (simp add: quiet_def set_limiter_def)
qed

lemma quiet_account [simp]: "quiet st (account io c r st') \<longleftrightarrow> quiet st st'"
  by (simp add: account_def Let_def split: option.split sum.split)

lemma quiet_admit_inbound: "admit_inbound clock sid st = Some (a, st') \<Longrightarrow> quiet st st'"
  by (auto simp: admit_inbound_def Let_def
      dest!: bucket_kept_acquire bucket_kept_try intro!: quiet_set_limiter
      split: option.splits ThrottleAction.splits list.splits prod.splits if_splits)

lemma quiet_inbound:
  assumes "on_inbound ok io client sid req st = Some (r, st')"
  shows "quiet st st'"
proof (cases req)
  case (In_submit q)
  with assms show ?thesis
    by (auto simp: on_submit_sm_def dispatch_pdu_eq Let_def dest!: quiet_admit_inbound
        split: option.splits prod.splits InboundAdmit.splits sum.splits)
next
  case (In_data q)
  with assms show ?thesis
    by (auto simp: on_data_sm_def dispatch_pdu_opt_eq Let_def dest!: quiet_admit_inbound
        split: option.splits prod.splits InboundAdmit.splits sum.splits)
next
  case (In_cancel q)
  with assms show ?thesis
    by (auto simp: on_cancel_sm_def dispatch_pdu_opt_eq split: option.splits sum.splits if_splits)
next
  case (In_query q)
  with assms show ?thesis
    by (auto simp: on_query_sm_def dispatch_pdu_opt_eq split: option.splits sum.splits if_splits)
next
  case (In_replace q)
  with assms show ?thesis
    by (auto simp: on_replace_sm_def dispatch_pdu_opt_eq split: option.splits sum.splits if_splits)
next
  case (In_multi q)
  with assms show ?thesis
    by (auto simp: on_submit_sm_multi_def dispatch_pdu_opt_eq Let_def dest!: quiet_admit_inbound
        split: option.splits prod.splits InboundAdmit.splits sum.splits if_splits)
qed

lemma quiet_pace: "pace clock th st = Some st' \<Longrightarrow> quiet st st'"
  by (auto simp: pace_def Let_def dest!: bucket_kept_acquire intro!: quiet_set_limiter
      split: option.splits prod.splits)

lemma quiet_events:
  "quiet st (on_listen_failed e st)" "quiet st (snd (on_bind_transmitter st))"
  "quiet st (snd (on_bind_receiver st))" "quiet st (snd (on_bind_transceiver env sysid pw client st))"
  "quiet st (on_esme_timeout sid st)" "quiet st (on_bind_timeout sid st)"
  "quiet st (snd (on_connection_failed l st))"
  by (simp_all add: on_listen_failed_def on_bind_transmitter_def on_bind_receiver_def
      on_bind_transceiver_def on_esme_timeout_def on_bind_timeout_def on_connection_failed_def Let_def
      split: option.split)
    (simp_all add: quiet_def list.rel_refl)

lemma quiet_bind_requests:
  "quiet st (snd (on_deliver_sm io l server sid dq st))"
  "quiet st (snd (on_bind_data_sm ok io l server sid tq st))"
  "quiet st (on_alert_notification io l server sid aq st)"
  by (simp_all add: on_deliver_sm_def on_bind_data_sm_def on_alert_notification_def dispatch_pdu_eq
      dispatch_pdu_opt_eq Let_def split: option.split sum.split)

lemma quiet_reconnect: "supervise_attempt b att backoff st = Some (delays, st') \<Longrightarrow> quiet st st'"
  by (cases delays) (auto dest: supervise_attempt_result)

text \<open>A step is quiet or one of the four changes to a session list.\<close>

lemma transition_cases:
  assumes "transition (T :: 'c itself) cfg st st'"
  obtains (quiet) "quiet st st'"
  | (esme_bound) env now esme
    where "st' = on_esme_bound (env :: 'c script_env) now esme (esme_session_id esme) st"
  | (esme_unbound) env sid where "st' = on_esme_unbound (env :: 'c script_env) sid st"
  | (smsc_bound) b env now smsc where "b \<in> set (cf_binds cfg)"
      "st' = on_smsc_bound (env :: 'c script_env) (listener_of b) now smsc (smsc_session_id smsc) st"
  | (smsc_unbound) env l sid where "st' = on_smsc_unbound (env :: 'c script_env) l sid st"
  using assms
proof cases
  case (inbound ok io client sid req r)
  then show ?thesis by (intro quiet) (rule quiet_inbound)
next
  case (limiter_turn a op)
  then show ?thesis by (intro quiet) (simp add: quiet_set_limiter bucket_kept_step)
next
  case (reconnect b att backoff delays)
  then show ?thesis by (intro quiet) (rule quiet_reconnect)
next
  case (paced clock th)
  then show ?thesis by (intro quiet) (rule quiet_pace)
qed (auto intro: that simp: quiet_events quiet_bind_requests)

section \<open>The invariant\<close>

text \<open>The limiter of a session with this cap: none for a cap of zero, else a bucket of that rate.\<close>

definition capped :: "u32 \<Rightarrow> nat option \<Rightarrow> Bucket list \<Rightarrow> bool" where
  "capped rate th bs = (case th of
     None \<Rightarrow> rate = 0
   | Some a \<Rightarrow> 0 < rate \<and> a < length bs \<and> b_max (bs ! a) = of_nat (unat rate))"

definition owned :: "nat option list \<Rightarrow> nat list" where
  "owned ths = concat (map (\<lambda>th. case th of None \<Rightarrow> [] | Some a \<Rightarrow> [a]) ths)"

definition handles :: "State \<Rightarrow> nat list" where
  "handles st = map es_ptr (st_esmes st) @ map bs_ptr (st_binds st)"

definition limiters_of :: "State \<Rightarrow> nat list" where
  "limiters_of st = owned (map es_throttle (st_esmes st)) @ owned (map bs_throttle (st_binds st))"

definition esme_ok :: "SmppConfig \<Rightarrow> Bucket list \<Rightarrow> EsmeSession \<Rightarrow> bool" where
  "esme_ok cfg ls e \<longleftrightarrow> es_response_timer e = from_millis (sv_response_timer_ms (cf_server cfg))
     \<and> capped (sv_max_msg_per_sec (cf_server cfg)) (es_throttle e) ls"

definition bind_ok :: "SmppConfig \<Rightarrow> Bucket list \<Rightarrow> BindSession \<Rightarrow> bool" where
  "bind_ok cfg ls b \<longleftrightarrow> list_ex (\<lambda>c. bs_name b = bc_name c
     \<and> bs_response_timer b = from_millis (bc_response_timer_ms c)
     \<and> capped (bc_max_msg_per_sec c) (bs_throttle b) ls) (cf_binds cfg)"

definition state_ok :: "SmppConfig \<Rightarrow> State \<Rightarrow> bool" where
  "state_ok cfg st \<longleftrightarrow>
     st_inbound_max_mps st = sv_max_msg_per_sec (cf_server cfg)
   \<and> st_throttle_action st = sv_throttle_action (cf_server cfg)
   \<and> st_inbound_response_timer st = from_millis (sv_response_timer_ms (cf_server cfg))
   \<and> list_all bucket_ok (st_limiters st)
   \<and> list_all (esme_ok cfg (st_limiters st)) (st_esmes st)
   \<and> list_all (bind_ok cfg (st_limiters st)) (st_binds st)
   \<and> distinct (handles st) \<and> list_all (\<lambda>h. h < st_next_ptr st) (handles st)
   \<and> distinct (limiters_of st)"

lemma owned_simps [simp]:
  "owned [] = []" "owned (None # ths) = owned ths" "owned (Some a # ths) = a # owned ths"
  "owned (xs @ ys) = owned xs @ owned ys"
  by (simp_all add: owned_def)

lemma set_owned: "a \<in> set (owned ths) \<longleftrightarrow> Some a \<in> set ths"
  by (auto simp: owned_def split: option.splits)

lemma distinct_owned_filter: "distinct (owned (map f xs)) \<Longrightarrow> distinct (owned (map f (filter P xs)))"
proof (induction xs)
  case (Cons x xs)
  then show ?case by (cases "f x") (auto simp: set_owned)
qed simp

text \<open>A cap is kept when buckets keep their size and when new buckets are appended.\<close>

lemma capped_kept: "list_all2 bucket_kept ls ls' \<Longrightarrow> capped rate th ls \<Longrightarrow> capped rate th ls'"
  by (auto simp: capped_def bucket_kept_def list_all2_conv_all_nth split: option.splits)

lemma capped_append: "capped rate th ls \<Longrightarrow> capped rate th (ls @ new)"
  by (auto simp: capped_def nth_append split: option.splits)

lemma esme_ok_kept: "list_all2 bucket_kept ls ls' \<Longrightarrow> esme_ok cfg ls e \<Longrightarrow> esme_ok cfg ls' e"
  by (auto simp: esme_ok_def intro: capped_kept)

lemma bind_ok_kept: "list_all2 bucket_kept ls ls' \<Longrightarrow> bind_ok cfg ls b \<Longrightarrow> bind_ok cfg ls' b"
  by (auto simp: bind_ok_def list_ex_iff intro: capped_kept)

lemma esme_ok_append: "esme_ok cfg ls e \<Longrightarrow> esme_ok cfg (ls @ new) e"
  by (simp add: esme_ok_def capped_append)

lemma bind_ok_append: "bind_ok cfg ls b \<Longrightarrow> bind_ok cfg (ls @ new) b"
  by (auto simp: bind_ok_def list_ex_iff intro: capped_append)

lemma limiters_in_range:
  assumes "state_ok cfg st" and "a \<in> set (limiters_of st)"
  shows "a < length (st_limiters st)"
  using assms
  by (auto simp: state_ok_def limiters_of_def set_owned esme_ok_def bind_ok_def capped_def
      list_all_iff list_ex_iff split: option.splits)

lemma state_ok_spawn: "state_ok cfg (spawn_state cfg m)"
  by (simp add: state_ok_def spawn_state_def handles_def limiters_of_def)

lemma state_ok_quiet:
  assumes "state_ok cfg st" and "quiet st st'"
  shows "state_ok cfg st'"
proof -
  have kept: "list_all2 bucket_kept (st_limiters st) (st_limiters st')"
    using assms(2) by (simp add: quiet_def)
  have "list_all bucket_ok (st_limiters st')"
    using kept assms(1) by (auto simp: state_ok_def list_all_length list_all2_conv_all_nth bucket_kept_def)
  moreover have "list_all (esme_ok cfg (st_limiters st')) (st_esmes st)"
    "list_all (bind_ok cfg (st_limiters st')) (st_binds st)"
    using assms(1) esme_ok_kept[OF kept] bind_ok_kept[OF kept] by (auto simp: state_ok_def list_all_iff)
  ultimately show ?thesis
    using assms by (simp add: state_ok_def quiet_def handles_def limiters_of_def)
qed

text \<open>Allocating a limiter for a new session.\<close>

lemma RateLimiter_new_max:
  assumes "0 < rate"
  shows "b_max (RateLimiter_new rate now) = of_nat (unat rate)"
proof -
  have "1 \<le> unat rate" using assms by (simp add: word_less_nat_alt)
  then show ?thesis by (simp add: RateLimiter_new_def Let_def max_def)
qed

lemma new_limiter_capped:
  assumes "new_limiter rate now st = (th, st1)"
  shows "capped rate th (st_limiters st1)"
    and "\<exists>new. st_limiters st1 = st_limiters st @ new \<and> list_all bucket_ok new"
    and "st1 = st\<lparr>st_limiters := st_limiters st1\<rparr>"
    and "th = None \<or> th = Some (length (st_limiters st))"
  using assms
  by (auto simp: new_limiter_def capped_def RateLimiter_new_max word_gt_0 split: if_splits)

lemma state_ok_new_limiter:
  assumes "state_ok cfg st" and "new_limiter rate now st = (th, st1)"
  shows "state_ok cfg st1" and "set (owned [th]) \<inter> set (limiters_of st1) = {}" and "distinct (owned [th])"
proof -
  note new = new_limiter_capped[OF assms(2)]
  from new(2) obtain ls where ls: "st_limiters st1 = st_limiters st @ ls" "list_all bucket_ok ls" by blast
  have same: "st_esmes st1 = st_esmes st" "st_binds st1 = st_binds st" "st_next_ptr st1 = st_next_ptr st"
    "st_inbound_max_mps st1 = st_inbound_max_mps st" "st_throttle_action st1 = st_throttle_action st"
    "st_inbound_response_timer st1 = st_inbound_response_timer st"
    by (subst new(3); simp)+
  show "state_ok cfg st1"
    using assms(1) ls
    by (auto simp: state_ok_def same handles_def limiters_of_def list_all_iff intro: esme_ok_append bind_ok_append)
  show "set (owned [th]) \<inter> set (limiters_of st1) = {}" "distinct (owned [th])"
    using new(4) limiters_in_range[OF assms(1), of "length (st_limiters st)"]
    by (auto simp: same limiters_of_def)
qed

lemma state_ok_esme_bound:
  assumes "state_ok cfg st"
  shows "state_ok cfg (on_esme_bound env now esme sid st)"
proof -
  obtain th st1 where new: "new_limiter (st_inbound_max_mps st) now st = (th, st1)" by fastforce
  note ok = state_ok_new_limiter[OF assms new]
  have "capped (sv_max_msg_per_sec (cf_server cfg)) th (st_limiters st1)"
    using new_limiter_capped(1)[OF new] assms by (simp add: state_ok_def)
  with ok show ?thesis
    by (cases th) (auto simp: on_esme_bound_def new dispatch_session_event_def state_ok_def handles_def
        limiters_of_def esme_ok_def list_all_iff Let_def ball_Un less_Suc_eq)
qed

lemma state_ok_smsc_bound:
  assumes "state_ok cfg st" and "b \<in> set (cf_binds cfg)"
  shows "state_ok cfg (on_smsc_bound env (listener_of b) now smsc sid st)"
proof -
  obtain th st1 where new: "new_limiter (bc_max_msg_per_sec b) now st = (th, st1)" by fastforce
  note ok = state_ok_new_limiter[OF assms(1) new]
  have "bind_ok cfg (st_limiters st1) \<lparr>bs_name = bc_name b, bs_smsc = smsc, bs_ptr = st_next_ptr st1,
      bs_throttle = th, bs_response_timer = from_millis (bc_response_timer_ms b)\<rparr>"
    using new_limiter_capped(1)[OF new] assms(2) by (auto simp: bind_ok_def list_ex_iff)
  with ok show ?thesis
    by (cases th) (auto simp: on_smsc_bound_def listener_of_def new dispatch_session_event_def state_ok_def
        handles_def limiters_of_def list_all_iff Let_def ball_Un less_Suc_eq)
qed

lemma distinct_append_filter:
  "distinct (map f (xs :: 'a list) @ ys) \<Longrightarrow> distinct (map f (filter P xs) @ ys)"
  by (auto simp: distinct_map_filter)

lemma set_owned_filter: "set (owned (map f (filter P xs))) \<subseteq> set (owned (map f xs))"
  by (auto simp: set_owned)

lemma state_ok_filter:
  assumes "state_ok cfg st"
  shows "state_ok cfg (st\<lparr>st_esmes := filter P (st_esmes st)\<rparr>)"
    and "state_ok cfg (st\<lparr>st_binds := filter Q (st_binds st)\<rparr>)"
  using assms set_owned_filter[of es_throttle P "st_esmes st"] set_owned_filter[of bs_throttle Q "st_binds st"]
  by (auto simp: state_ok_def handles_def limiters_of_def list_all_iff distinct_map_filter
      distinct_owned_filter)

lemma state_ok_event: "state_ok cfg (dispatch_session_event env e s st) \<longleftrightarrow> state_ok cfg st"
  by (simp add: dispatch_session_event_def state_ok_def handles_def limiters_of_def)

lemma state_ok_unbound:
  assumes "state_ok cfg st"
  shows "state_ok cfg (on_esme_unbound env sid st)" and "state_ok cfg (on_smsc_unbound env l sid st)"
  using state_ok_filter[OF assms]
  by (simp_all add: on_esme_unbound_def on_smsc_unbound_def state_ok_event retain_esmes_def retain_binds_def
      Let_def split: prod.split)

lemma state_ok_transition: "transition T cfg st st' \<Longrightarrow> state_ok cfg st \<Longrightarrow> state_ok cfg st'"
  by (erule transition_cases)
    (auto intro: state_ok_quiet state_ok_esme_bound state_ok_smsc_bound state_ok_unbound)

interpretation runtime: machine "\<lambda>st. \<exists>m. st = spawn_state cfg m" "transition T cfg" "state_ok cfg" for T cfg
  by unfold_locales (auto intro: state_ok_spawn state_ok_transition)

lemma reachable_run: "reachable T cfg m st \<Longrightarrow> (transition T cfg)\<^sup>*\<^sup>* (spawn_state cfg m) st"
  by (induction rule: reachable.induct) (auto intro: rtranclp.rtrancl_into_rtrancl)

lemma reachable_ok: "reachable T cfg m st \<Longrightarrow> state_ok cfg st"
  using runtime.inv_reachable reachable_run by blast

section \<open>The session directory\<close>

text \<open>
  What the runtime promises of its sessions, without handles, limiters and timers: which ESME
  is bound under a session id, and which bind and peer is up under one.
\<close>

type_synonym directory = "(string \<rightharpoonup> ESME) \<times> (string \<rightharpoonup> string \<times> SMSC)"

datatype dir_change = Esme_joins ESME | Esme_leaves string | Bind_joins string SMSC | Bind_leaves string

fun dir_apply :: "dir_change \<Rightarrow> directory \<Rightarrow> directory" where
  "dir_apply (Esme_joins e) (E, B) = ([esme_session_id e \<mapsto> e] ++ E, B)"
| "dir_apply (Esme_leaves k) (E, B) = (E(k := None), B)"
| "dir_apply (Bind_joins name s) (E, B) = (E, [smsc_session_id s \<mapsto> (name, s)] ++ B)"
| "dir_apply (Bind_leaves k) (E, B) = (E, B(k := None))"

definition directory :: "State \<Rightarrow> directory" where
  "directory st =
     (\<lambda>k. map_option es_esme (find_esme k (st_esmes st)),
      \<lambda>k. map_option (\<lambda>b. (bs_name b, bs_smsc b)) (find_bind_session k (st_binds st)))"

lemma session_changes:
  "st_esmes (on_esme_unbound env k st) = esmes.change (st_esmes st) (Unbound k)"
  "st_binds (on_esme_unbound env k st) = st_binds st"
  "st_next_ptr (on_esme_unbound env k st) = st_next_ptr st"
  "st_esmes (on_smsc_unbound env l k st) = st_esmes st"
  "st_binds (on_smsc_unbound env l k st) = binds.change (st_binds st) (Unbound k)"
  "st_next_ptr (on_smsc_unbound env l k st) = st_next_ptr st"
  by (simp_all add: on_esme_unbound_def on_smsc_unbound_def dispatch_session_event_def Let_def
      split: prod.split)

lemma session_additions:
  "\<exists>th. st_esmes (on_esme_bound env now e sid st) = esmes.change (st_esmes st) (Bound
     \<lparr>es_esme = e, es_ptr = st_next_ptr st, es_throttle = th,
      es_response_timer = st_inbound_response_timer st\<rparr>)
   \<and> st_binds (on_esme_bound env now e sid st) = st_binds st
   \<and> st_next_ptr (on_esme_bound env now e sid st) = Suc (st_next_ptr st)"
  "\<exists>th. st_binds (on_smsc_bound env l now s sid st) = binds.change (st_binds st) (Bound
     \<lparr>bs_name = bl_bind_name l, bs_smsc = s, bs_ptr = st_next_ptr st, bs_throttle = th,
      bs_response_timer = bl_response_timer l\<rparr>)
   \<and> st_esmes (on_smsc_bound env l now s sid st) = st_esmes st
   \<and> st_next_ptr (on_smsc_bound env l now s sid st) = Suc (st_next_ptr st)"
  by (simp_all add: on_esme_bound_def on_smsc_bound_def new_limiter_def dispatch_session_event_def Let_def)

text \<open>Handles of sessions that are gone are never given to a new session.\<close>

lemma gone_transition:
  assumes "transition T cfg st st'" and "session_gone on_bind h st" and "h < st_next_ptr st"
  shows "session_gone on_bind h st' \<and> st_next_ptr st \<le> st_next_ptr st'"
  using assms(1)
proof (cases rule: transition_cases)
  case quiet
  with assms show ?thesis by (simp add: quiet_def session_gone_def)
next
  case (esme_bound env now esme)
  with session_additions(1)[of env now esme "esme_session_id esme" st] assms(2,3)
  show ?thesis by (auto simp: session_gone_def intro!: esmes.gone_change simp del: esmes.change.simps)
next
  case (esme_unbound env sid)
  with assms(2) show ?thesis
    by (auto simp: session_gone_def session_changes intro!: esmes.gone_change simp del: esmes.change.simps)
next
  case (smsc_bound b env now smsc)
  with session_additions(2)[of env "listener_of b" now smsc "smsc_session_id smsc" st] assms(2,3)
  show ?thesis by (auto simp: session_gone_def intro!: binds.gone_change simp del: binds.change.simps)
next
  case (smsc_unbound env l sid)
  with assms(2) show ?thesis
    by (auto simp: session_gone_def session_changes intro!: binds.gone_change simp del: binds.change.simps)
qed

lemma gone_run:
  assumes "(transition T cfg)\<^sup>*\<^sup>* st st'" and "session_gone on_bind h st" and "h < st_next_ptr st"
  shows "session_gone on_bind h st'"
proof -
  have "session_gone on_bind h st' \<and> st_next_ptr st \<le> st_next_ptr st'"
    using assms(1)
  proof (induction rule: rtranclp_induct)
    case base
    show ?case using assms(2) by simp
  next
    case (step u v)
    with gone_transition[OF step(2), of on_bind h] assms(3) show ?case by auto
  qed
  then show ?thesis by simp
qed

lemma owned_unique:
  "distinct (owned (map f xs)) \<Longrightarrow> x \<in> set xs \<Longrightarrow> y \<in> set xs \<Longrightarrow> f x = Some a \<Longrightarrow> f y = Some a \<Longrightarrow> x = y"
proof (induction xs)
  case (Cons z xs)
  then show ?case by (cases "f z") (auto simp: set_owned rev_image_eqI)
qed simp

text \<open>
  What a session's requests do to its bucket: one token for a request that is let through,
  none for one that is refused, at times among the clock readings of the request.
\<close>

lemma admit_run:
  assumes "admit_inbound clock sid st = Some (x, st1)" and "own_limiter sid st = Some a"
    and "a < length (st_limiters st)"
  shows "\<exists>ops rest. limiter_run ops (st_limiters st ! a) = (if x = Proceed then 1 else 0, st_limiters st1 ! a)
    \<and> clock = map op_time ops @ rest"
proof (cases "st_throttle_action st")
  case Pace
  with assms obtain w b where acq: "acquire clock False (st_limiters st ! a) = Some (w, b)"
    "x = Proceed" "st_limiters st1 = (st_limiters st)[a := b]"
    by (auto simp: admit_inbound_def own_limiter_def Let_def split: option.splits)
  from acquire_run[OF acq(1)] acq(2,3) assms(3) show ?thesis by auto
next
  case Reject
  with assms obtain now rest where clock: "clock = now # rest"
    by (auto simp: admit_inbound_def own_limiter_def split: list.splits)
  obtain taken b where attempt: "try_acquire now (st_limiters st ! a) = (taken, b)" by fastforce
  with Reject assms clock have "x = (if taken then Proceed else Throttled)" "st_limiters st1 = (st_limiters st)[a := b]"
    by (auto simp: admit_inbound_def own_limiter_def Let_def split: if_splits)
  with attempt clock assms(3) show ?thesis
    by (intro exI[of _ "[Try_acquire now]"] exI[of _ rest]) simp
qed

lemma inbound_run:
  assumes "on_inbound ok io client sid req st = Some (r, st1)" and "is_success_ok ok" and "in_limited req"
    and "own_limiter sid st = Some a" and "a < length (st_limiters st)"
  shows "\<exists>ops rest m. limiter_run ops (st_limiters st ! a) = (m, st_limiters st1 ! a)
    \<and> io_clock io = map op_time ops @ rest \<and> (if r = reject ESME_RTHROTTLED then 0 else 1) \<le> m"
proof -
  have "serve io client sid req st = Some (r, st1)" using assms(1) by (simp add: on_inbound_serve[OF assms(2)])
  then show ?thesis
  proof (cases rule: serve_cases)
    case (throttled st2)
    with admit_run[OF _ assms(4,5), of "io_clock io" Throttled st2] assms(3) show ?thesis
      by (auto simp: admit_def finish_def)
  next
    case (served st2)
    with admit_run[OF _ assms(4,5), of "io_clock io" Proceed st2] assms(3)
    obtain ops rest where "limiter_run ops (st_limiters st ! a) = (1, st_limiters st1 ! a)"
      "io_clock io = map op_time ops @ rest"
      by (auto simp: admit_def finish_def)
    then show ?thesis by (intro exI[of _ ops] exI[of _ rest] exI[of _ 1]) simp
  qed
qed

lemma own_limiter_ok:
  assumes "state_ok cfg st" and "own_limiter sid st = Some a"
  shows "a < length (st_limiters st)" and "bucket_ok (st_limiters st ! a)"
proof -
  obtain e where "e \<in> set (st_esmes st)" "es_throttle e = Some a"
    using assms(2) by (auto simp: own_limiter_def find_esme_def bind_eq_Some_conv dest: find_SomeD)
  with assms(1) show "a < length (st_limiters st)"
    by (auto simp: state_ok_def esme_ok_def capped_def list_all_iff split: option.splits)
  with assms(1) show "bucket_ok (st_limiters st ! a)" by (auto simp: state_ok_def list_all_iff)
qed

lemma own_limiter_quiet: "quiet st st1 \<Longrightarrow> own_limiter sid st1 = own_limiter sid st"
  by (simp add: quiet_def own_limiter_def)

lemma trace_run:
  assumes "session_trace T cfg ok sid st n ts st'" and "state_ok cfg st" and "is_success_ok ok"
    and "own_limiter sid st = Some a"
  shows "\<exists>ops m. limiter_run ops (st_limiters st ! a) = (m, st_limiters st' ! a) \<and> n \<le> m
    \<and> subseq (map op_time ops) ts"
  using assms(1,2,4)
proof (induction rule: session_trace.induct)
  case (trace_end st)
  show ?case by (intro exI[of _ "[]"]) simp
next
  case (trace_request io client req st r st1 n ts st')
  have quiet: "quiet st st1" using trace_request.hyps(1) by (rule quiet_inbound)
  obtain ops1 rest k where one: "limiter_run ops1 (st_limiters st ! a) = (k, st_limiters st1 ! a)"
    "io_clock io = map op_time ops1 @ rest" "(if r = reject ESME_RTHROTTLED then 0 else 1) \<le> k"
    using inbound_run[OF trace_request.hyps(1) assms(3) trace_request.hyps(2) trace_request.prems(2)]
      own_limiter_ok(1)[OF trace_request.prems] by blast
  obtain ops m where more: "limiter_run ops (st_limiters st1 ! a) = (m, st_limiters st' ! a)" "n \<le> m"
    "subseq (map op_time ops) ts"
    using trace_request.IH state_ok_quiet[OF trace_request.prems(1) quiet] own_limiter_quiet[OF quiet]
      trace_request.prems(2) by auto
  have "subseq (map op_time ops1) (io_clock io)" unfolding one(2) by (rule prefix_imp_subseq) simp
  with more(3) have "subseq (map op_time (ops1 @ ops)) (io_clock io @ ts)"
    by (simp add: list_emb_append_mono)
  with one(1,3) more(1,2) show ?case
    by (intro exI[of _ "ops1 @ ops"] exI[of _ "k + m"]) (auto simp: limiter_run_append)
next
  case (trace_waiting st a' op b n ts st')
  then have a': "a' = a" by simp
  note in_range = own_limiter_ok(1)[OF trace_waiting.prems]
  have "bucket_kept (st_limiters st ! a) b"
    using bucket_kept_step[of "st_limiters st ! a" op] trace_waiting.hyps(2) a' by simp
  then have quiet: "quiet st (set_limiter a' b st)" unfolding a' by (rule quiet_set_limiter)
  obtain ops m where more: "limiter_run ops b = (m, st_limiters st' ! a)" "n \<le> m" "subseq (map op_time ops) ts"
    using trace_waiting.IH state_ok_quiet[OF trace_waiting.prems(1) quiet] own_limiter_quiet[OF quiet]
      trace_waiting.prems(2) in_range a' by auto
  with trace_waiting.hyps(2) a' show ?case
    by (intro exI[of _ "op # ops"] exI[of _ m]) (simp del: limiter_step.simps)
next
  case (trace_other st st1 a' n ts st')
  then show ?case using state_ok_transition[OF trace_other.hyps(1)] by auto
qed

lemma sorted_subseq: "subseq xs ys \<Longrightarrow> sorted ys \<Longrightarrow> sorted (xs :: nat list)"
  by (induction rule: list_emb.induct) (auto dest: list_emb_set)

lemma trace_cap:
  assumes "session_trace T cfg ok sid st n ts st'" and "reachable T cfg m st" and "is_success_ok ok"
    and "own_limiter sid st = Some a" and "sorted (b_last (st_limiters st ! a) # ts)"
  shows "rat_of_nat n \<le> rate_bound (b_max (st_limiters st ! a))
    (last (b_last (st_limiters st ! a) # ts) - b_last (st_limiters st ! a))"
proof -
  let ?b = "st_limiters st ! a" and ?b' = "st_limiters st' ! a"
  have ok: "state_ok cfg st" using reachable_ok[OF assms(2)] .
  have bucket: "bucket_ok ?b" using own_limiter_ok(2)[OF ok assms(4)] .
  obtain ops k where run: "limiter_run ops ?b = (k, ?b')" "n \<le> k" "subseq (map op_time ops) ts"
    using trace_run[OF assms(1) ok assms(3,4)] by blast
  have sub: "subseq (b_last ?b # map op_time ops) (b_last ?b # ts)" using run(3) by simp
  have "sorted (b_last ?b # map op_time ops)" by (rule sorted_subseq[OF sub assms(5)])
  note cap = limiter_run_cap[OF bucket run(1) this]
  have "b_last ?b' \<in> set (b_last ?b # map op_time ops)"
    unfolding bucket.run_last[OF run(1)] by (rule last_in_set) simp
  then have "b_last ?b' \<in> set (b_last ?b # ts)" using list_emb_set[OF sub] by blast
  then have "b_last ?b' \<le> last (b_last ?b # ts)" by (rule sorted_le_last[OF assms(5)])
  then have "rate_bound (b_max ?b) (b_last ?b' - b_last ?b) \<le> rate_bound (b_max ?b) (last (b_last ?b # ts) - b_last ?b)"
    using bucket unfolding rate_bound_def as_secs_def
    by (intro mult_right_mono mult_left_mono add_left_mono divide_right_mono) (auto simp: bucket_ok_def)
  moreover have "rat_of_nat n \<le> of_nat k" using run(2) by simp
  ultimately show ?thesis using cap by linarith
qed

text \<open>A running server with one bound ESME, for the witnesses.\<close>

definition sample_running :: State where
  "sample_running =
     on_esme_bound sample_env 0 (sample_esme ''s1'') ''s1'' (spawn_state sample_config (Some []))"

lemma sample_running_reachable: "reachable TYPE(unit) sample_config (Some []) sample_running"
proof -
  have "esme_session_id (sample_esme ''s1'') = ''s1''" by (simp add: sample_esme_def)
  with esme_bound[where T = "TYPE(unit)" and env = sample_env and esme = "sample_esme ''s1''"]
  show ?thesis
    unfolding sample_running_def by (metis reachable.intros)
qed

lemma sample_running_esmes:
  "st_esmes sample_running = [\<lparr>es_esme = sample_esme ''s1'', es_ptr = 0, es_throttle = Some 0, es_response_timer = 0\<rparr>]"
  "st_next_ptr sample_running = 1"
  by (simp_all add: sample_running_def on_esme_bound_def new_limiter_def dispatch_session_event_def
      spawn_state_def sample_config_def ServerConfig_default_def from_millis_def Let_def)

section \<open>Properties\<close>

text \<open>
  C4. The invariant of the runtime: in every state that can be reached, under any
  interleaving of events and any behaviour of the scripts, every bucket is between empty and
  full and refills at its own rate; every ESME session has the configured response timer and
  a limiter exactly when a cap is configured, of that cap; every bind session belongs to a
  configured bind and has its timer and cap; no two sessions share a handle or a limiter.
\<close>

theorem reachable_state_invariant:
  assumes "reachable T cfg m st"
  shows "state_ok cfg st"
  using assms by (rule reachable_ok)

theorem reachable_state_invariant_witness: "state_ok sample_config sample_running"
  by (rule reachable_state_invariant[OF sample_running_reachable])

text \<open>
  C6. The configured cap holds for what a session sends: a bound ESME session of a reachable
  state has a limiter no other session uses, and from that state on, however its requests
  interleave with everything else in the runtime, at most one second's burst plus the
  configured rate times the time that passed of its submit_sm, data_sm and submit_sm_multi
  requests are answered otherwise than with \<open>ESME_RTHROTTLED\<close>, up to the four parts in a
  million of \<open>f64\<close> rounding.
\<close>

theorem session_rate_cap:
  assumes "reachable T cfg m st" and "find_esme sid (st_esmes st) = Some e" and "is_success_ok ok"
    and "cap = sv_max_msg_per_sec (cf_server cfg)" and "0 < cap"
  shows "\<exists>a. es_throttle e = Some a
    \<and> (\<forall>e' \<in> set (st_esmes st). es_throttle e' = Some a \<longrightarrow> e' = e)
    \<and> (\<forall>b \<in> set (st_binds st). bs_throttle b \<noteq> Some a)
    \<and> (\<forall>n ts st'. session_trace T cfg ok sid st n ts st'
         \<and> sorted (b_last (st_limiters st ! a) # ts) \<longrightarrow>
         rat_of_nat n \<le> of_nat (unat cap)
           * (1 + as_secs (last (b_last (st_limiters st ! a) # ts) - b_last (st_limiters st ! a))) * (1 + 1 / 2 ^ 18))"
proof -
  have ok: "state_ok cfg st" using reachable_ok[OF assms(1)] .
  have e: "e \<in> set (st_esmes st)" using assms(2) by (auto simp: find_esme_def dest: find_SomeD)
  then have "capped cap (es_throttle e) (st_limiters st)"
    using ok assms(4) by (auto simp: state_ok_def esme_ok_def list_all_iff)
  then obtain a where a: "es_throttle e = Some a" "b_max (st_limiters st ! a) = of_nat (unat cap)"
    using assms(5) by (auto simp: capped_def split: option.splits)
  have lim: "own_limiter sid st = Some a" using assms(2) a(1) by (simp add: own_limiter_def)
  have own: "e' = e" if "e' \<in> set (st_esmes st)" "es_throttle e' = Some a" for e'
    using ok that e a(1) owned_unique[of es_throttle "st_esmes st" e' e a]
    by (auto simp: state_ok_def limiters_of_def)
  have not_bind: "bs_throttle b \<noteq> Some a" if "b \<in> set (st_binds st)" for b
  proof
    assume "bs_throttle b = Some a"
    then have "a \<in> set (owned (map bs_throttle (st_binds st)))" "a \<in> set (owned (map es_throttle (st_esmes st)))"
      using that e a(1) by (auto simp: set_owned rev_image_eqI)
    with ok show False by (auto simp: state_ok_def limiters_of_def)
  qed
  have "rat_of_nat n \<le> of_nat (unat cap)
      * (1 + as_secs (last (b_last (st_limiters st ! a) # ts) - b_last (st_limiters st ! a))) * (1 + 1 / 2 ^ 18)"
    if "session_trace T cfg ok sid st n ts st'" "sorted (b_last (st_limiters st ! a) # ts)" for n ts st'
    using trace_cap[OF that(1) assms(1,3) lim that(2)] by (simp only: a(2) rate_bound_def)
  with a(1) own not_bind show ?thesis by blast
qed

text \<open>The sample session, capped at two messages per second, sends messages at the same instant.\<close>

lemma sample_trace:
  "st_throttle_action st = Reject \<Longrightarrow>
   \<exists>n st'. session_trace TYPE(unit) sample_config spec_is_success ''s1'' st n (replicate k 0) st'"
proof (induction k arbitrary: st)
  case 0
  show ?case using trace_end by fastforce
next
  case (Suc k)
  have "\<exists>x st1. admit sample_io ''s1'' sample_submit st = Some (x, st1)"
    using Suc.prems by (simp add: admit_def admit_inbound_def sample_io_def Let_def split: option.split prod.split)
  then obtain x st1 where "admit sample_io ''s1'' sample_submit st = Some (x, st1)" by blast
  then obtain r st2 where req: "on_inbound spec_is_success sample_io ''::1'' ''s1'' sample_submit st = Some (r, st2)"
    by (cases x) (simp_all add: on_inbound_serve[OF spec_is_success_ok] serve_def finish_def Let_def)
  have "st_throttle_action st2 = Reject" using quiet_inbound[OF req] Suc.prems by (simp add: quiet_def)
  with Suc.IH obtain n st' where
    "session_trace TYPE(unit) sample_config spec_is_success ''s1'' st2 n (replicate k 0) st'" by blast
  from trace_request[OF req _ this] show ?case by (auto simp: sample_io_def)
qed

theorem session_rate_cap_witness:
  "\<exists>n st'. session_trace TYPE(unit) sample_config spec_is_success ''s1'' sample_running n [0, 0, 0, 0] st' \<and> n \<le> 2"
proof -
  have e: "find_esme ''s1'' (st_esmes sample_running) = Some (hd (st_esmes sample_running))"
    "es_throttle (hd (st_esmes sample_running)) = Some 0"
    by (simp_all add: sample_running_esmes find_esme_def sample_esme_def)
  have cap: "sv_max_msg_per_sec (cf_server sample_config) = 2" by (simp add: sample_config_def)
  have st: "b_last (st_limiters sample_running ! 0) = 0" "st_throttle_action sample_running = Reject"
    by (simp_all add: sample_running_def on_esme_bound_def new_limiter_def dispatch_session_event_def
        spawn_state_def sample_config_def RateLimiter_new_def Let_def)
  obtain n st' where
    run: "session_trace TYPE(unit) sample_config spec_is_success ''s1'' sample_running n [0, 0, 0, 0] st'"
    using sample_trace[OF st(2), of 4] by (auto simp: numeral_eq_Suc)
  have "0 < (2 :: u32)" by simp
  from session_rate_cap[OF sample_running_reachable e(1) spec_is_success_ok cap[symmetric] this] e(2) run st(1)
  have "rat_of_nat n \<le> 2 * (1 + as_secs 0) * (1 + 1 / 2 ^ 18)" by fastforce
  then have "rat_of_nat n < of_nat 3" by (simp add: as_secs_def)
  then have "n < 3" by (simp only: of_nat_less_iff)
  with run show ?thesis by (intro exI conjI) auto
qed

text \<open>
  C18. A session that was unbound stays gone: from any reachable state, once a session is
  unbound no run of the runtime brings its handle back, so a send still waiting on it is
  told that it was closed and never takes a newer session for its own.
\<close>

theorem unbound_session_stays_gone:
  assumes "reachable T cfg m st"
  shows "(e \<in> set (st_esmes st)
      \<and> (transition T cfg)\<^sup>*\<^sup>* (on_esme_unbound env (esme_session_id (es_esme e)) st) st'
      \<longrightarrow> session_gone False (es_ptr e) st')
    \<and> (b \<in> set (st_binds st)
      \<and> (transition T cfg)\<^sup>*\<^sup>* (on_smsc_unbound env l (smsc_session_id (bs_smsc b)) st) st'
      \<longrightarrow> session_gone True (bs_ptr b) st')"
proof (intro conjI impI; elim conjE)
  assume e: "e \<in> set (st_esmes st)"
    and run: "(transition T cfg)\<^sup>*\<^sup>* (on_esme_unbound env (esme_session_id (es_esme e)) st) st'"
  have "es_ptr e < st_next_ptr st" "e' = e" if "e' \<in> set (st_esmes st)" "es_ptr e' = es_ptr e" for e'
    using reachable_ok[OF assms] e that by (auto simp: state_ok_def handles_def list_all_iff distinct_map inj_on_def)
  with e show "session_gone False (es_ptr e) st'"
    by (intro gone_run[OF run]) (auto simp: session_gone_def session_changes simp del: esmes.change.simps
        intro!: esmes.gone_unbound)
next
  assume b: "b \<in> set (st_binds st)"
    and run: "(transition T cfg)\<^sup>*\<^sup>* (on_smsc_unbound env l (smsc_session_id (bs_smsc b)) st) st'"
  have "bs_ptr b < st_next_ptr st" "b' = b" if "b' \<in> set (st_binds st)" "bs_ptr b' = bs_ptr b" for b'
    using reachable_ok[OF assms] b that by (auto simp: state_ok_def handles_def list_all_iff distinct_map inj_on_def)
  with b show "session_gone True (bs_ptr b) st'"
    by (intro gone_run[OF run]) (auto simp: session_gone_def session_changes simp del: binds.change.simps
        intro!: binds.gone_unbound)
qed

theorem unbound_session_stays_gone_witness:
  "session_gone False 0 (on_esme_bound sample_env 9 (sample_esme ''s2'') ''s2''
     (on_esme_unbound sample_env ''s1'' sample_running))"
proof -
  let ?e = "hd (st_esmes sample_running)"
  let ?st = "on_esme_unbound sample_env ''s1'' sample_running"
  have e: "?e \<in> set (st_esmes sample_running)" "es_ptr ?e = 0" "esme_session_id (es_esme ?e) = ''s1''"
    by (simp_all add: sample_running_esmes sample_esme_def)
  have "transition TYPE(unit) sample_config ?st
      (on_esme_bound sample_env 9 (sample_esme ''s2'') (esme_session_id (sample_esme ''s2'')) ?st)"
    by (rule transition.esme_bound)
  moreover have "esme_session_id (sample_esme ''s2'') = ''s2''" by (simp add: sample_esme_def)
  ultimately have "(transition TYPE(unit) sample_config)\<^sup>*\<^sup>* ?st (on_esme_bound sample_env 9 (sample_esme ''s2'') ''s2'' ?st)"
    by auto
  with e show ?thesis
    using unbound_session_stays_gone[OF sample_running_reachable, THEN conjunct1, of ?e sample_env] by simp
qed

text \<open>
  C17. The session lists implement the directory: binding adds the session under its id unless
  an older one still holds it, unbinding removes the id and nothing else, and neither touches
  the other side's sessions.
\<close>

theorem session_directory_refinement:
  "directory (on_esme_bound env now e (esme_session_id e) st) = dir_apply (Esme_joins e) (directory st)
   \<and> directory (on_esme_unbound env k st) = dir_apply (Esme_leaves k) (directory st)
   \<and> directory (on_smsc_bound env l now s (smsc_session_id s) st) =
      dir_apply (Bind_joins (bl_bind_name l) s) (directory st)
   \<and> directory (on_smsc_unbound env l k st) = dir_apply (Bind_leaves k) (directory st)"
proof -
  note refine = esmes.refines_step[THEN fun_cong] binds.refines_step[THEN fun_cong]
  show ?thesis
    using session_additions(1)[of env now e "esme_session_id e" st]
      session_additions(2)[of env l now s "smsc_session_id s" st]
    by (auto simp: directory_def session_changes refine fun_eq_iff map_add_def
        simp del: esmes.change.simps binds.change.simps split: option.split)
qed

end
