(* ===== verification/Smpp_Install.thy ===== *)
theory Smpp_Install
  imports Smpp_Server
begin

text \<open>
  The addon's two entry points (\<open>src/src/install.rs\<close>) and what a script does with them: the
  Python module \<open>smpp\<close> with its decorators and read-outs (\<open>src/python/smpp.py\<close>), the
  registrations the decorators make, and the fixed handler set of \<open>bench_support\<close>
  (\<open>src/src/dispatch.rs\<close>). The host's registry is not part of the repository: of it the code
  relies on \<open>registry_ok\<close>, that the registrations of a kind come back in the order they were
  made.
\<close>

section \<open>Registrations\<close>

text \<open>A script function as \<open>asyncio\<close> sees it, and the values the decorators put into options.\<close>

record 'c script_fn =
  fn_call :: "handler_args \<Rightarrow> (string, 'c script_value) result"
  fn_is_coroutine :: bool

datatype 'c option_entry = OptStr string | OptHandler "'c RegisteredHandler"

type_synonym 'c options = "(string \<times> 'c option_entry) list"

record 'c registration =
  rg_kind :: string
  rg_filter :: "string option"
  rg_is_async :: bool
  rg_options :: "'c options option"

definition RegisteredHandler_new :: "(handler_args \<Rightarrow> (string, 'c script_value) result) \<Rightarrow> bool \<Rightarrow> string option \<Rightarrow> 'c RegisteredHandler" where
  "RegisteredHandler_new callable is_async key = \<lparr>h_callable = callable, h_is_async = is_async, h_key = key\<rparr>"

definition HANDLER_OPTION :: string where "HANDLER_OPTION = ''_handler''"

text \<open>The \<open>_handler\<close> entry of a registration's options.\<close>

definition handler_entry :: "'c options option \<Rightarrow> 'c handler_option" where
  "handler_entry options =
     (case options of
        None \<Rightarrow> NoOptions
      | Some d \<Rightarrow>
          (case map_of d HANDLER_OPTION of
             None \<Rightarrow> NoEntry
           | Some (OptHandler h) \<Rightarrow> HandlerEntry h
           | Some (OptStr s) \<Rightarrow> OtherEntry))"

subsection \<open>The decorators\<close>

definition py_register ::
  "string \<Rightarrow> string option \<Rightarrow> 'c script_fn \<Rightarrow> string option \<Rightarrow> 'c options option \<Rightarrow>
   'c registration list \<Rightarrow> 'c registration list" where
  "py_register kind flt fn key options registry =
     (let is_async = fn_is_coroutine fn;
          options = set_item HANDLER_OPTION (OptHandler (RegisteredHandler_new (fn_call fn) is_async key))
            (unwrap_or [] options)
      in registry @ [\<lparr>rg_kind = kind, rg_filter = flt, rg_is_async = is_async, rg_options = Some options\<rparr>])"

definition py_on_bind :: "'c script_fn \<Rightarrow> 'c registration list \<Rightarrow> 'c registration list" where
  "py_on_bind fn = py_register ''smpp.on_bind'' None fn None None"

definition py_on_pdu :: "string \<Rightarrow> 'c script_fn \<Rightarrow> 'c registration list \<Rightarrow> 'c registration list" where
  "py_on_pdu command fn =
     py_register ''smpp.on_pdu'' None fn (Some command) (Some [(''command'', OptStr command)])"

definition py_on_session :: "string \<Rightarrow> 'c script_fn \<Rightarrow> 'c registration list \<Rightarrow> 'c registration list" where
  "py_on_session event fn =
     py_register ''smpp.on_session'' (Some event) fn (Some event) (Some [(''event'', OptStr event)])"

subsection \<open>Scripts\<close>

text \<open>
  A script, as far as its handlers go: what it decorates, top to bottom. \<open>Direct\<close> is a
  registration that did not go through the decorators.
\<close>

datatype 'c script_decl =
    OnBind "'c script_fn" | OnPdu string "'c script_fn" | OnSession string "'c script_fn"
  | Direct string "string option" bool

primrec declare_handler :: "'c registration list \<Rightarrow> 'c script_decl \<Rightarrow> 'c registration list" where
  "declare_handler registry (OnBind fn) = py_on_bind fn registry"
| "declare_handler registry (OnPdu command fn) = py_on_pdu command fn registry"
| "declare_handler registry (OnSession event fn) = py_on_session event fn registry"
| "declare_handler registry (Direct kind flt is_async) =
     registry @ [\<lparr>rg_kind = kind, rg_filter = flt, rg_is_async = is_async, rg_options = None\<rparr>]"

definition load_script :: "'c script_decl list \<Rightarrow> 'c registration list" where
  "load_script script = foldl declare_handler [] script"

definition registry_ok :: "'c script_env \<Rightarrow> 'c registration list \<Rightarrow> bool" where
  "registry_ok env registry \<longleftrightarrow>
     (\<forall>kind. handlers_for env kind =
        map (\<lambda>r. handler_entry (rg_options r)) (filter (\<lambda>r. rg_kind r = kind) registry))"

subsection \<open>A fixed set of handlers\<close>

type_synonym 'c ScriptHandlers = "(string \<times> 'c RegisteredHandler) list"

definition from_registrations :: "(string \<times> 'c options option) list \<Rightarrow> 'c ScriptHandlers" where
  "from_registrations registrations =
     List.map_filter (\<lambda>(kind, options). map_option (Pair kind) (registered (handler_entry options))) registrations"

definition Fixed_handlers :: "'c ScriptHandlers \<Rightarrow> string \<Rightarrow> 'c RegisteredHandler list" where
  "Fixed_handlers fixed kind = map snd (filter (\<lambda>(registered_kind, handler). registered_kind = kind) fixed)"

definition ScriptHandlers_pdu :: "'c script_env \<Rightarrow> string \<Rightarrow> Pdu \<Rightarrow> Session \<Rightarrow> SmppError option" where
  "ScriptHandlers_pdu env command p s =
     (case dispatch_on_pdu env command p s of
        Some (Inr r) \<Rightarrow> Some (rp_command_status r)
      | _ \<Rightarrow> None)"

section \<open>The namespace\<close>

text \<open>What an attribute of the module is: made by its own source, or attached by Rust.\<close>

datatype module_entry = FromSource | Class string | Function string | Exception string | Config cval

text \<open>The top-level names of \<open>python/smpp.py\<close>.\<close>

definition smpp_py_module :: "(string \<times> module_entry) list" where
  "smpp_py_module = map (\<lambda>n. (n, FromSource))
     [''asyncio'', ''_registry'', ''_register'', ''on_bind'', ''on_pdu'', ''on_session'',
      ''bind_address'', ''config'', ''binds'', ''routing_rules'']"

definition add_class :: "string \<Rightarrow> (string \<times> module_entry) list \<Rightarrow> (string \<times> module_entry) list" where
  "add_class name m = set_item name (Class name) m"

definition add_function :: "string \<Rightarrow> (string \<times> module_entry) list \<Rightarrow> (string \<times> module_entry) list" where
  "add_function name m = set_item name (Function name) m"

text \<open>\<open>from_code\<close> is what compiling and running the source gives: an error, or the module.\<close>

definition namespace ::
  "(OptionValue \<Rightarrow> string option) \<Rightarrow> (string, (string \<times> module_entry) list) result \<Rightarrow> SmppConfig \<Rightarrow>
   (string, (string \<times> module_entry) list) result" where
  "namespace to_yaml from_code cfg =
     rbind from_code (\<lambda>m.
     let m = set_item ''_config'' (Config (build_config_dict to_yaml cfg)) m;
         m = foldl (\<lambda>m c. add_class c m) m
           [''Pdu'', ''PduReply'', ''Session'', ''Bind'', ''BindResult'', ''AlertNotification'',
            ''_Handler'', ''SmppResp'', ''QueryResp''];
         m = set_item ''SmppSendError'' (Exception ''SmppSendError'') m;
         m = foldl (\<lambda>m f. add_function f m) m
           [''submit_via'', ''submit_multi_via'', ''data_via'', ''cancel_via'', ''query_via'',
            ''replace_via'', ''deliver_to'', ''data_to'', ''alert_to'']
     in Inr m)"

subsection \<open>Read-outs\<close>

text \<open>Subscripting and \<open>get\<close> on the configuration: a missing key or a wrong type raises.\<close>

definition c_index :: "string \<Rightarrow> cval \<Rightarrow> cval option" where
  "c_index k v = (case v of CDict d \<Rightarrow> map_of d k | _ \<Rightarrow> None)"

definition c_get :: "string \<Rightarrow> cval \<Rightarrow> cval \<Rightarrow> cval option" where
  "c_get k dflt v = (case v of CDict d \<Rightarrow> Some (unwrap_or dflt (map_of d k)) | _ \<Rightarrow> None)"

text \<open>\<open>str()\<close> of what the read-outs format.\<close>

definition c_str :: "cval \<Rightarrow> string option" where
  "c_str v = (case v of CStr s \<Rightarrow> Some s | CInt n \<Rightarrow> Some (dec_digits n) | _ \<Rightarrow> None)"

definition c_list :: "cval \<Rightarrow> cval list option" where
  "c_list v = (case v of CList xs \<Rightarrow> Some xs | _ \<Rightarrow> None)"

definition py_bind_address :: "cval \<Rightarrow> string option" where
  "py_bind_address config =
     Option.bind (c_index ''server'' config) (\<lambda>s.
     Option.bind (Option.bind (c_index ''bind_address'' s) c_str) (\<lambda>host.
     Option.bind (Option.bind (c_index ''port'' s) c_str) (\<lambda>port. Some (host @ '':'' @ port))))"

definition py_binds :: "cval \<Rightarrow> cval list option" where
  "py_binds config = Option.bind (c_get ''binds'' (CList []) config) c_list"

definition py_routing_rules :: "cval \<Rightarrow> (cval \<times> cval) option" where
  "py_routing_rules config =
     Option.bind (c_get ''routing'' (CDict []) config) (\<lambda>r.
     Option.bind (c_get ''default_chain'' (CList []) r) (\<lambda>chain.
     Option.bind (c_get ''rules'' (CList []) r) (\<lambda>rules. Some (chain, rules))))"

section \<open>Lemmas\<close>

subsection \<open>From declarations to handlers\<close>

definition handler_of :: "'c script_fn \<Rightarrow> string option \<Rightarrow> 'c RegisteredHandler" where
  "handler_of fn key = RegisteredHandler_new (fn_call fn) (fn_is_coroutine fn) key"

text \<open>The handler a declaration contributes to a kind of event.\<close>

fun served :: "string \<Rightarrow> 'c script_decl \<Rightarrow> 'c RegisteredHandler option" where
  "served kind (OnBind fn) = (if kind = BIND_KIND then Some (handler_of fn None) else None)"
| "served kind (OnPdu command fn) = (if kind = PDU_KIND then Some (handler_of fn (Some command)) else None)"
| "served kind (OnSession event fn) = (if kind = SESSION_KIND then Some (handler_of fn (Some event)) else None)"
| "served kind (Direct k f a) = None"

lemmas kind_defs = BIND_KIND_def PDU_KIND_def SESSION_KIND_def

lemma declare_handler_served:
  "List.map_filter (\<lambda>r. registered (handler_entry (rg_options r)))
     (filter (\<lambda>r. rg_kind r = kind) (declare_handler registry d)) =
   List.map_filter (\<lambda>r. registered (handler_entry (rg_options r))) (filter (\<lambda>r. rg_kind r = kind) registry)
     @ (case served kind d of None \<Rightarrow> [] | Some h \<Rightarrow> [h])"
  by (cases d) (auto simp: py_on_bind_def py_on_pdu_def py_on_session_def py_register_def Let_def
      handler_entry_def handler_of_def kind_defs map_filter_simps)

lemma load_script_served:
  "List.map_filter (\<lambda>r. registered (handler_entry (rg_options r)))
     (filter (\<lambda>r. rg_kind r = kind) (load_script script)) = List.map_filter (served kind) script"
  by (induction script rule: rev_induct)
    (simp_all add: load_script_def declare_handler_served map_filter_simps split: option.splits)

theorem handlers_script:
  assumes "registry_ok env (load_script script)"
  shows "handlers env kind = List.map_filter (served kind) script"
  using assms load_script_served[of kind script]
  by (simp add: handlers_def registry_ok_def map_filter_map comp_def)

text \<open>The functions a script decorates for an event, top to bottom.\<close>

definition pdu_functions :: "string \<Rightarrow> 'c script_decl list \<Rightarrow> 'c script_fn list" where
  "pdu_functions command =
     List.map_filter (\<lambda>d. case d of OnPdu c fn \<Rightarrow> if c = command then Some fn else None | _ \<Rightarrow> None)"

definition bind_functions :: "'c script_decl list \<Rightarrow> 'c script_fn list" where
  "bind_functions = List.map_filter (\<lambda>d. case d of OnBind fn \<Rightarrow> Some fn | _ \<Rightarrow> None)"

definition session_functions :: "string \<Rightarrow> 'c script_decl list \<Rightarrow> 'c script_fn list" where
  "session_functions event =
     List.map_filter (\<lambda>d. case d of OnSession e fn \<Rightarrow> if e = event then Some fn else None | _ \<Rightarrow> None)"

lemma served_functions:
  "filter (\<lambda>h. h_key h = Some command) (List.map_filter (served PDU_KIND) script) =
     map (\<lambda>fn. handler_of fn (Some command)) (pdu_functions command script)"
  "List.map_filter (served BIND_KIND) script = map (\<lambda>fn. handler_of fn None) (bind_functions script)"
  "filter (\<lambda>h. h_key h = Some event) (List.map_filter (served SESSION_KIND) script) =
     map (\<lambda>fn. handler_of fn (Some event)) (session_functions event script)"
proof (induction script)
  case (Cons d script)
  { case 1 from Cons(1) show ?case
      by (cases d) (auto simp: pdu_functions_def map_filter_simps kind_defs handler_of_def RegisteredHandler_new_def) }
  { case 2 from Cons(2) show ?case
      by (cases d) (auto simp: bind_functions_def map_filter_simps kind_defs) }
  { case 3 from Cons(3) show ?case
      by (cases d) (auto simp: session_functions_def map_filter_simps kind_defs handler_of_def RegisteredHandler_new_def) }
qed (simp_all add: pdu_functions_def bind_functions_def session_functions_def map_filter_simps)

text \<open>What a function comes to when it is called and, as a coroutine, awaited.\<close>

definition fn_value :: "'c script_env \<Rightarrow> 'c script_fn \<Rightarrow> handler_args \<Rightarrow> (string, 'c script_value) result" where
  "fn_value env fn args = handler_value env (handler_of fn None) args"

lemma handler_value_of: "handler_value env (handler_of fn key) args = fn_value env fn args"
  by (cases "fn_call fn args")
    (simp_all add: fn_value_def handler_value_def invoke_def handler_of_def RegisteredHandler_new_def)

text \<open>What a script decides about a bind.\<close>

definition script_verdict :: "'c script_env \<Rightarrow> 'c script_decl list \<Rightarrow> Bind \<Rightarrow> BindOutcome" where
  "script_verdict env script bind =
     (case bind_functions script of
        [] \<Rightarrow> BindOutcome_reject ''no @smpp.on_bind handler registered''
      | fn # _ \<Rightarrow>
          (case fn_value env fn (BindArgs bind) of
             Inl e \<Rightarrow> BindOutcome_reject (''@smpp.on_bind raised: '' @ e)
           | Inr v \<Rightarrow> bind_outcome v))"

lemma fixed_handlers_registered:
  "Fixed_handlers (from_registrations rs) kind =
     List.map_filter (\<lambda>(k, options). registered (handler_entry options)) (filter (\<lambda>(k, options). k = kind) rs)"
  by (induction rs) (auto simp: Fixed_handlers_def from_registrations_def map_filter_simps split: option.splits)

text \<open>The benchmarks dispatch into the same handlers as the runtime.\<close>

lemma bench_handlers_agree:
  assumes "registry_ok env registry"
  shows "Fixed_handlers (from_registrations (map (\<lambda>r. (rg_kind r, rg_options r)) registry)) kind = handlers env kind"
  using assms by (simp add: fixed_handlers_registered handlers_def registry_ok_def map_filter_map filter_map comp_def)

lemma first_matching_script:
  assumes "registry_ok env (load_script script)"
  shows "first_matching env PDU_KIND (Some command) =
      (case pdu_functions command script of [] \<Rightarrow> None | fn # _ \<Rightarrow> Some (handler_of fn (Some command)))"
    and "first_matching env BIND_KIND None =
      (case bind_functions script of [] \<Rightarrow> None | fn # _ \<Rightarrow> Some (handler_of fn None))"
proof -
  have first: "find P xs = (case filter P xs of [] \<Rightarrow> None | x # _ \<Rightarrow> Some x)" for P and xs :: "'a RegisteredHandler list"
    by (induction xs) auto
  show "first_matching env PDU_KIND (Some command) =
      (case pdu_functions command script of [] \<Rightarrow> None | fn # _ \<Rightarrow> Some (handler_of fn (Some command)))"
    by (simp add: first_matching_def first handlers_script[OF assms] served_functions split: list.splits)
  show "first_matching env BIND_KIND None =
      (case bind_functions script of [] \<Rightarrow> None | fn # _ \<Rightarrow> Some (handler_of fn None))"
    by (simp add: first_matching_def first handlers_script[OF assms] served_functions split: list.splits)
qed

lemma dispatch_pdu_script:
  assumes "registry_ok env (load_script script)" and "exec_shed env 0 = None"
  shows "dispatch_on_pdu env command p s =
      (case pdu_functions command script of
         [] \<Rightarrow> None
       | fn # _ \<Rightarrow> Some
           (case fn_value env fn (PduArgs p s) of
              Inl e \<Rightarrow> Inl e
            | Inr (PyObject c t (PduReplyObj r)) \<Rightarrow> Inr r
            | Inr v \<Rightarrow> Inr default_ok))"
  by (auto simp: dispatch_on_pdu_def on_executor_def assms(2) first_matching_script[OF assms(1)] settle_invoke
      handler_value_of pdu_reply_def split: list.splits sum.splits pyval.splits py_object.splits)

subsection \<open>The module\<close>

definition the_module :: "(OptionValue \<Rightarrow> string option) \<Rightarrow> SmppConfig \<Rightarrow> (string \<times> module_entry) list" where
  "the_module to_yaml cfg = smpp_py_module @ [(''_config'', Config (build_config_dict to_yaml cfg))]
     @ map (\<lambda>c. (c, Class c)) [''Pdu'', ''PduReply'', ''Session'', ''Bind'', ''BindResult'', ''AlertNotification'',
         ''_Handler'', ''SmppResp'', ''QueryResp'']
     @ [(''SmppSendError'', Exception ''SmppSendError'')]
     @ map (\<lambda>f. (f, Function f)) [''submit_via'', ''submit_multi_via'', ''data_via'', ''cancel_via'', ''query_via'',
         ''replace_via'', ''deliver_to'', ''data_to'', ''alert_to'']"

lemma namespace_module: "namespace to_yaml (Inr smpp_py_module) cfg = Inr (the_module to_yaml cfg)"
  by (simp add: namespace_def the_module_def smpp_py_module_def add_class_def add_function_def Let_def set_item_def)

lemma the_module_entries:
  "list_all (\<lambda>n. map_of (the_module to_yaml cfg) n = Some FromSource) (map fst smpp_py_module)"
  "list_all (\<lambda>k. map_of (the_module to_yaml cfg) k = Some (Class k))
     [''Pdu'', ''PduReply'', ''Session'', ''Bind'', ''BindResult'', ''AlertNotification'', ''_Handler'',
      ''SmppResp'', ''QueryResp'']"
  "list_all (\<lambda>f. map_of (the_module to_yaml cfg) f = Some (Function f))
     [''submit_via'', ''submit_multi_via'', ''data_via'', ''cancel_via'', ''query_via'',
      ''replace_via'', ''deliver_to'', ''data_to'', ''alert_to'']"
  "map_of (the_module to_yaml cfg) ''SmppSendError'' = Some (Exception ''SmppSendError'')"
  "map_of (the_module to_yaml cfg) ''_config'' = Some (Config (build_config_dict to_yaml cfg))"
  "distinct (map fst (the_module to_yaml cfg))" "length (the_module to_yaml cfg) = length smpp_py_module + 20"
  by (simp_all add: the_module_def smpp_py_module_def)

subsection \<open>Types of the configuration\<close>

text \<open>
  The shape of the configuration a script sees: records with fixed keys, integers of a width,
  dictionaries with arbitrary keys.
\<close>

datatype cty = TStr | TInt nat | TList cty | TRecord "(string \<times> cty) list" | TMap cty

function (sequential) has_type :: "cty \<Rightarrow> cval \<Rightarrow> bool" where
  "has_type TStr (CStr s) = True"
| "has_type (TInt w) (CInt n) = (n < 2 ^ w)"
| "has_type (TList t) (CList xs) = list_all (has_type t) xs"
| "has_type (TRecord fs) (CDict d) =
     (map fst d = map fst fs \<and> list_all (\<lambda>(f, e). has_type (snd f) (snd e)) (zip fs d))"
| "has_type (TMap t) (CDict d) = list_all (\<lambda>e. has_type t (snd e)) d"
| "has_type _ _ = False"
  by pat_completeness auto
termination
proof (relation "measure (\<lambda>(t, v). size t)", goal_cases)
  case (3 fs d z f e)
  then have "f \<in> set fs" by (auto dest: set_zip_leftD)
  then have "size (snd f) < Suc (size_list (size_prod (\<lambda>_. 0) size) fs)"
    by (induction fs) (auto simp: prod.size_gen split: prod.splits)
  then show ?case by simp
qed simp_all

definition server_type :: cty where
  "server_type = TRecord
     [(''bind_address'', TStr), (''port'', TInt 16), (''session_init_timer_ms'', TInt 64),
      (''enquire_link_timer_ms'', TInt 64), (''inactivity_timer_ms'', TInt 64),
      (''response_timer_ms'', TInt 64), (''max_msg_per_sec'', TInt 32), (''throttle_action'', TStr)]"

definition bind_type :: cty where
  "bind_type = TRecord
     [(''name'', TStr), (''host'', TStr), (''port'', TInt 16), (''system_id'', TStr),
      (''system_type'', TStr), (''bind_type'', TStr), (''max_msg_per_sec'', TInt 32)]"

definition rule_type :: cty where
  "rule_type = TRecord [(''prefix'', TStr), (''name'', TStr), (''chain'', TList TStr), (''options'', TMap TStr)]"

definition config_type :: cty where
  "config_type = TRecord
     [(''server'', server_type), (''binds'', TList bind_type),
      (''routing'', TRecord [(''default_chain'', TList TStr), (''rules'', TList rule_type)])]"

lemma has_type_rule: "has_type rule_type (rule_dict to_yaml r)"
  by (auto simp: rule_type_def rule_dict_def list_all_iff)

lemma has_type_bind: "has_type bind_type (bind_dict b)"
  using unsigned_less[of "bc_port b", where 'a = nat] unsigned_less[of "bc_max_msg_per_sec b", where 'a = nat]
  by (simp add: bind_type_def bind_dict_def)

lemma config_is_well_typed: "has_type config_type (build_config_dict to_yaml cfg)"
proof -
  obtain host port where l: "listen cfg = (host, port)" by fastforce
  note bound = unsigned_less[where 'a = nat]
  from bound[of port] bound[of "sv_session_init_timer_ms (cf_server cfg)"]
    bound[of "sv_enquire_link_timer_ms (cf_server cfg)"] bound[of "sv_inactivity_timer_ms (cf_server cfg)"]
    bound[of "sv_response_timer_ms (cf_server cfg)"] bound[of "sv_max_msg_per_sec (cf_server cfg)"]
  show ?thesis
    by (simp add: config_type_def server_type_def build_config_dict_def l Let_def list_all_iff
        has_type_rule has_type_bind)
qed

section \<open>Properties\<close>

text \<open>
  C19. A script's decorated functions serve their events: a PDU is answered by the first
  function decorated with \<open>@smpp.on_pdu\<close> of its command and by no other (its reply, or a
  plain success for any other value; no function, no answer), and a session event runs all
  functions decorated for it, top to bottom, each one finished before the next. A
  registration that did not go through the decorators is skipped.
\<close>

theorem decorated_functions_serve_their_events:
  assumes "registry_ok env (load_script script)" and "\<And>k. exec_shed env k = None"
  shows "dispatch_on_pdu env command p s =
      (case pdu_functions command script of
         [] \<Rightarrow> None
       | fn # _ \<Rightarrow> Some
           (case fn_value env fn (PduArgs p s) of
              Inl e \<Rightarrow> Inl e
            | Inr (PyObject c t (PduReplyObj r)) \<Rightarrow> Inr r
            | Inr v \<Rightarrow> Inr default_ok))
    \<and> dispatch_session env event s =
      concat (map (\<lambda>(i, fn). handler_trace env s (i, handler_of fn (Some event)))
        (enumerate 0 (session_functions event script)))"
proof
  show "dispatch_on_pdu env command p s =
      (case pdu_functions command script of
         [] \<Rightarrow> None
       | fn # _ \<Rightarrow> Some
           (case fn_value env fn (PduArgs p s) of
              Inl e \<Rightarrow> Inl e
            | Inr (PyObject c t (PduReplyObj r)) \<Rightarrow> Inr r
            | Inr v \<Rightarrow> Inr default_ok))"
    using assms by (intro dispatch_pdu_script)
  show "dispatch_session env event s =
      concat (map (\<lambda>(i, fn). handler_trace env s (i, handler_of fn (Some event)))
        (enumerate 0 (session_functions event script)))"
    by (simp add: dispatch_session_def session_jobs_all[OF assms(2)] handlers_script[OF assms(1)] served_functions
        enumerate_map comp_def case_prod_unfold)
qed

text \<open>A script for the witnesses, on a host that keeps its registrations in order.\<close>

definition script_fn_of :: "unit script_value \<Rightarrow> unit script_fn" where
  "script_fn_of v = \<lparr>fn_call = (\<lambda>_. Inr v), fn_is_coroutine = False\<rparr>"

definition sample_script :: "unit script_decl list" where
  "sample_script =
     [Direct ''smpp.on_pdu'' None False, OnSession ''bound'' (script_fn_of PyNone),
      OnPdu ''query_sm'' (script_fn_of PyNone),
      OnPdu ''submit_sm'' (script_fn_of (PyObject ''PduReply'' (Some True)
        (PduReplyObj (default_ok\<lparr>rp_message_id := Some ''7''\<rparr>)))),
      OnPdu ''submit_sm'' (script_fn_of PyNone), OnBind (script_fn_of (PyBool True))]"

definition host_env :: "unit script_decl list \<Rightarrow> unit script_env" where
  "host_env script = sample_env\<lparr>handlers_for := (\<lambda>kind.
     map (\<lambda>r. handler_entry (rg_options r)) (filter (\<lambda>r. rg_kind r = kind) (load_script script)))\<rparr>"

lemma host_env_ok: "registry_ok (host_env script) (load_script script)" "exec_shed (host_env script) k = None"
  by (simp_all add: registry_ok_def host_env_def sample_env_def)

lemma host_env_value: "fn_value (host_env script) (script_fn_of v) args = Inr v"
  by (simp add: fn_value_def handler_value_def invoke_def handler_of_def RegisteredHandler_new_def script_fn_of_def
      Started_settle_def)

theorem decorated_functions_serve_their_events_witness:
  "\<forall>p s. dispatch_on_pdu (host_env sample_script) ''submit_sm'' p s =
     Some (Inr (default_ok\<lparr>rp_message_id := Some ''7''\<rparr>))"
proof (intro allI)
  fix p s
  have "pdu_functions ''submit_sm'' sample_script =
      [script_fn_of (PyObject ''PduReply'' (Some True) (PduReplyObj (default_ok\<lparr>rp_message_id := Some ''7''\<rparr>))),
       script_fn_of PyNone]"
    by (simp add: pdu_functions_def sample_script_def map_filter_simps)
  with decorated_functions_serve_their_events[OF host_env_ok, of sample_script "''submit_sm''" p s]
  show "dispatch_on_pdu (host_env sample_script) ''submit_sm'' p s =
      Some (Inr (default_ok\<lparr>rp_message_id := Some ''7''\<rparr>))" by (simp add: host_env_value)
qed

text \<open>
  C21. A bind request on the wire is decided by the script: transmitter and receiver binds are
  refused; a transceiver bind is accepted, with its own system id and interface version 0x34,
  exactly when the executor ran the job and the first function decorated with \<open>@smpp.on_bind\<close>
  returned an accepting \<open>BindResult\<close> or another truthy value. A shed or panicked job, a script
  without such a function, an exception and \<open>None\<close> refuse it with \<open>ESME_RBINDFAIL\<close>; a rejecting
  \<open>BindResult\<close> with the status the script chose. Each request is counted once, under its
  outcome, and the peer reads a refusal as a success only if the script itself rejected with
  \<open>ESME_ROK\<close>.
\<close>

theorem bind_request_decided_by_script:
  assumes "registry_ok env (load_script script)"
    and "b = \<lparr>bd_system_id = sysid, bd_password = pw, bd_client_addr = client\<rparr>"
    and "allow \<longleftrightarrow> exec_shed env 0 = None \<and> (case bind_functions script of
        [] \<Rightarrow> False
      | fn # _ \<Rightarrow>
          (case fn_value env fn (BindArgs b) of
             Inl e \<Rightarrow> False
           | Inr (PyObject c t (BindResultObj r)) \<Rightarrow> br_accept r
           | Inr v \<Rightarrow> is_truthy v = Some True))"
    and "status = (if exec_shed env 0 \<noteq> None then ESME_RBINDFAIL
      else case map (\<lambda>fn. fn_value env fn (BindArgs b)) (bind_functions script) of
        Inr (PyObject c t (BindResultObj r)) # _ \<Rightarrow> br_status r
      | _ \<Rightarrow> ESME_RBINDFAIL)"
  shows "fst (on_bind_transceiver env sysid pw client st) =
      (if allow then accept (AcceptBind sysid (Some 0x34)) else reject status)
    \<and> fst (on_bind_transmitter st) = reject ESME_RINVSYSID \<and> fst (on_bind_receiver st) = reject ESME_RINVSYSID
    \<and> (\<forall>ok. is_success_ok ok \<longrightarrow>
         (ok (fst (on_bind_transceiver env sysid pw client st)) \<longleftrightarrow> allow \<or> status = ESME_ROK))
    \<and> (\<forall>x. bind_request_count x (st_metrics (snd (on_bind_transceiver env sysid pw client st))) =
         bind_request_count x (st_metrics st) + (if metrics_enabled (st_metrics st)
           \<and> x = (if allow then ACCEPTED else REJECTED) then 1 else 0))"
proof -
  have "bo_accept (dispatch_bind env b) = allow \<and> (\<not> allow \<longrightarrow> bo_status (dispatch_bind env b) = status)"
  proof (cases "exec_shed env 0")
    case None
    then have "dispatch_bind env b = script_verdict env script b"
      by (auto simp: dispatch_bind_def script_verdict_def on_executor_def first_matching_script[OF assms(1)]
          settle_invoke handler_value_of split: list.splits sum.splits)
    with None show ?thesis unfolding assms(3,4)
      by (auto simp: script_verdict_def bind_outcome_def BindOutcome_reject_def
          split: list.splits sum.splits pyval.splits py_object.splits)
  next
    case (Some failure)
    then show ?thesis unfolding assms(3,4)
      by (simp add: dispatch_bind_def on_executor_def BindOutcome_reject_def)
  qed
  then have out: "fst (on_bind_transceiver env sysid pw client st) =
      (if allow then accept (AcceptBind sysid (Some 0x34)) else reject status)"
    "snd (on_bind_transceiver env sysid pw client st) =
      count (record_bind_request (if allow then ACCEPTED else REJECTED)) st"
    by (simp_all add: on_bind_transceiver_def Let_def assms(2))
  then show ?thesis
    by (simp add: on_bind_transmitter_def on_bind_receiver_def is_success_ok_def)
qed

theorem bind_request_decided_by_script_witness:
  "fst (on_bind_transceiver (host_env sample_script) ''esme'' ''pw'' ''::1'' (busy_state Pace)) =
     accept (AcceptBind ''esme'' (Some 0x34))
   \<and> fst (on_bind_transceiver ((host_env sample_script)\<lparr>exec_shed := (\<lambda>_. Some Panic_other)\<rparr>) ''esme'' ''pw'' ''::1''
       (busy_state Pace)) = reject ESME_RBINDFAIL"
proof
  have "bind_functions sample_script = [script_fn_of (PyBool True)]"
    by (simp add: bind_functions_def sample_script_def map_filter_simps)
  with bind_request_decided_by_script[OF host_env_ok(1) refl refl refl, of sample_script "''esme''" "''pw''" "''::1''" "busy_state Pace"]
  show "fst (on_bind_transceiver (host_env sample_script) ''esme'' ''pw'' ''::1'' (busy_state Pace)) =
      accept (AcceptBind ''esme'' (Some 0x34))"
    by (simp add: host_env_value host_env_ok)
next
  have "registry_ok ((host_env sample_script)\<lparr>exec_shed := (\<lambda>_. Some Panic_other)\<rparr>) (load_script sample_script)"
    using host_env_ok(1)[of sample_script] by (simp add: registry_ok_def)
  from bind_request_decided_by_script[OF this refl refl refl, of "''esme''" "''pw''" "''::1''" "busy_state Pace"]
  show "fst (on_bind_transceiver ((host_env sample_script)\<lparr>exec_shed := (\<lambda>_. Some Panic_other)\<rparr>) ''esme'' ''pw'' ''::1''
      (busy_state Pace)) = reject ESME_RBINDFAIL" by simp
qed

text \<open>The values a script finds under the keys of a bind, a routing rule and the server section.\<close>

lemma bind_dict_values:
  "list_all2 (\<lambda>d b. c_index ''name'' d = Some (CStr (bc_name b)) \<and> c_index ''host'' d = Some (CStr (bc_host b))
     \<and> c_index ''port'' d = Some (CInt (unat (bc_port b)))
     \<and> c_index ''system_id'' d = Some (CStr (bc_system_id b))
     \<and> c_index ''system_type'' d = Some (CStr (bc_system_type b))
     \<and> c_index ''bind_type'' d = Some (CStr (bc_bind_type b))
     \<and> c_index ''max_msg_per_sec'' d = Some (CInt (unat (bc_max_msg_per_sec b)))) (map bind_dict bs) bs"
  by (simp add: list_all2_conv_all_nth bind_dict_def c_index_def)

lemma rule_dict_values:
  "list_all2 (\<lambda>d r. c_index ''prefix'' d = Some (CStr (rr_prefix r)) \<and> c_index ''name'' d = Some (CStr (rr_name r))
     \<and> c_index ''chain'' d = Some (CList (map CStr (rr_chain r)))
     \<and> (\<forall>k. Option.bind (c_index ''options'' d) (c_index k) =
          map_option (\<lambda>v. CStr (unwrap_or [] (to_yaml v))) (map_of (rr_options r) k))) (map (rule_dict to_yaml) rs) rs"
  by (simp add: list_all2_conv_all_nth rule_dict_def c_index_def map_of_map)

text \<open>
  C29. The module a script imports is complete and its configuration is the runtime's,
  whatever the configuration file said. Every name of the Python source is still its own; the
  nine classes, the nine send helpers, \<open>SmppSendError\<close> and \<open>_config\<close> are there and nothing else
  is. The configuration has the documented keys and no other at every level (no password
  among them), integers fit the width of their field, and under each key of the server
  section, of every bind and of every routing rule is the value of that field, in the order
  of the file; the read-outs give the listening address, the binds and the routing.
\<close>

theorem namespace_is_well_typed:
  "\<exists>m c s bs rs. namespace to_yaml (Inr smpp_py_module) cfg = Inr m
    \<and> list_all (\<lambda>n. map_of m n = Some FromSource) (map fst smpp_py_module)
    \<and> list_all (\<lambda>k. map_of m k = Some (Class k))
        [''Pdu'', ''PduReply'', ''Session'', ''Bind'', ''BindResult'', ''AlertNotification'', ''_Handler'',
         ''SmppResp'', ''QueryResp'']
    \<and> list_all (\<lambda>f. map_of m f = Some (Function f))
        [''submit_via'', ''submit_multi_via'', ''data_via'', ''cancel_via'', ''query_via'',
         ''replace_via'', ''deliver_to'', ''data_to'', ''alert_to'']
    \<and> map_of m ''SmppSendError'' = Some (Exception ''SmppSendError'')
    \<and> distinct (map fst m) \<and> length m = length smpp_py_module + 20
    \<and> map_of m ''_config'' = Some (Config c) \<and> has_type config_type c
    \<and> c_index ''server'' c = Some s
    \<and> c_index ''bind_address'' s = Some (CStr (fst (listen cfg)))
    \<and> c_index ''port'' s = Some (CInt (unat (snd (listen cfg))))
    \<and> c_index ''session_init_timer_ms'' s = Some (CInt (unat (sv_session_init_timer_ms (cf_server cfg))))
    \<and> c_index ''enquire_link_timer_ms'' s = Some (CInt (unat (sv_enquire_link_timer_ms (cf_server cfg))))
    \<and> c_index ''inactivity_timer_ms'' s = Some (CInt (unat (sv_inactivity_timer_ms (cf_server cfg))))
    \<and> c_index ''response_timer_ms'' s = Some (CInt (unat (sv_response_timer_ms (cf_server cfg))))
    \<and> c_index ''max_msg_per_sec'' s = Some (CInt (unat (sv_max_msg_per_sec (cf_server cfg))))
    \<and> c_index ''throttle_action'' s = Some (CStr (as_str (sv_throttle_action (cf_server cfg))))
    \<and> py_bind_address c = Some (fst (listen cfg) @ '':'' @ dec_digits (unat (snd (listen cfg))))
    \<and> py_binds c = Some bs
    \<and> list_all2 (\<lambda>d b. c_index ''name'' d = Some (CStr (bc_name b)) \<and> c_index ''host'' d = Some (CStr (bc_host b))
        \<and> c_index ''port'' d = Some (CInt (unat (bc_port b)))
        \<and> c_index ''system_id'' d = Some (CStr (bc_system_id b))
        \<and> c_index ''system_type'' d = Some (CStr (bc_system_type b))
        \<and> c_index ''bind_type'' d = Some (CStr (bc_bind_type b))
        \<and> c_index ''max_msg_per_sec'' d = Some (CInt (unat (bc_max_msg_per_sec b)))) bs (cf_binds cfg)
    \<and> py_routing_rules c = Some (CList (map CStr (rt_default_chain (cf_routing cfg))), CList rs)
    \<and> list_all2 (\<lambda>d r. c_index ''prefix'' d = Some (CStr (rr_prefix r)) \<and> c_index ''name'' d = Some (CStr (rr_name r))
        \<and> c_index ''chain'' d = Some (CList (map CStr (rr_chain r)))
        \<and> (\<forall>k. Option.bind (c_index ''options'' d) (c_index k) =
             map_option (\<lambda>v. CStr (unwrap_or [] (to_yaml v))) (map_of (rr_options r) k))) rs (rt_rules (cf_routing cfg))"
proof -
  obtain host port where l: "listen cfg = (host, port)" by fastforce
  let ?c = "build_config_dict to_yaml cfg"
  obtain s where "c_index ''server'' ?c = Some s"
    "c_index ''bind_address'' s = Some (CStr host)" "c_index ''port'' s = Some (CInt (unat port))"
    "c_index ''session_init_timer_ms'' s = Some (CInt (unat (sv_session_init_timer_ms (cf_server cfg))))"
    "c_index ''enquire_link_timer_ms'' s = Some (CInt (unat (sv_enquire_link_timer_ms (cf_server cfg))))"
    "c_index ''inactivity_timer_ms'' s = Some (CInt (unat (sv_inactivity_timer_ms (cf_server cfg))))"
    "c_index ''response_timer_ms'' s = Some (CInt (unat (sv_response_timer_ms (cf_server cfg))))"
    "c_index ''max_msg_per_sec'' s = Some (CInt (unat (sv_max_msg_per_sec (cf_server cfg))))"
    "c_index ''throttle_action'' s = Some (CStr (as_str (sv_throttle_action (cf_server cfg))))"
    by (simp add: build_config_dict_def l Let_def c_index_def)
  moreover have "py_bind_address ?c = Some (host @ '':'' @ dec_digits (unat port))"
    "py_binds ?c = Some (map bind_dict (cf_binds cfg))"
    "py_routing_rules ?c = Some (CList (map CStr (rt_default_chain (cf_routing cfg))),
       CList (map (rule_dict to_yaml) (rt_rules (cf_routing cfg))))"
    by (simp_all add: py_bind_address_def py_binds_def py_routing_rules_def build_config_dict_def l Let_def
        c_index_def c_get_def c_str_def c_list_def)
  ultimately show ?thesis
    using bind_dict_values[of "cf_binds cfg"] rule_dict_values[of to_yaml "rt_rules (cf_routing cfg)"]
    by (intro exI[of _ "the_module to_yaml cfg"] exI[of _ ?c] exI[of _ s] exI[of _ "map bind_dict (cf_binds cfg)"]
        exI[of _ "map (rule_dict to_yaml) (rt_rules (cf_routing cfg))"] conjI)
      (simp_all only: l fst_conv snd_conv config_is_well_typed namespace_module the_module_entries)
qed

end
