(* ===== verification/Smpp_Harness.thy ===== *)
theory Smpp_Harness
  imports Smpp_Server "HOL-Library.Multiset" "HOL-Library.Product_Lexorder"
begin

text \<open>
  The load harness (\<open>src/harness/src/main.rs\<close>): a mock SMSC that answers every \<open>submit_sm\<close>, and
  a driver that keeps a window of submits in flight and reports throughput, latency
  percentiles and failures. The driver's tasks run concurrently: a run is a sequence of turns
  of the main loop and of the tasks in any order. What the codec's send returns for the n-th
  submit (the latency in microseconds, or the text of its error) is the function \<open>out\<close>.
\<close>

section \<open>Arguments\<close>

record DriveArgs =
  da_host :: string
  da_port :: u16
  da_system_id :: string
  da_password :: string
  da_count :: nat
  da_window :: nat
  da_source_addr :: string
  da_destination_addr :: string
  da_body_len :: nat

definition DriveArgs_default :: DriveArgs where
  "DriveArgs_default =
     \<lparr>da_host = ''127.0.0.1'', da_port = 2775, da_system_id = ''load'', da_password = ''load'',
      da_count = 50000, da_window = 64, da_source_addr = ''15550100'',
      da_destination_addr = ''15550199'', da_body_len = 32\<rparr>"

record ServeArgs =
  sa_host :: string
  sa_port :: u16

definition ServeArgs_default :: ServeArgs where
  "ServeArgs_default = \<lparr>sa_host = ''127.0.0.1'', sa_port = 2775\<rparr>"

section \<open>Mock SMSC\<close>

record MockSmsc =
  ms_next_id :: u64

definition mock_on_bind_transceiver :: "resp" where
  "mock_on_bind_transceiver = accept (AcceptBind ''MOCK-SMSC'' (Some 0x34))"

text \<open>\<open>fetch_add\<close> returns the old value and wraps around.\<close>

definition mock_on_submit_sm :: "MockSmsc \<Rightarrow> resp \<times> MockSmsc" where
  "mock_on_submit_sm m =
     (let id = ms_next_id m
      in (accept (AcceptId (hex_lower 0 (unat id))), m\<lparr>ms_next_id := id + 1\<rparr>))"

fun mock_submits :: "nat \<Rightarrow> MockSmsc \<Rightarrow> resp list \<times> MockSmsc" where
  "mock_submits 0 m = ([], m)"
| "mock_submits (Suc n) m =
     (let (r, m) = mock_on_submit_sm m; (rs, m) = mock_submits n m in (r # rs, m))"

text \<open>\<open>serve\<close> panics on a host that does not parse as an address.\<close>

definition serve_mock :: "(string \<Rightarrow> 'ip option) \<Rightarrow> ServeArgs \<Rightarrow> ('ip \<times> u16 \<times> MockSmsc) option" where
  "serve_mock parse_ip a =
     (case parse_ip (sa_host a) of None \<Rightarrow> None | Some addr \<Rightarrow> Some (addr, sa_port a, \<lparr>ms_next_id = 1\<rparr>))"

section \<open>The driver\<close>

text \<open>\<open>Binder\<close>: the one-shot channel is used up by the first session that comes up.\<close>

record 'smsc Binder =
  bi_tx :: bool
  bi_rx :: "'smsc option"

definition Binder_on_smsc_bound :: "'smsc \<Rightarrow> 'smsc Binder \<Rightarrow> 'smsc Binder" where
  "Binder_on_smsc_bound smsc b = (if bi_tx b then b\<lparr>bi_tx := False, bi_rx := Some smsc\<rparr> else b)"

text \<open>The client the driver starts: host, port, TLS, credentials, window.\<close>

record drive_client =
  dc_host :: string
  dc_port :: u16
  dc_tls :: bool
  dc_system_id :: string
  dc_password :: string
  dc_window :: nat

definition drive_client_of :: "DriveArgs \<Rightarrow> drive_client" where
  "drive_client_of a =
     \<lparr>dc_host = da_host a, dc_port = da_port a, dc_tls = False, dc_system_id = da_system_id a,
      dc_password = da_password a, dc_window = max (da_window a) 8\<rparr>"

text \<open>The submits sent one after the other before the measurement; their results are dropped.\<close>

definition warm_up_count :: "DriveArgs \<Rightarrow> nat" where
  "warm_up_count a = min (da_window a) (da_count a)"

definition drive_body :: "DriveArgs \<Rightarrow> bytes" where
  "drive_body a = replicate (da_body_len a) 0x78"

text \<open>A task: awaiting the response, error counted, outcome recorded, permit dropped.\<close>

datatype task = Sending | Counted string | Recorded | Done

record drive_state =
  ds_permits :: nat
  ds_tasks :: "task list"
  ds_latencies :: "u64 list"
  ds_errors :: u64
  ds_failures :: "(string \<times> u64) list"

definition drive_init :: "DriveArgs \<Rightarrow> drive_state" where
  "drive_init a = \<lparr>ds_permits = da_window a, ds_tasks = [], ds_latencies = [], ds_errors = 0, ds_failures = []\<rparr>"

text \<open>The main loop acquires a permit, which may not be there yet, and spawns the next task.\<close>

definition main_turn :: "DriveArgs \<Rightarrow> drive_state \<Rightarrow> drive_state option" where
  "main_turn a s =
     (if length (ds_tasks s) < da_count a \<and> 0 < ds_permits s
      then Some (s\<lparr>ds_permits := ds_permits s - 1, ds_tasks := ds_tasks s @ [Sending]\<rparr>) else None)"

text \<open>\<open>*fails.entry(reason).or_insert(0) += 1\<close>\<close>

definition bump :: "string \<Rightarrow> (string \<times> u64) list \<Rightarrow> (string \<times> u64) list" where
  "bump e fs = AList.update e (unwrap_or 0 (map_of fs e) + 1) fs"

definition set_task :: "nat \<Rightarrow> task \<Rightarrow> drive_state \<Rightarrow> drive_state" where
  "set_task i t s = s\<lparr>ds_tasks := (ds_tasks s)[i := t]\<rparr>"

definition task_turn :: "(nat \<Rightarrow> (string, u64) result) \<Rightarrow> nat \<Rightarrow> drive_state \<Rightarrow> drive_state option" where
  "task_turn out i s =
     (if i < length (ds_tasks s) then
        (case ds_tasks s ! i of
           Sending \<Rightarrow>
             (case out i of
                Inr latency \<Rightarrow> Some (set_task i Recorded (s\<lparr>ds_latencies := ds_latencies s @ [latency]\<rparr>))
              | Inl e \<Rightarrow> Some (set_task i (Counted e) (s\<lparr>ds_errors := ds_errors s + 1\<rparr>)))
         | Counted e \<Rightarrow> Some (set_task i Recorded (s\<lparr>ds_failures := bump e (ds_failures s)\<rparr>))
         | Recorded \<Rightarrow> Some (set_task i Done (s\<lparr>ds_permits := ds_permits s + 1\<rparr>))
         | Done \<Rightarrow> None)
      else None)"

inductive drive_step :: "DriveArgs \<Rightarrow> (nat \<Rightarrow> (string, u64) result) \<Rightarrow> drive_state \<Rightarrow> drive_state \<Rightarrow> bool"
  for a out where
  main: "main_turn a s = Some s' \<Longrightarrow> drive_step a out s s'"
| task: "task_turn out i s = Some s' \<Longrightarrow> drive_step a out s s'"

text \<open>All tasks were spawned and joined.\<close>

definition drive_finished :: "DriveArgs \<Rightarrow> drive_state \<Rightarrow> bool" where
  "drive_finished a s \<longleftrightarrow> length (ds_tasks s) = da_count a \<and> list_all (\<lambda>t. t = Done) (ds_tasks s)"

section \<open>The report\<close>

text \<open>\<open>f64::round\<close>: to the nearest integer, halves away from zero.\<close>

definition f64_round :: "rat \<Rightarrow> int" where
  "f64_round x = (if 0 \<le> x then \<lfloor>x + 1 / 2\<rfloor> else - \<lfloor>1 / 2 - x\<rfloor>)"

definition pct_index :: "rat \<Rightarrow> nat \<Rightarrow> nat" where
  "pct_index p n = nat (f64_round (fl (fl (p / 100) * fl (fl (of_nat n) - 1))))"

definition pct :: "u64 list \<Rightarrow> rat \<Rightarrow> u64" where
  "pct lats p =
     (if lats = [] then 0 else lats ! (min (pct_index p (length lats)) (length lats - 1)))"

text \<open>By count, the largest first, then by reason.\<close>

definition breakdown :: "(string \<times> u64) list \<Rightarrow> (string \<times> u64) list" where
  "breakdown fs = sort_key (\<lambda>(reason, count). (- int (unat count), reason)) fs"

record drive_report =
  dr_total :: u64
  dr_ok :: u64
  dr_errors :: u64
  dr_secs :: rat
  dr_cps :: rat
  dr_latency :: "u64 list"
  dr_failures :: "(string \<times> u64) list"
  dr_exit :: int

text \<open>\<open>elapsed\<close> in nanoseconds; p50, p90, p99, p999 and the maximum.\<close>

definition report :: "u64 list \<Rightarrow> u64 \<Rightarrow> (string \<times> u64) list \<Rightarrow> nat \<Rightarrow> drive_report" where
  "report latencies errors failures elapsed =
     (let ok = of_nat (length latencies); secs = max (as_secs_f64 elapsed) (fl (1 / 1000000000));
          lats = sort latencies
      in \<lparr>dr_total = ok + errors, dr_ok = ok, dr_errors = errors, dr_secs = secs,
          dr_cps = fl (fl (of_nat (unat ok)) / secs),
          dr_latency = (if lats = [] then []
            else [pct lats 50, pct lats 90, pct lats 99, pct lats (fl (999 / 10)), last lats]),
          dr_failures = (if 0 < errors then breakdown failures else []),
          dr_exit = (if 0 < errors then 1 else 0)\<rparr>)"

text \<open>The wait for the session on the binder's channel: none within ten seconds ends the process
  with status 1.\<close>

definition drive_wait :: "(nat \<times> 'smsc) option \<Rightarrow> (int, 'smsc) result" where
  "drive_wait bound =
     (case bound of
        Some (t, smsc) \<Rightarrow> if t \<le> 10000000000 then Inr smsc else Inl 1
      | None \<Rightarrow> Inl 1)"

text \<open>The end of \<open>drive\<close>: with a session, the run is reported.\<close>

definition drive_outcome :: "(nat \<times> 'smsc) option \<Rightarrow> drive_state \<Rightarrow> nat \<Rightarrow> (int, drive_report) result" where
  "drive_outcome bound s elapsed =
     rbind (drive_wait bound) (\<lambda>_. Inr (report (ds_latencies s) (ds_errors s) (ds_failures s) elapsed))"

section \<open>Tallies\<close>

text \<open>How many tasks, by index and phase, satisfy a predicate.\<close>

definition tally :: "(nat \<Rightarrow> task \<Rightarrow> bool) \<Rightarrow> task list \<Rightarrow> nat" where
  "tally P ts = (\<Sum>i < length ts. if P i (ts ! i) then 1 else 0)"

lemma tally_Nil [simp]: "tally P [] = 0"
  by (simp add: tally_def)

lemma tally_spawn [simp]: "tally P (ts @ [t]) = tally P ts + (if P (length ts) t then 1 else 0)"
proof -
  have "(\<Sum>i < length ts. if P i ((ts @ [t]) ! i) then 1 else 0) = tally P ts"
    unfolding tally_def by (rule sum.cong) (simp_all add: nth_append)
  then show ?thesis by (simp add: tally_def)
qed

lemma tally_update:
  assumes "i < length ts"
  shows "tally P (ts[i := t]) + (if P i (ts ! i) then 1 else 0) = tally P ts + (if P i t then 1 else 0)"
proof -
  have "tally P us = (if P i (us ! i) then 1 else 0) + (\<Sum>j \<in> {..<length ts} - {i}. if P j (us ! j) then 1 else 0)"
    if "length us = length ts" for us
    using assms sum.remove[of "{..<length ts}" i "\<lambda>j. if P j (us ! j) then 1 else 0"]
    unfolding tally_def that by simp
  moreover have "(\<Sum>j \<in> {..<length ts} - {i}. if P j (ts[i := t] ! j) then 1 else 0) =
      (\<Sum>j \<in> {..<length ts} - {i}. if P j (ts ! j) then 1 else (0 :: nat))"
    by (rule sum.cong) simp_all
  ultimately show ?thesis using assms by simp
qed

lemma tally_cong: "(\<And>i. i < length ts \<Longrightarrow> P i (ts ! i) = Q i (ts ! i)) \<Longrightarrow> tally P ts = tally Q ts"
  unfolding tally_def by (intro sum.cong) auto

lemma tally_le: "tally P ts \<le> length ts"
proof -
  have "tally P ts \<le> (\<Sum>i < length ts. 1)" unfolding tally_def by (rule sum_mono) simp
  then show ?thesis by simp
qed

lemma tally_add: "(\<And>i t. \<not> (P i t \<and> Q i t)) \<Longrightarrow> tally P ts + tally Q ts = tally (\<lambda>i t. P i t \<or> Q i t) ts"
  unfolding tally_def sum.distrib[symmetric] by (intro sum.cong) auto

section \<open>The invariant of a run\<close>

text \<open>Which outcomes a task has recorded already, by its phase.\<close>

definition latency_in :: "(nat \<Rightarrow> (string, u64) result) \<Rightarrow> u64 \<Rightarrow> nat \<Rightarrow> task \<Rightarrow> bool" where
  "latency_in out l i t \<longleftrightarrow> t \<noteq> Sending \<and> out i = Inr l"

definition error_in :: "(nat \<Rightarrow> (string, u64) result) \<Rightarrow> nat \<Rightarrow> task \<Rightarrow> bool" where
  "error_in out i t \<longleftrightarrow> t \<noteq> Sending \<and> isl (out i)"

definition reason_in :: "(nat \<Rightarrow> (string, u64) result) \<Rightarrow> string \<Rightarrow> nat \<Rightarrow> task \<Rightarrow> bool" where
  "reason_in out e i t \<longleftrightarrow> (t = Recorded \<or> t = Done) \<and> out i = Inl e"

lemmas recorded_defs = latency_in_def error_in_def reason_in_def

definition failure_count :: "(string \<times> u64) list \<Rightarrow> string \<Rightarrow> u64" where
  "failure_count fs e = unwrap_or 0 (map_of fs e)"

definition reasons :: "(string \<times> u64) list \<Rightarrow> string set" where
  "reasons fs = fst ` set fs"

text \<open>
  Permits and unfinished tasks add up to the window, and each collection holds exactly the
  outcomes of the tasks that have come that far.
\<close>

definition drive_inv :: "DriveArgs \<Rightarrow> (nat \<Rightarrow> (string, u64) result) \<Rightarrow> drive_state \<Rightarrow> bool" where
  "drive_inv a out s \<longleftrightarrow>
     ds_permits s + tally (\<lambda>_ t. t \<noteq> Done) (ds_tasks s) = da_window a
   \<and> length (ds_tasks s) \<le> da_count a
   \<and> (\<forall>i e. i < length (ds_tasks s) \<and> ds_tasks s ! i = Counted e \<longrightarrow> out i = Inl e)
   \<and> (\<forall>l. count (mset (ds_latencies s)) l = tally (latency_in out l) (ds_tasks s))
   \<and> ds_errors s = of_nat (tally (error_in out) (ds_tasks s))
   \<and> (\<forall>e. failure_count (ds_failures s) e = of_nat (tally (reason_in out e) (ds_tasks s)))
   \<and> distinct (map fst (ds_failures s))
   \<and> reasons (ds_failures s) = {e. tally (reason_in out e) (ds_tasks s) \<noteq> 0}"

lemma tally_to:
  "i < length ts \<Longrightarrow> tally P (ts[i := t]) = tally P ts + (if P i t then 1 else 0) - (if P i (ts ! i) then 1 else 0)"
  using tally_update[of i ts P t] by (simp split: if_splits)

lemma bump_count: "failure_count (bump e fs) e' = failure_count fs e' + (if e' = e then 1 else 0)"
  by (auto simp: failure_count_def bump_def update_conv')

lemma bump_keys: "reasons (bump e fs) = insert e (reasons fs)"
  by (simp add: reasons_def bump_def dom_update)

lemma bump_distinct: "distinct (map fst fs) \<Longrightarrow> distinct (map fst (bump e fs))"
  by (simp add: bump_def distinct_update)

lemma set_task_simps [simp]:
  "ds_tasks (set_task i t s) = (ds_tasks s)[i := t]"
  "ds_permits (set_task i t s) = ds_permits s" "ds_latencies (set_task i t s) = ds_latencies s"
  "ds_errors (set_task i t s) = ds_errors s" "ds_failures (set_task i t s) = ds_failures s"
  by (simp_all add: set_task_def)

lemma drive_inv_init [simp]: "drive_inv a out (drive_init a)"
  by (simp add: drive_inv_def drive_init_def failure_count_def reasons_def)

lemma drive_inv_main: "drive_inv a out s \<Longrightarrow> main_turn a s = Some s' \<Longrightarrow> drive_inv a out s'"
  by (auto simp: drive_inv_def main_turn_def recorded_defs nth_append less_Suc_eq split: if_splits)

text \<open>The four turns of a task.\<close>

lemma task_turn_cases:
  assumes "task_turn out i s = Some s'"
  obtains (answered) l where "i < length (ds_tasks s)" "ds_tasks s ! i = Sending" "out i = Inr l"
      "s' = set_task i Recorded (s\<lparr>ds_latencies := ds_latencies s @ [l]\<rparr>)"
  | (failed) e where "i < length (ds_tasks s)" "ds_tasks s ! i = Sending" "out i = Inl e"
      "s' = set_task i (Counted e) (s\<lparr>ds_errors := ds_errors s + 1\<rparr>)"
  | (explained) e where "i < length (ds_tasks s)" "ds_tasks s ! i = Counted e"
      "s' = set_task i Recorded (s\<lparr>ds_failures := bump e (ds_failures s)\<rparr>)"
  | (released) "i < length (ds_tasks s)" "ds_tasks s ! i = Recorded"
      "s' = set_task i Done (s\<lparr>ds_permits := ds_permits s + 1\<rparr>)"
  using assms by (auto simp: task_turn_def split: if_splits task.splits sum.splits)

lemma drive_inv_task:
  assumes "drive_inv a out s" and "task_turn out i s = Some s'"
  shows "drive_inv a out s'"
  using assms(2)
proof (cases rule: task_turn_cases)
  case (answered l)
  then show ?thesis using assms(1)
    by (auto simp: drive_inv_def tally_to recorded_defs nth_list_update)
next
  case (failed e)
  then show ?thesis using assms(1)
    by (auto simp: drive_inv_def tally_to recorded_defs nth_list_update)
next
  case (explained e)
  then have "out i = Inl e" using assms(1) by (auto simp: drive_inv_def)
  with explained show ?thesis using assms(1)
    by (auto simp: drive_inv_def tally_to recorded_defs nth_list_update bump_count bump_keys bump_distinct)
next
  case released
  then have "0 < tally (\<lambda>_ t. t \<noteq> Done) (ds_tasks s)"
    using tally_update[of i "ds_tasks s" "\<lambda>_ t. t \<noteq> Done" Done] by simp
  with released show ?thesis using assms(1)
    by (auto simp: drive_inv_def tally_to recorded_defs nth_list_update)
qed

interpretation drive: machine "\<lambda>s. s = drive_init a" "drive_step a out" "drive_inv a out" for a out
  by unfold_locales (auto elim!: drive_step.cases intro: drive_inv_main drive_inv_task)

section \<open>What a finished run has collected\<close>

text \<open>The reference: the report of the outcomes themselves, in the order of the submits.\<close>

definition latencies_of :: "(string, u64) result list \<Rightarrow> u64 list" where
  "latencies_of rs = concat (map (\<lambda>r. case r of Inr l \<Rightarrow> [l] | Inl _ \<Rightarrow> []) rs)"

definition errors_of :: "(string, u64) result list \<Rightarrow> string list" where
  "errors_of rs = concat (map (\<lambda>r. case r of Inr _ \<Rightarrow> [] | Inl e \<Rightarrow> [e]) rs)"

definition failures_of :: "(string, u64) result list \<Rightarrow> (string \<times> u64) list" where
  "failures_of rs = map (\<lambda>e. (e, of_nat (count_list (errors_of rs) e))) (remdups (errors_of rs))"

definition reference_report :: "(string, u64) result list \<Rightarrow> nat \<Rightarrow> drive_report" where
  "reference_report rs = report (latencies_of rs) (of_nat (length (errors_of rs))) (failures_of rs)"

lemma tally_done:
  assumes "list_all (\<lambda>t. t = Done) ts" and "length ts = n"
  shows "tally (latency_in out l) ts = count (mset (latencies_of (map out [0..<n]))) l"
    and "tally (error_in out) ts = length (errors_of (map out [0..<n]))"
    and "tally (reason_in out e) ts = count_list (errors_of (map out [0..<n])) e"
  using assms
proof (induction ts arbitrary: n rule: rev_induct)
  case Nil
  { case 1 then show ?case by (simp add: latencies_of_def) }
  { case 2 then show ?case by (simp add: errors_of_def) }
  { case 3 then show ?case by (simp add: errors_of_def) }
next
  case (snoc t ts)
  { case 1 then show ?case using snoc(1)[OF _ refl]
      by (auto simp: latency_in_def latencies_of_def split: sum.splits) }
  { case 2 then show ?case using snoc(2)[OF _ refl]
      by (auto simp: error_in_def errors_of_def split: sum.splits) }
  { case 3 then show ?case using snoc(3)[OF _ refl]
      by (auto simp: reason_in_def errors_of_def split: sum.splits) }
qed

lemma length_outcomes: "length (latencies_of rs) + length (errors_of rs) = length rs"
  by (induction rs) (auto simp: latencies_of_def errors_of_def split: sum.splits)

lemma errors_of_Nil_iff: "errors_of rs = [] \<longleftrightarrow> (\<forall>r \<in> set rs. \<not> isl r)"
  by (induction rs) (auto simp: errors_of_def split: sum.splits)

lemma sort_mset_cong: "mset xs = mset ys \<Longrightarrow> sort xs = sort ys"
  by (metis mset_sort properties_for_sort sorted_sort)

text \<open>The breakdown does not depend on the order the hash map lists its entries in.\<close>

lemma breakdown_cong: "mset xs = mset ys \<Longrightarrow> breakdown xs = breakdown ys"
  unfolding breakdown_def by (rule sort_key_eq_sort_key) (auto simp: inj_on_def intro: word_uint_eqI)

lemma failures_set:
  assumes "distinct (map fst fs)"
  shows "set fs = (\<lambda>e. (e, failure_count fs e)) ` reasons fs"
  using assms by (force simp: reasons_def failure_count_def image_iff)

lemma report_cong:
  assumes "mset ls = mset ls'" and "mset fs = mset fs'"
  shows "report ls errors fs elapsed = report ls' errors fs' elapsed"
  using mset_eq_length[OF assms(1)] sort_mset_cong[OF assms(1)] breakdown_cong[OF assms(2)]
  by (simp add: report_def)

lemma finished_report:
  assumes "drive_inv a out s" and "drive_finished a s"
  shows "report (ds_latencies s) (ds_errors s) (ds_failures s) elapsed =
    reference_report (map out [0..<da_count a]) elapsed"
proof -
  define rs where "rs = map out [0..<da_count a]"
  have "list_all (\<lambda>t. t = Done) (ds_tasks s)" "length (ds_tasks s) = da_count a"
    using assms(2) by (simp_all add: drive_finished_def)
  note tallies = tally_done[OF this, of out, folded rs_def]
  have lat: "mset (ds_latencies s) = mset (latencies_of rs)"
    using assms(1) tallies(1) by (intro multiset_eqI) (simp add: drive_inv_def)
  have err: "ds_errors s = of_nat (length (errors_of rs))"
    using assms(1) tallies(2) by (simp add: drive_inv_def)
  have dist: "distinct (map fst (ds_failures s))" and reasons: "reasons (ds_failures s) = set (errors_of rs)"
    and cnt: "failure_count (ds_failures s) e = of_nat (count_list (errors_of rs) e)" for e
    using assms(1) tallies(3) by (auto simp: drive_inv_def count_list_0_iff)
  have "set (ds_failures s) = set (failures_of rs)"
    unfolding failures_set[OF dist] reasons by (simp add: failures_of_def cnt)
  then have "mset (ds_failures s) = mset (failures_of rs)"
    using dist by (subst set_eq_iff_mset_eq_distinct[symmetric]) (auto simp: distinct_map failures_of_def inj_on_def)
  then show ?thesis using report_cong[OF lat] by (simp add: reference_report_def err flip: rs_def)
qed

section \<open>Every run ends\<close>

primrec turns_left :: "task \<Rightarrow> nat" where
  "turns_left Sending = 3"
| "turns_left (Counted e) = 2"
| "turns_left Recorded = 1"
| "turns_left Done = 0"

definition drive_measure :: "DriveArgs \<Rightarrow> drive_state \<Rightarrow> nat" where
  "drive_measure a s = 4 * (da_count a - length (ds_tasks s)) + sum_list (map turns_left (ds_tasks s))"

lemma sum_list_turns:
  "i < length ts \<Longrightarrow> sum_list (map turns_left (ts[i := t])) + turns_left (ts ! i) = sum_list (map turns_left ts) + turns_left t"
  using sum_list_update[of i "map turns_left ts" "turns_left t"] elem_le_sum_list[of i "map turns_left ts"]
  by (simp add: map_update)

lemma drive_measure_step:
  assumes "drive_step a out s s'"
  shows "drive_measure a s' < drive_measure a s"
  using assms
proof cases
  case main
  then show ?thesis by (auto simp: main_turn_def drive_measure_def split: if_splits)
next
  case (task i)
  from this show ?thesis
  proof (cases rule: task_turn_cases)
    case (answered l)
    then show ?thesis using sum_list_turns[of i "ds_tasks s" Recorded] by (simp add: drive_measure_def)
  next
    case (failed e)
    then show ?thesis using sum_list_turns[of i "ds_tasks s" "Counted e"] by (simp add: drive_measure_def)
  next
    case (explained e)
    then show ?thesis using sum_list_turns[of i "ds_tasks s" Recorded] by (simp add: drive_measure_def)
  next
    case released
    then show ?thesis using sum_list_turns[of i "ds_tasks s" Done] by (simp add: drive_measure_def)
  qed
qed

lemma drive_progress:
  assumes "drive_inv a out s" and "0 < da_window a" and "\<not> drive_finished a s"
  shows "\<exists>s'. drive_step a out s s'"
proof (cases "list_all (\<lambda>t. t = Done) (ds_tasks s)")
  case True
  then have "tally (\<lambda>_ t. t \<noteq> Done) (ds_tasks s) = 0" by (auto simp: tally_def list_all_length)
  then have "main_turn a s \<noteq> None"
    using assms True by (auto simp: main_turn_def drive_inv_def drive_finished_def)
  then show ?thesis by (auto intro: drive_step.main)
next
  case False
  then obtain i where "i < length (ds_tasks s)" "ds_tasks s ! i \<noteq> Done" by (auto simp: list_all_length)
  then have "task_turn out i s \<noteq> None" by (auto simp: task_turn_def split: task.splits sum.splits)
  then show ?thesis by (auto intro: drive_step.task)
qed

text \<open>With a window of at least one, the driver is a machine whose runs end.\<close>

interpretation windowed: ending_machine
  "\<lambda>s. s = drive_init a \<and> 0 < da_window a" "drive_step a out" "\<lambda>s. drive_inv a out s \<and> 0 < da_window a"
  "drive_measure a" "drive_finished a" for a out
  using drive.inv_step by unfold_locales (auto intro: drive_measure_step drive_progress)

section \<open>Percentiles\<close>

lemma f64_round_mono: "0 \<le> x \<Longrightarrow> x \<le> y \<Longrightarrow> f64_round x \<le> f64_round y"
  by (simp add: f64_round_def floor_mono)

lemma fl_of_nat_minus_1: "0 < n \<Longrightarrow> 0 \<le> fl (fl (of_nat n) - 1)"
proof -
  assume "0 < n"
  then have "fl 1 \<le> fl (of_nat n)" by (intro fl_mono) simp_all
  then show ?thesis by simp
qed

lemma pct_index_mono:
  assumes "0 \<le> p" "p \<le> q" "0 < n"
  shows "pct_index p n \<le> pct_index q n"
proof -
  define m where "m = fl (fl (of_nat n) - 1)"
  have m: "0 \<le> m" using fl_of_nat_minus_1[OF assms(3)] by (simp add: m_def)
  have "fl (p / 100) \<le> fl (q / 100)" using assms by (intro fl_mono) simp_all
  then have "fl (fl (p / 100) * m) \<le> fl (fl (q / 100) * m)"
    using assms m by (intro fl_mono mult_right_mono mult_nonneg_nonneg fl_nonneg) simp_all
  then show ?thesis
    using assms m by (auto simp: pct_index_def m_def[symmetric] intro!: nat_mono f64_round_mono)
qed

lemma pct_index_lt: "lats \<noteq> [] \<Longrightarrow> min k (length lats - 1) < length lats"
  by (cases lats) auto

lemma pct_mono:
  assumes "sorted lats" "0 \<le> p" "p \<le> q"
  shows "pct lats p \<le> pct lats q"
proof (cases "lats = []")
  case False
  then have "pct_index p (length lats) \<le> pct_index q (length lats)" using assms by (intro pct_index_mono) simp_all
  then show ?thesis using assms(1) False by (auto simp: pct_def pct_index_lt[simplified] intro!: sorted_nth_mono)
qed (simp add: pct_def)

lemma pct_last: "sorted lats \<Longrightarrow> lats \<noteq> [] \<Longrightarrow> pct lats p \<le> last lats"
  by (auto simp: pct_def last_conv_nth intro!: sorted_nth_mono)

lemma pct_in: "lats \<noteq> [] \<Longrightarrow> pct lats p \<in> set lats"
  using pct_index_lt[of lats] by (simp add: pct_def)

text \<open>Up to the rounding, the rank is the \<open>p / 100\<close>-th part of the largest one.\<close>

lemma f64_round_error: "0 \<le> x \<Longrightarrow> \<bar>of_int (f64_round x) - x\<bar> \<le> 1 / 2"
  using floor_correct[of "x + 1 / 2"] unfolding f64_round_def abs_le_iff by (simp only: if_True) linarith

lemma pct_index_error:
  assumes "0 \<le> p" "p \<le> 100" "0 < n" "n \<le> 2 ^ 50"
  shows "\<bar>of_nat (pct_index p n) - p / 100 * of_nat (n - 1)\<bar> \<le> 1"
proof -
  define m :: rat where "m = of_nat (n - 1)"
  have "rat_of_nat (n - 1) \<le> of_nat (2 ^ 50)" using assms(4) by (simp only: of_nat_le_iff)
  then have m: "0 \<le> m" "m \<le> 2 ^ 50" by (simp_all add: m_def)
  have "rat_of_nat n - 1 = m" using assms(3) by (simp add: m_def of_nat_diff)
  moreover have "fl (of_nat n) = of_nat n" "fl m = m"
    using assms(4) unfolding m_def by (auto intro!: fl_of_nat simp: le_diff_conv)
  ultimately have fm: "fl (fl (of_nat n) - 1) = m" by (simp only:)
  define a where "a = fl (p / 100)"
  have "0 \<le> p / 100" "p / 100 \<le> 1" using assms by simp_all
  then have a: "0 \<le> a" "a \<le> 1" "p / 100 - 1 / 2 ^ 52 \<le> a" "a \<le> p / 100 + 1 / 2 ^ 52"
    using fl_bounds[of "p / 100"] fl_mono[of "p / 100" 1] by (simp_all add: a_def)
  have "(p / 100 - 1 / 2 ^ 52) * m \<le> a * m" "a * m \<le> (p / 100 + 1 / 2 ^ 52) * m"
    using a m by (auto intro: mult_right_mono)
  then have am: "p / 100 * m - 1 / 4 \<le> a * m" "a * m \<le> p / 100 * m + 1 / 4"
    using m(2) by (simp_all add: left_diff_distrib distrib_right)
  have am0: "0 \<le> a * m" "a * m \<le> 2 ^ 50" using a m mult_mono[of a 1 m "2 ^ 50"] by simp_all
  have x: "a * m - 1 / 4 \<le> fl (a * m)" "fl (a * m) \<le> a * m + 1 / 4"
    using fl_bounds[OF am0(1)] am0(2) by simp_all
  have "0 \<le> f64_round (fl (a * m))" using am0 by (simp add: f64_round_def)
  moreover have "\<bar>of_int (f64_round (fl (a * m))) - fl (a * m)\<bar> \<le> 1 / 2"
    using am0 by (intro f64_round_error) simp
  ultimately show ?thesis
    using am x unfolding pct_index_def fm a_def[symmetric] m_def[symmetric] abs_le_iff by simp
qed

section \<open>Message ids of the mock\<close>

lemma mock_submits_ids:
  "fst (mock_submits n m) = map (\<lambda>i. accept (AcceptId (hex_lower 0 (unat (ms_next_id m + of_nat i))))) [0..<n]"
proof (induction n arbitrary: m)
  case (Suc n)
  have "map (\<lambda>i. f (ms_next_id m + 1 + of_nat i)) [0..<n] = map (\<lambda>i. f (ms_next_id m + of_nat i)) [1..<Suc n]"
    for f :: "u64 \<Rightarrow> resp"
    by (rule nth_equalityI) (simp_all add: algebra_simps del: upt_Suc)
  note shift = this[of "\<lambda>w. accept (AcceptId (hex_lower 0 (unat w)))"]
  show ?case
    using Suc.IH[of "m\<lparr>ms_next_id := ms_next_id m + 1\<rparr>"] shift
    by (cases "mock_submits n (m\<lparr>ms_next_id := ms_next_id m + 1\<rparr>)")
      (simp add: mock_on_submit_sm_def Let_def upt_conv_Cons del: upt_Suc)
qed simp

section \<open>Schedules\<close>

text \<open>A schedule says whose turn it is: the main loop's (\<open>None\<close>) or a task's.\<close>

fun drive_run :: "DriveArgs \<Rightarrow> (nat \<Rightarrow> (string, u64) result) \<Rightarrow> nat option list \<Rightarrow> drive_state \<Rightarrow> drive_state option" where
  "drive_run a out [] s = Some s"
| "drive_run a out (w # ws) s =
     Option.bind (case w of None \<Rightarrow> main_turn a s | Some i \<Rightarrow> task_turn out i s) (drive_run a out ws)"

lemma drive_run_steps: "drive_run a out ws s = Some s' \<Longrightarrow> (drive_step a out ^^ length ws) s s'"
proof (induction ws arbitrary: s)
  case (Cons w ws)
  then obtain s1 where "drive_step a out s s1" "drive_run a out ws s1 = Some s'"
    by (auto simp: bind_eq_Some_conv split: option.splits intro: drive_step.intros)
  with Cons.IH show ?case using relpowp_Suc_I2[of "drive_step a out" s s1 "length ws" s'] by simp
qed simp

text \<open>Three submits in a window of two, the second of which is refused.\<close>

definition sample_args :: DriveArgs where
  "sample_args = DriveArgs_default\<lparr>da_count := 3, da_window := 2\<rparr>"

definition sample_out :: "nat \<Rightarrow> (string, u64) result" where
  "sample_out i = (if i = 1 then Inl ''ESME_RSYSERR'' else Inr (of_nat (700 - i)))"

definition sample_schedule :: "nat option list" where
  "sample_schedule = [None, None, Some 1, Some 0, Some 0, None, Some 2, Some 1, Some 2, Some 1]"

definition sample_end :: drive_state where
  "sample_end = \<lparr>ds_permits = 2, ds_tasks = [Done, Done, Done], ds_latencies = [700, 698], ds_errors = 1,
     ds_failures = [(''ESME_RSYSERR'', 1)]\<rparr>"

lemma sample_drive_run: "drive_run sample_args sample_out sample_schedule (drive_init sample_args) = Some sample_end"
  by (simp add: sample_schedule_def sample_args_def sample_out_def sample_end_def DriveArgs_default_def drive_init_def
      main_turn_def task_turn_def set_task_def bump_def)

section \<open>Properties\<close>

text \<open>
  C22. The report does not depend on the schedule: whatever the order in which the main loop
  and the concurrent tasks take their turns, a finished run reports what the outcomes of its
  submits say, every submit counted once (a latency or a failure under its reason), and the
  process fails exactly when a submit did.
\<close>

theorem drive_report_independent_of_schedule:
  assumes "(drive_step a out)\<^sup>*\<^sup>* (drive_init a) s" and "drive_finished a s"
    and "t \<le> 10000000000"
  defines "rs \<equiv> map out [0..<da_count a]"
  shows "drive_outcome (Some (t, smsc)) s elapsed = Inr (reference_report rs elapsed)
    \<and> dr_total (reference_report rs elapsed) = of_nat (da_count a)
    \<and> (da_count a < 2 ^ 64 \<longrightarrow> (dr_exit (reference_report rs elapsed) = 1 \<longleftrightarrow> (\<exists>i < da_count a. isl (out i))))"
proof -
  have "length (latencies_of rs) + length (errors_of rs) = da_count a"
    using length_outcomes[of rs] by (simp add: rs_def)
  then have total: "dr_total (reference_report rs elapsed) = of_nat (da_count a)"
    by (simp add: reference_report_def report_def Let_def flip: of_nat_add)
  have le: "length (errors_of rs) \<le> da_count a" using length_outcomes[of rs] by (simp add: rs_def)
  have "errors_of rs \<noteq> [] \<longleftrightarrow> (\<exists>i < da_count a. isl (out i))"
    by (auto simp: errors_of_Nil_iff rs_def)
  moreover have "0 < (of_nat (length (errors_of rs)) :: u64) \<longleftrightarrow> errors_of rs \<noteq> []" if "da_count a < 2 ^ 64"
  proof -
    have "length (errors_of rs) < 2 ^ 64" using le that by simp
    then have "(of_nat (length (errors_of rs)) :: u64) = 0 \<longleftrightarrow> length (errors_of rs) = 0"
      by (auto simp: word_of_nat_eq_0_iff dest!: dvd_imp_le)
    then show ?thesis by (simp add: word_greater_zero_iff)
  qed
  ultimately have "da_count a < 2 ^ 64 \<longrightarrow> (dr_exit (reference_report rs elapsed) = 1 \<longleftrightarrow> (\<exists>i < da_count a. isl (out i)))"
    by (simp add: reference_report_def report_def Let_def)
  then show ?thesis
    using assms(3) total finished_report[OF drive.inv_reachable[OF refl assms(1)] assms(2)]
    by (simp add: drive_outcome_def drive_wait_def rs_def)
qed

theorem drive_report_independent_of_schedule_witness:
  "\<exists>r. drive_outcome (Some (5, ''smsc'')) sample_end 1000 = Inr r \<and> dr_total r = 3 \<and> dr_exit r = 1"
proof -
  have run: "(drive_step sample_args sample_out)\<^sup>*\<^sup>* (drive_init sample_args) sample_end"
    using drive_run_steps[OF sample_drive_run] by (rule relpowp_imp_rtranclp)
  have "drive_finished sample_args sample_end" "da_count sample_args = 3" "isl (sample_out 1)"
    by (simp_all add: drive_finished_def sample_end_def sample_args_def sample_out_def)
  then show ?thesis
    using drive_report_independent_of_schedule[OF run, of 5 "''smsc''" 1000] by (auto intro: exI[of _ 1])
qed

text \<open>
  C23. The driver keeps to its window and ends: at every moment at most \<open>window\<close> submits are in
  flight, no run takes more than four turns per submit, every run can be completed, and a
  run that can go no further has finished. Without a window (\<open>--window 0\<close>) the first permit
  never comes.
\<close>

theorem drive_run_ends:
  assumes "(drive_step a out ^^ n) (drive_init a) s"
  shows "tally (\<lambda>_ t. t \<noteq> Done) (ds_tasks s) \<le> da_window a \<and> n \<le> 4 * da_count a
    \<and> (0 < da_window a \<and> (\<nexists>s'. drive_step a out s s') \<longrightarrow> drive_finished a s)
    \<and> (0 < da_window a \<longrightarrow> (\<exists>s'. (drive_step a out)\<^sup>*\<^sup>* s s' \<and> drive_finished a s'))
    \<and> (da_window a = 0 \<and> 0 < da_count a \<longrightarrow> \<not> drive_finished a s)"
proof -
  have run: "(drive_step a out)\<^sup>*\<^sup>* (drive_init a) s" using assms by (rule relpowp_imp_rtranclp)
  have inv: "drive_inv a out s" by (rule drive.inv_reachable[OF refl run])
  have "da_window a = 0 \<Longrightarrow> n = 0"
  proof (cases n)
    case (Suc k)
    assume "da_window a = 0"
    moreover obtain s1 where "drive_step a out (drive_init a) s1"
      using relpowp_Suc_D2[of k "drive_step a out" "drive_init a" s] assms unfolding Suc by blast
    ultimately show ?thesis
      by (auto simp: drive_init_def main_turn_def task_turn_def elim!: drive_step.cases)
  qed
  then have "da_window a = 0 \<Longrightarrow> s = drive_init a" using assms by auto
  then have "da_window a = 0 \<and> 0 < da_count a \<longrightarrow> \<not> drive_finished a s"
    by (auto simp: drive_finished_def drive_init_def)
  moreover have "n \<le> 4 * da_count a"
    using windowed.steps_bounded[OF assms] by (simp add: drive_measure_def drive_init_def)
  ultimately show ?thesis
    using inv windowed.stuck_final[OF _ run] windowed.run_ends[of a out s] by (auto simp: drive_inv_def)
qed

theorem drive_run_ends_witness: "10 \<le> 4 * da_count sample_args \<and> drive_finished sample_args sample_end"
proof -
  have "main_turn sample_args sample_end = None" by (simp add: main_turn_def sample_args_def sample_end_def)
  moreover have "task_turn sample_out i sample_end = None" for i
    by (auto simp: task_turn_def sample_end_def less_Suc_eq nth_Cons' split: if_splits)
  ultimately have "\<nexists>s'. drive_step sample_args sample_out sample_end s'" by (auto elim!: drive_step.cases)
  moreover have "0 < da_window sample_args" by (simp add: sample_args_def)
  ultimately show ?thesis
    using drive_run_ends[OF drive_run_steps[OF sample_drive_run]] by (simp add: sample_schedule_def)
qed

text \<open>The p-th percentile has the rank p / 100 of the largest, within one.\<close>

lemma pct_rank:
  assumes "ls \<noteq> []" and "length ls \<le> 2 ^ 50" and "0 \<le> p" and "p \<le> 100"
  shows "\<exists>k < length ls. pct ls p = ls ! k \<and> \<bar>of_nat k - p / 100 * of_nat (length ls - 1)\<bar> \<le> 1"
proof -
  let ?k = "min (pct_index p (length ls)) (length ls - 1)"
  have "p / 100 * of_nat (length ls - 1) \<le> 1 * of_nat (length ls - 1)"
    using assms by (intro mult_right_mono) simp_all
  moreover have "\<bar>of_nat (pct_index p (length ls)) - p / 100 * of_nat (length ls - 1)\<bar> \<le> 1"
    using assms by (intro pct_index_error) simp_all
  ultimately have "\<bar>of_nat ?k - p / 100 * of_nat (length ls - 1)\<bar> \<le> 1"
    by (cases "pct_index p (length ls) \<le> length ls - 1")
      (auto simp: min_absorb1 min_absorb2 abs_le_iff not_le dest!: less_imp_of_nat_less[where ?'a = rat])
  moreover have "?k < length ls" using pct_index_lt[OF assms(1)] .
  ultimately show ?thesis using assms(1) by (intro exI[of _ ?k]) (simp add: pct_def)
qed

text \<open>
  C24. The latency percentiles of the report: the five figures p50, p90, p99, p999 and the
  maximum are recorded latencies, in order, and in the sorted latencies their ranks are 50,
  90, 99 and 99.9 (as an \<open>f64\<close>) percent of the largest and the largest itself, within one,
  for up to \<open>2 ^ 50\<close> samples, with the \<open>f64\<close> arithmetic of the code; the last is the maximum.
\<close>

theorem percentiles_ordered_and_ranked:
  assumes "latencies \<noteq> []" and "length latencies \<le> 2 ^ 50"
  shows "sorted (dr_latency (report latencies errors failures elapsed))
    \<and> list_all2 (\<lambda>v p. \<exists>k < length latencies. v = sort latencies ! k
        \<and> \<bar>of_nat k - p / 100 * of_nat (length latencies - 1)\<bar> \<le> 1)
      (dr_latency (report latencies errors failures elapsed)) [50, 90, 99, fl (999 / 10), 100]
    \<and> set (dr_latency (report latencies errors failures elapsed)) \<subseteq> set latencies
    \<and> last (dr_latency (report latencies errors failures elapsed)) = Max (set latencies)"
proof -
  define ls where "ls = sort latencies"
  have ls: "sorted ls" "ls \<noteq> []" "set ls = set latencies" "length ls = length latencies"
    using assms(1) by (auto simp: ls_def dest: arg_cong[where f = length])
  have p999: "99 \<le> fl (999 / 10)" "fl (999 / 10) \<le> 100"
    using fl_mono[of 99 "999 / 10"] fl_mono[of "999 / 10" 100] by simp_all
  have rep: "dr_latency (report latencies errors failures elapsed) =
      [pct ls 50, pct ls 90, pct ls 99, pct ls (fl (999 / 10)), last ls]"
    using ls(2) by (simp add: report_def Let_def flip: ls_def)
  have top: "\<exists>k < length ls. last ls = ls ! k \<and> \<bar>of_nat k - 100 / 100 * of_nat (length ls - 1)\<bar> \<le> (1 :: rat)"
    using ls(2) by (intro exI[of _ "length ls - 1"]) (simp add: last_conv_nth)
  have "last ls = Max (set ls)"
    using ls(1,2) by (intro Max_eqI[symmetric]) (auto intro: sorted_le_last)
  then have max: "last ls = Max (set latencies)" using ls(3) by simp
  note rank = pct_rank[OF ls(2), unfolded ls(4), OF assms(2)]
  have "list_all2 (\<lambda>v p. \<exists>k < length latencies. v = ls ! k
        \<and> \<bar>of_nat k - p / 100 * of_nat (length latencies - 1)\<bar> \<le> 1)
      [pct ls 50, pct ls 90, pct ls 99, pct ls (fl (999 / 10)), last ls] [50, 90, 99, fl (999 / 10), 100]"
    using rank[of 50] rank[of 90] rank[of 99] rank[of "fl (999 / 10)"] p999 top[unfolded ls(4)] by auto
  moreover have "sorted [pct ls 50, pct ls 90, pct ls 99, pct ls (fl (999 / 10)), last ls]"
    using ls p999 by (auto intro: pct_mono pct_last)
  moreover have "set [pct ls 50, pct ls 90, pct ls 99, pct ls (fl (999 / 10)), last ls] \<subseteq> set latencies"
    using ls(2) pct_in[OF ls(2)] last_in_set[OF ls(2)] by (simp flip: ls(3))
  ultimately show ?thesis
    unfolding rep ls_def[symmetric] using max by (intro conjI) simp_all
qed

theorem percentiles_ordered_and_ranked_witness:
  "sorted (dr_latency (report [700, 698] 1 [] 1000)) \<and> last (dr_latency (report [700, 698] 1 [] 1000)) = 700"
  using percentiles_ordered_and_ranked[of "[700, 698]" 1 "[]" 1000] by simp

text \<open>
  The mock SMSC never answers two submits with the same message id: the ids of any
  \<open>2 ^ 64\<close> submits in a row are different.
\<close>

theorem mock_ids_distinct:
  assumes "n \<le> 2 ^ 64"
  shows "distinct (fst (mock_submits n m))"
proof -
  have "inj_on (\<lambda>i. accept (AcceptId (hex_lower 0 (unat (ms_next_id m + of_nat i))))) {0..<n}"
  proof (rule inj_onI)
    fix i j
    assume "i \<in> {0..<n}" "j \<in> {0..<n}"
    then have "i < 2 ^ 64" "j < 2 ^ 64" using assms by auto
    moreover assume "accept (AcceptId (hex_lower 0 (unat (ms_next_id m + of_nat i)))) =
      accept (AcceptId (hex_lower 0 (unat (ms_next_id m + of_nat j))))"
    then have "unat (ms_next_id m + of_nat i) = unat (ms_next_id m + of_nat j)" by (simp add: hex_lower_def hex_upper_def lower_hex_inject)
    then have "ms_next_id m + of_nat i = ms_next_id m + of_nat j" by (simp only: word_unat_eq_iff)
    then have "(of_nat i :: u64) = of_nat j" by simp
    ultimately show "i = j" by (simp add: of_nat_inverse word_of_nat_eq_iff take_bit_nat_eq_self)
  qed
  then show ?thesis by (simp add: mock_submits_ids distinct_map)
qed

theorem mock_ids_distinct_witness: "distinct (fst (mock_submits 1000 \<lparr>ms_next_id = - 1\<rparr>))"
  using mock_ids_distinct[of 1000 "\<lparr>ms_next_id = - 1\<rparr>"] by simp

end
