(* ===== verification/Smpp_Leak.thy ===== *)
theory Smpp_Leak
  imports Smpp_Pdu Smpp_Config
begin

text \<open>
  The leak check (\<open>src/examples/leak_check.rs\<close>): a counting allocator around the system's, the
  work it measures, and the verdict. The allocator's callers are a list of calls, each with
  what the system's allocator returned; the heap they describe, a list of live blocks, is what
  the counter is compared with.
\<close>

section \<open>The counting allocator\<close>

type_synonym i64 = "64 word"

text \<open>A call with its layout's size, and the pointer that came back (\<open>None\<close> when null).\<close>

datatype alloc_call =
    Alloc nat "nat option"
  | Dealloc nat nat
  | Alloc_zeroed nat "nat option"
  | Realloc nat nat nat "nat option"

definition Counting_alloc :: "nat \<Rightarrow> nat option \<Rightarrow> i64 \<Rightarrow> i64" where
  "Counting_alloc sz p LIVE = (if p \<noteq> None then LIVE + of_nat sz else LIVE)"

definition Counting_dealloc :: "nat \<Rightarrow> i64 \<Rightarrow> i64" where
  "Counting_dealloc sz LIVE = LIVE - of_nat sz"

definition Counting_alloc_zeroed :: "nat \<Rightarrow> nat option \<Rightarrow> i64 \<Rightarrow> i64" where
  "Counting_alloc_zeroed sz p LIVE = (if p \<noteq> None then LIVE + of_nat sz else LIVE)"

definition Counting_realloc :: "nat \<Rightarrow> nat \<Rightarrow> nat option \<Rightarrow> i64 \<Rightarrow> i64" where
  "Counting_realloc sz new_size p LIVE =
     (if p \<noteq> None then LIVE + (of_nat new_size - of_nat sz) else LIVE)"

primrec counted :: "alloc_call \<Rightarrow> i64 \<Rightarrow> i64" where
  "counted (Alloc sz p) = Counting_alloc sz p"
| "counted (Dealloc ptr sz) = Counting_dealloc sz"
| "counted (Alloc_zeroed sz p) = Counting_alloc_zeroed sz p"
| "counted (Realloc ptr sz new_size p) = Counting_realloc sz new_size p"

abbreviation counted_all :: "alloc_call list \<Rightarrow> i64 \<Rightarrow> i64" where
  "counted_all \<equiv> fold counted"

section \<open>The work\<close>

text \<open>A delivery receipt and a plain message; the codec writes the length octet.\<close>

definition dlr_body :: bytes where
  "dlr_body = str_bytes (''id:0a1b2c3d4e sub:001 dlvrd:001 submit date:2401011200 ''
     @ ''done date:2401011201 stat:DELIVRD err:000 text:leak check'')"

definition dlr :: "codec \<Rightarrow> deliver_sm" where
  "dlr C =
     \<lparr>ds_service_type = [], ds_source_addr_ton = 1, ds_source_addr_npi = 1, ds_source_addr = ''15550101'',
      ds_dest_addr_ton = 1, ds_dest_addr_npi = 1, ds_destination_addr = ''15550199'', ds_esm_class = 0x04,
      ds_protocol_id = 0, ds_priority_flag = 0, ds_schedule_delivery_time = [], ds_validity_period = [],
      ds_registered_delivery = 0, ds_replace_if_present_flag = 0, ds_data_coding = 0, ds_sm_default_msg_id = 0,
      ds_sm_length = sm_length_of C dlr_body, ds_short_message = dlr_body, ds_tlvs = []\<rparr>"

definition mo_body :: bytes where
  "mo_body = str_bytes ''a typical mobile-originated message body''"

definition mo :: "codec \<Rightarrow> deliver_sm" where
  "mo C =
     \<lparr>ds_service_type = [], ds_source_addr_ton = 1, ds_source_addr_npi = 1, ds_source_addr = ''15550101'',
      ds_dest_addr_ton = 1, ds_dest_addr_npi = 1, ds_destination_addr = ''15550199'', ds_esm_class = 0,
      ds_protocol_id = 0, ds_priority_flag = 0, ds_schedule_delivery_time = [], ds_validity_period = [],
      ds_registered_delivery = 0, ds_replace_if_present_flag = 0, ds_data_coding = 0, ds_sm_default_msg_id = 0,
      ds_sm_length = sm_length_of C mo_body, ds_short_message = mo_body, ds_tlvs = []\<rparr>"

text \<open>
  The loops, with what each turn hands to \<open>black_box\<close>; \<open>None\<close> where one of the calls panics.
\<close>

fun mapping_cycle :: "codec \<Rightarrow> nat \<Rightarrow> (bool \<times> Receipt option \<times> Receipt option \<times> Pdu) list option" where
  "mapping_cycle C 0 = Some []"
| "mapping_cycle C (Suc iters) =
     (let p1 = from_deliver (dlr C); p2 = from_deliver (mo C) in
      case Receipt_parse (p_short_message p1) of
        None \<Rightarrow> None
      | Some r1 \<Rightarrow>
          (case Receipt_parse (p_short_message p2) of
             None \<Rightarrow> None
           | Some r2 \<Rightarrow>
               map_option (Cons (and (p_esm_class p1) 0x04 \<noteq> 0, r1, r2, p2)) (mapping_cycle C iters)))"

definition SAMPLE_YAML :: string where
  "SAMPLE_YAML = concat (map (\<lambda>line. line @ [CHR 0x0A])
     [[],
      ''server:'',
      ''  bind_address: \"0.0.0.0\"'',
      ''  port: 2775'',
      ''binds:'',
      ''  - name: alpha'',
      ''    host: smsc-a.example.net'',
      ''    port: 2775'',
      ''    system_id: alpha_esme'',
      ''    password: secret-a'',
      ''    max_msg_per_sec: 50'',
      ''  - name: beta'',
      ''    host: smsc-b.example.org'',
      ''    port: 2775'',
      ''    system_id: beta_esme'',
      ''    password: secret-b'',
      ''routing:'',
      ''  default_chain: [\"bind:beta\"]'',
      ''  rules:'',
      ''    - prefix: \"1555\"'',
      ''      name: na'',
      ''      chain: [\"bind:alpha\"]''])"

fun config_cycle ::
  "saphyr \<Rightarrow> nat \<Rightarrow> ((string \<times> u16) \<times> SmppConfig) list option" where
  "config_cycle saphyr 0 = Some []"
| "config_cycle saphyr (Suc iters) =
     (case from_yaml saphyr SAMPLE_YAML of
        Inl e \<Rightarrow> None
      | Inr cfg \<Rightarrow> map_option (Cons (listen cfg, cfg)) (config_cycle saphyr iters))"

section \<open>The verdict\<close>

definition MAP_ITERS :: nat where "MAP_ITERS = 200000"
definition MAP_CYCLES :: nat where "MAP_CYCLES = 10"
definition MAP_BUDGET :: i64 where "MAP_BUDGET = 256 * 1024"
definition CFG_ITERS :: nat where "CFG_ITERS = 20000"
definition CFG_CYCLES :: nat where "CFG_CYCLES = 10"
definition CFG_BUDGET :: i64 where "CFG_BUDGET = 256 * 1024"

text \<open>
  The allocator calls of a phase: those up to its base reading, then, for each cycle, those
  of the work, those that build the label of its report, and those from the report's reading
  to the end of the cycle.
\<close>

record phase_calls =
  ph_warm :: "alloc_call list"
  ph_work :: "nat \<Rightarrow> alloc_call list"
  ph_label :: "nat \<Rightarrow> alloc_call list"
  ph_rest :: "nat \<Rightarrow> alloc_call list"

definition leak_report :: "i64 \<Rightarrow> i64 \<Rightarrow> i64" where
  "leak_report base live = live - base"

primrec leak_cycles :: "phase_calls \<Rightarrow> i64 \<Rightarrow> nat list \<Rightarrow> i64 \<Rightarrow> i64 list \<times> i64" where
  "leak_cycles ph base [] live = ([], live)"
| "leak_cycles ph base (c # cs) live =
     (let live = counted_all (ph_work ph c) live;
          live = counted_all (ph_label ph c) live;
          growth = leak_report base live;
          live = counted_all (ph_rest ph c) live;
          (growths, live) = leak_cycles ph base cs live
      in (growth # growths, live))"

definition leak_phase :: "phase_calls \<Rightarrow> nat \<Rightarrow> i64 \<Rightarrow> i64 list \<times> i64 \<times> i64" where
  "leak_phase ph cycles live =
     (let live = counted_all (ph_warm ph) live;
          base = live;
          (growths, live) = leak_cycles ph base [1 ..< cycles + 1] live
      in (growths, live - base, live))"

text \<open>The exit code, with the growths reported on the way. Comparisons of \<open>i64\<close> are signed.\<close>

definition leak_main :: "phase_calls \<Rightarrow> phase_calls \<Rightarrow> i64 \<Rightarrow> nat \<times> i64 list \<times> i64 list" where
  "leak_main mapping config live =
     (let (map_reports, map_growth, live) = leak_phase mapping MAP_CYCLES live;
          (cfg_reports, cfg_growth, live) = leak_phase config CFG_CYCLES live;
          ok = True;
          ok = (if sint map_growth > sint MAP_BUDGET then False else ok);
          ok = (if sint cfg_growth > sint CFG_BUDGET then False else ok)
      in (if \<not> ok then 1 else 0, map_reports, cfg_reports))"

section \<open>The heap\<close>

text \<open>
  The live blocks with their sizes. A call is allowed (not \<open>None\<close>) when its caller keeps the
  contract of \<open>GlobalAlloc\<close> (a block is given back with the size it was allocated with) and the
  system's allocator its own (it hands out only memory that is free).
\<close>

type_synonym heap = "(nat \<times> nat) list"

definition place :: "nat \<Rightarrow> nat option \<Rightarrow> heap \<Rightarrow> heap option" where
  "place sz p h = (case p of
     None \<Rightarrow> Some h
   | Some a \<Rightarrow> if map_of h a = None then Some ((a, sz) # h) else None)"

primrec heap_call :: "alloc_call \<Rightarrow> heap \<Rightarrow> heap option" where
  "heap_call (Alloc sz p) h = place sz p h"
| "heap_call (Alloc_zeroed sz p) h = place sz p h"
| "heap_call (Dealloc ptr sz) h = (if map_of h ptr = Some sz then Some (AList.delete ptr h) else None)"
| "heap_call (Realloc ptr sz new_size p) h =
     (if map_of h ptr \<noteq> Some sz then None
      else if p = None then Some h
      else place new_size p (AList.delete ptr h))"

primrec heap_calls :: "alloc_call list \<Rightarrow> heap \<Rightarrow> heap option" where
  "heap_calls [] h = Some h"
| "heap_calls (c # cs) h = Option.bind (heap_call c h) (heap_calls cs)"

definition live_bytes :: "heap \<Rightarrow> nat" where
  "live_bytes h = sum_list (map snd h)"

definition counter_ok :: "heap \<times> i64 \<Rightarrow> bool" where
  "counter_ok s \<longleftrightarrow> distinct (map fst (fst s)) \<and> snd s = of_nat (live_bytes (fst s))"

inductive alloc_step :: "heap \<times> i64 \<Rightarrow> heap \<times> i64 \<Rightarrow> bool" where
  alloc_step: "heap_call c h = Some h' \<Longrightarrow> alloc_step (h, n) (h', counted c n)"

lemma live_bytes_delete:
  "distinct (map fst h) \<Longrightarrow> map_of h p = Some sz \<Longrightarrow> live_bytes h = sz + live_bytes (AList.delete p h)"
proof (induction h)
  case (Cons b h)
  show ?case
  proof (cases "fst b = p")
    case True
    with Cons.prems have "p \<notin> fst ` set h" by auto
    then have "AList.delete p h = h" by (simp add: delete_id)
    with True Cons.prems show ?thesis by (cases b) (simp add: live_bytes_def)
  next
    case False
    with Cons show ?thesis by (cases b) (simp add: live_bytes_def)
  qed
qed simp

lemma place_ok:
  assumes "counter_ok (h, n)" and "place sz p h = Some h'"
  shows "counter_ok (h', if p \<noteq> None then n + of_nat sz else n)"
  using assms by (auto simp: counter_ok_def place_def live_bytes_def map_of_eq_None_iff split: option.splits if_splits)

lemma delete_ok:
  assumes "counter_ok (h, n)" and "map_of h ptr = Some sz"
  shows "counter_ok (AList.delete ptr h, n - of_nat sz)"
  using assms live_bytes_delete[of h ptr sz] by (simp add: counter_ok_def distinct_delete)

lemma heap_call_ok: "counter_ok (h, n) \<Longrightarrow> heap_call c h = Some h' \<Longrightarrow> counter_ok (h', counted c n)"
proof (cases c)
  case (Realloc ptr sz new_size p)
  assume "counter_ok (h, n)" "heap_call c h = Some h'"
  with Realloc delete_ok[of h n ptr sz] place_ok[of "AList.delete ptr h" "n - of_nat sz" new_size p h']
  show ?thesis by (cases p) (auto simp: Counting_realloc_def algebra_simps split: if_splits)
next
  case (Dealloc ptr sz)
  then show "counter_ok (h, n) \<Longrightarrow> heap_call c h = Some h' \<Longrightarrow> counter_ok (h', counted c n)"
    using delete_ok[of h n ptr sz] by (auto simp: Counting_dealloc_def split: if_splits)
qed (auto simp: Counting_alloc_def Counting_alloc_zeroed_def dest: place_ok)

text \<open>Whatever the program does with its memory, the counter is the number of live bytes.\<close>

interpretation allocator: machine "\<lambda>s. s = ([], 0)" alloc_step counter_ok
proof unfold_locales
  show "counter_ok s" if "s = ([], 0)" for s using that by (simp add: counter_ok_def live_bytes_def)
  show "counter_ok s'" if "counter_ok s" "alloc_step s s'" for s s'
    using that(2,1) by cases (auto intro: heap_call_ok)
qed

lemma heap_calls_steps: "heap_calls cs h = Some h' \<Longrightarrow> alloc_step\<^sup>*\<^sup>* (h, n) (h', counted_all cs n)"
proof (induction cs arbitrary: h n)
  case (Cons c cs)
  then obtain h1 where h1: "heap_call c h = Some h1" and "heap_calls cs h1 = Some h'"
    by (auto simp: bind_eq_Some_conv)
  with Cons.IH[of h1 "counted c n"] alloc_step.intros[OF h1, of n] show ?case
    by (simp add: converse_rtranclp_into_rtranclp)
qed simp

lemma heap_calls_ok: "heap_calls cs h = Some h' \<Longrightarrow> counter_ok (h, n) \<Longrightarrow> counter_ok (h', counted_all cs n)"
  using allocator.inv_run[OF heap_calls_steps] by blast

lemma heap_calls_append: "heap_calls (cs @ ds) h = Option.bind (heap_calls cs h) (heap_calls ds)"
proof (induction cs arbitrary: h)
  case (Cons c cs)
  then show ?case by (cases "heap_call c h") simp_all
qed simp

text \<open>The difference of two readings is the difference in live bytes, while these fit an \<open>i64\<close>.\<close>

lemma growth_exact:
  assumes "counter_ok (h, n)" and "counter_ok (h', n')" and "live_bytes h < 2 ^ 63" and "live_bytes h' < 2 ^ 63"
  shows "sint (n' - n) = int (live_bytes h') - int (live_bytes h)"
proof -
  let ?d = "int (live_bytes h') - int (live_bytes h)"
  have "n' - n = word_of_int ?d"
    using assms(1,2) by (simp add: counter_ok_def)
  then have "sint (n' - n) = signed_take_bit (LENGTH(64) - 1) ?d"
    by (simp only: sint_sbintrunc')
  moreover have "- (2 ^ 63) \<le> ?d" "?d < 2 ^ 63"
    using assms(3,4) by simp_all
  then have "signed_take_bit 63 ?d = ?d"
    by (intro signed_take_bit_int_eq_self) simp_all
  ultimately show ?thesis by simp
qed

section \<open>Runs of the check\<close>

definition cycle_calls :: "phase_calls \<Rightarrow> nat \<Rightarrow> alloc_call list" where
  "cycle_calls ph c = ph_work ph c @ ph_label ph c @ ph_rest ph c"

text \<open>The heaps a phase goes through: after its warm-up, and after each of its cycles.\<close>

definition phase_heaps :: "phase_calls \<Rightarrow> nat \<Rightarrow> heap \<Rightarrow> (nat \<Rightarrow> heap) \<Rightarrow> bool" where
  "phase_heaps ph cycles h H \<longleftrightarrow>
     heap_calls (ph_warm ph) h = Some (H 0)
   \<and> (\<forall>c \<in> {1..cycles}. heap_calls (cycle_calls ph c) (H (c - 1)) = Some (H c))
   \<and> (\<forall>c \<le> cycles. live_bytes (H c) < 2 ^ 63)"

lemma leak_cycles_live:
  "snd (leak_cycles ph base cs n) = counted_all (concat (map (cycle_calls ph) cs)) n"
  by (induction cs arbitrary: n) (auto simp: cycle_calls_def Let_def split: prod.splits dest: sndI)

lemma cycles_ok:
  assumes "phase_heaps ph cycles h H" and "counter_ok (H 0, n)" and "k \<le> cycles"
  shows "counter_ok (H k, counted_all (concat (map (cycle_calls ph) [1 ..< k + 1])) n)"
  using assms(3)
proof (induction k)
  case 0
  with assms(2) show ?case by simp
next
  case (Suc k)
  then have "heap_calls (cycle_calls ph (Suc k)) (H k) = Some (H (Suc k))"
    using assms(1) by (force simp: phase_heaps_def)
  from heap_calls_ok[OF this Suc.IH] Suc.prems show ?case
    by (simp add: upt_rec[of _ "Suc k + 1"])
qed

lemma leak_phase_exact:
  assumes "phase_heaps ph cycles h H" and "counter_ok (h, n)"
  obtains rs g n' where "leak_phase ph cycles n = (rs, g, n')" "counter_ok (H cycles, n')"
    "sint g = int (live_bytes (H cycles)) - int (live_bytes (H 0))"
proof -
  let ?n0 = "counted_all (ph_warm ph) n"
  obtain rs n' where c: "leak_cycles ph ?n0 [1 ..< cycles + 1] ?n0 = (rs, n')" by fastforce
  have start: "counter_ok (H 0, ?n0)"
    using assms heap_calls_ok by (auto simp: phase_heaps_def)
  have "n' = counted_all (concat (map (cycle_calls ph) [1 ..< cycles + 1])) ?n0"
    using c leak_cycles_live[of ph ?n0 "[1 ..< cycles + 1]" ?n0] by simp
  with cycles_ok[OF assms(1) start order.refl] have last: "counter_ok (H cycles, n')" by simp
  have "sint (n' - ?n0) = int (live_bytes (H cycles)) - int (live_bytes (H 0))"
    using growth_exact[OF start last] assms(1) by (simp add: phase_heaps_def)
  with c last show ?thesis
    by (intro that[of rs "n' - ?n0" n']) (simp_all add: leak_phase_def Let_def)
qed

text \<open>Live bytes over a phase whose cycles each add at least, or exactly, so many.\<close>

lemma growth_at_least:
  fixes b :: "nat \<Rightarrow> nat"
  shows "(\<forall>c \<in> {1..n}. b (c - 1) + k \<le> b c) \<Longrightarrow> b 0 + n * k \<le> b n"
proof (induction n)
  case (Suc n)
  then have "b 0 + n * k \<le> b n" by simp
  moreover have "b n + k \<le> b (Suc n)" using Suc.prems by (auto dest: bspec[of _ _ "Suc n"])
  ultimately show ?case by simp
qed simp

lemma growth_none:
  fixes b :: "nat \<Rightarrow> nat"
  shows "(\<forall>c \<in> {1..n}. b c = b (c - 1)) \<Longrightarrow> b n = b 0"
proof (induction n)
  case (Suc n)
  then show ?case by (auto dest: bspec[of _ _ "Suc n"])
qed simp

section \<open>Properties\<close>

text \<open>
  C28. The leak check's verdict is right: it exits with 1 exactly when one of its two phases
  ends with more than 256 KiB of memory live beyond its base, whatever allocations, failed
  allocations and reallocations happened. So it passes when every cycle leaves as much live as
  it found, and it finds a leak of one octet per turn of the mapping loop, and of two octets
  per turn of the configuration loop.
\<close>

theorem leak_check_verdict:
  assumes "alloc_step\<^sup>*\<^sup>* ([], 0) (h, n)"
    and "phase_heaps mapping MAP_CYCLES h H" and "phase_heaps config CFG_CYCLES (H MAP_CYCLES) K"
  shows "let code = fst (leak_main mapping config n) in
    code = (if 256 * 1024 < int (live_bytes (H MAP_CYCLES)) - int (live_bytes (H 0))
      \<or> 256 * 1024 < int (live_bytes (K CFG_CYCLES)) - int (live_bytes (K 0)) then 1 else 0)
    \<and> ((\<forall>c \<in> {1..MAP_CYCLES}. live_bytes (H c) = live_bytes (H (c - 1))) \<longrightarrow>
       (\<forall>c \<in> {1..CFG_CYCLES}. live_bytes (K c) = live_bytes (K (c - 1))) \<longrightarrow> code = 0)
    \<and> ((\<forall>c \<in> {1..MAP_CYCLES}. live_bytes (H (c - 1)) + MAP_ITERS \<le> live_bytes (H c)) \<longrightarrow> code = 1)
    \<and> ((\<forall>c \<in> {1..CFG_CYCLES}. live_bytes (K (c - 1)) + 2 * CFG_ITERS \<le> live_bytes (K c)) \<longrightarrow> code = 1)"
proof -
  have start: "counter_ok (h, n)" using allocator.inv_reachable[OF refl assms(1)] .
  obtain rs g n1 where m: "leak_phase mapping MAP_CYCLES n = (rs, g, n1)" "counter_ok (H MAP_CYCLES, n1)"
    "sint g = int (live_bytes (H MAP_CYCLES)) - int (live_bytes (H 0))"
    using leak_phase_exact[OF assms(2) start] by blast
  obtain rs' g' n2 where k: "leak_phase config CFG_CYCLES n1 = (rs', g', n2)"
    "sint g' = int (live_bytes (K CFG_CYCLES)) - int (live_bytes (K 0))"
    using leak_phase_exact[OF assms(3) m(2)] by blast
  have budgets: "sint MAP_BUDGET = 256 * 1024" "sint CFG_BUDGET = 256 * 1024"
    by (simp_all add: MAP_BUDGET_def CFG_BUDGET_def)
  have code: "fst (leak_main mapping config n) =
      (if 256 * 1024 < int (live_bytes (H MAP_CYCLES)) - int (live_bytes (H 0))
       \<or> 256 * 1024 < int (live_bytes (K CFG_CYCLES)) - int (live_bytes (K 0)) then 1 else 0)"
    by (simp add: leak_main_def m k budgets Let_def)
  note sizes = MAP_CYCLES_def CFG_CYCLES_def MAP_ITERS_def CFG_ITERS_def
  show ?thesis
    unfolding code Let_def
    using growth_none[of MAP_CYCLES "\<lambda>c. live_bytes (H c)"] growth_none[of CFG_CYCLES "\<lambda>c. live_bytes (K c)"]
      growth_at_least[of MAP_CYCLES "\<lambda>c. live_bytes (H c)" MAP_ITERS]
      growth_at_least[of CFG_CYCLES "\<lambda>c. live_bytes (K c)" "2 * CFG_ITERS"]
    by (auto simp: sizes) blast+
qed

text \<open>A mapping loop that forgets a block per cycle, and a configuration loop that reuses one.\<close>

definition leaky_phase :: phase_calls where
  "leaky_phase = \<lparr>ph_warm = [Alloc 64 None, Alloc_zeroed 64 (Some 0)], ph_work = (\<lambda>c. [Alloc MAP_ITERS (Some c)]),
     ph_label = (\<lambda>c. [Alloc 11 (Some 100), Realloc 100 11 22 (Some 200)]), ph_rest = (\<lambda>c. [Dealloc 200 22])\<rparr>"

primrec leaky_heap :: "nat \<Rightarrow> heap" where
  "leaky_heap 0 = [(0, 64)]"
| "leaky_heap (Suc c) = (Suc c, MAP_ITERS) # leaky_heap c"

definition quiet_phase :: phase_calls where
  "quiet_phase = \<lparr>ph_warm = [], ph_work = (\<lambda>c. [Alloc 512 (Some 100)]), ph_label = (\<lambda>c. []),
     ph_rest = (\<lambda>c. [Dealloc 100 512])\<rparr>"

lemma leaky_heap_free:
  "c < p \<Longrightarrow> map_of (leaky_heap c) p = None" "c < p \<Longrightarrow> AList.delete p (leaky_heap c) = leaky_heap c"
  "live_bytes (leaky_heap c) = c * MAP_ITERS + 64"
  by (induction c) (simp_all add: live_bytes_def)

lemma leaky_steps: "phase_heaps leaky_phase 10 [] leaky_heap"
proof -
  have "heap_calls (cycle_calls leaky_phase (Suc c)) (leaky_heap c) = Some (leaky_heap (Suc c))" if "c < 10" for c
    using that by (simp add: cycle_calls_def leaky_phase_def leaky_heap_free place_def)
  then have "heap_calls (cycle_calls leaky_phase c) (leaky_heap (c - 1)) = Some (leaky_heap c)"
    if "c \<in> {1..10}" for c
    using that by (cases c) (auto simp del: leaky_heap.simps)
  then show ?thesis
    by (simp add: phase_heaps_def leaky_heap_free MAP_ITERS_def)
      (simp add: leaky_phase_def place_def)
qed

lemma quiet_steps: "phase_heaps quiet_phase 10 (leaky_heap 10) (\<lambda>_. leaky_heap 10)"
proof -
  have "heap_calls (cycle_calls quiet_phase c) (leaky_heap 10) = Some (leaky_heap 10)" for c
    by (simp add: cycle_calls_def quiet_phase_def leaky_heap_free place_def)
  then show ?thesis
    by (simp add: phase_heaps_def leaky_heap_free MAP_ITERS_def) (simp add: quiet_phase_def)
qed

theorem leak_check_verdict_witness: "fst (leak_main leaky_phase quiet_phase 0) = 1"
  using leak_check_verdict[of "[]" 0 leaky_phase leaky_heap quiet_phase "\<lambda>_. leaky_heap 10"] leaky_steps quiet_steps
  by (simp add: MAP_CYCLES_def CFG_CYCLES_def Let_def leaky_heap_free MAP_ITERS_def live_bytes_def[of "[(0, 64)]"])

text \<open>The receipt of the loop, as its fields.\<close>

definition dlr_entries :: "((string \<times> string) \<times> string) list" where
  "dlr_entries =
     [((''id'', ''id''), ''0a1b2c3d4e''), ((''sub'', ''sub''), ''001''), ((''dlvrd'', ''dlvrd''), ''001''),
      ((''submit date'', ''submit_date''), ''2401011200''), ((''done date'', ''done_date''), ''2401011201''),
      ((''stat'', ''stat''), ''DELIVRD''), ((''err'', ''err''), ''000''), ((''text'', ''text''), ''leak check'')]"

text \<open>
  The mapping loop does the work it is meant to measure, for every number of turns: the first
  message takes the receipt path and all eight fields are read, the second is no receipt.
\<close>

theorem mapping_cycle_work:
  "mapping_cycle C n = Some (replicate n (True,
     Some \<lparr>r_id = Some ''0a1b2c3d4e'', r_sub = Some ''001'', r_dlvrd = Some ''001'',
       r_submit_date = Some ''2401011200'', r_done_date = Some ''2401011201'', r_stat = Some ''DELIVRD'',
       r_err = Some ''000'', r_text = Some ''leak check'', r_raw = receipt_body dlr_entries\<rparr>,
     None, from_deliver (mo C)))"
proof -
  have body: "dlr_body = str_bytes (receipt_body dlr_entries)" by (simp add: dlr_body_def dlr_entries_def)
  have "clean_entries dlr_entries" by code_simp
  from Receipt_parse_body[OF this]
  have "Receipt_parse dlr_body = Some (Some \<lparr>r_id = Some ''0a1b2c3d4e'', r_sub = Some ''001'', r_dlvrd = Some ''001'',
       r_submit_date = Some ''2401011200'', r_done_date = Some ''2401011201'', r_stat = Some ''DELIVRD'',
       r_err = Some ''000'', r_text = Some ''leak check'', r_raw = receipt_body dlr_entries\<rparr>)"
    by (simp add: body) (simp add: dlr_entries_def)
  moreover have "Receipt_parse mo_body = Some None" by code_simp
  ultimately show ?thesis
    by (induction n) (simp_all add: from_deliver_def dlr_def mo_def Let_def)
qed

end
