(* ===== verification/Smpp_Async.thy ===== *)
theory Smpp_Async
  imports Smpp_Dispatch
begin

text \<open>
  A coroutine handler as it runs (\<open>submit_coroutine\<close>, \<open>Completion\<close> and \<open>Started::settle\<close> of
  \<open>src/src/dispatch.rs\<close>): the coroutine on the loop's thread, the one-shot channel, and the
  caller that waits for it with a time limit, in any order of their steps and with time passing
  freely between them. The rest of the development describes a coroutine by its outcome alone;
  that this is right is shown here. Times are nanoseconds since the coroutine was submitted;
  the caller's limit counts from when it starts to wait.
\<close>

section \<open>The race\<close>

datatype 't channel = Open | Sent "(string, 't) result" | Closed_channel

text \<open>
  \<open>rc_finish\<close> is the callback \<open>Completion\<close> holds until it is taken, \<open>rc_started\<close> when the caller
  started to wait. \<open>rc_over\<close> is when the coroutine was over and how, \<open>rc_settled\<close> when the
  caller was and with what; they are only recorded.
\<close>

record ('c, 't) race =
  rc_now :: nat
  rc_finish :: bool
  rc_channel :: "'t channel"
  rc_started :: "nat option"
  rc_over :: "(nat \<times> 'c awaited) option"
  rc_settled :: "(nat \<times> (string, 't) result) option"

definition race_init :: "('c, 't) race" where
  "race_init = \<lparr>rc_now = 0, rc_finish = True, rc_channel = Open, rc_started = None, rc_over = None, rc_settled = None\<rparr>"

text \<open>\<open>take\<close> and the callback: the first report sends, if the caller still listens.\<close>

definition report_once :: "(string, 't) result \<Rightarrow> ('c, 't) race \<Rightarrow> ('c, 't) race" where
  "report_once r s =
     (if rc_finish s
      then s\<lparr>rc_finish := False, rc_channel := (if rc_settled s = None then Sent r else rc_channel s)\<rparr>
      else s)"

text \<open>What the wrapper \<open>await_handler\<close> reports, and what is left when the loop drops it.\<close>

definition coroutine_over :: "('c script_value \<Rightarrow> 't) \<Rightarrow> 'c awaited \<Rightarrow> ('c, 't) race \<Rightarrow> ('c, 't) race" where
  "coroutine_over convert out s =
     (let s = s\<lparr>rc_over := Some (rc_now s, out)\<rparr> in
      case out of
        Returned v \<Rightarrow> report_once (Inr (convert v)) s
      | Raised e \<Rightarrow> report_once (Inl e) s
      | Expired e \<Rightarrow> report_once (Inl e) s
      | _ \<Rightarrow> s\<lparr>rc_finish := False, rc_channel := (if rc_channel s = Open then Closed_channel else rc_channel s)\<rparr>)"

definition deadline :: "nat \<Rightarrow> nat" where
  "deadline timeout = timeout + SETTLE_BACKSTOP"

definition stalled_message :: "nat \<Rightarrow> string" where
  "stalled_message timeout = ''async handler did not settle within ''
     @ dec_digits (deadline timeout div 1000000000) @ ''s; its asyncio loop is not turning''"

text \<open>
  One poll of \<open>Started::settle\<close>, for a caller that started to wait at \<open>started\<close>: tokio's
  \<open>timeout\<close> polls the receiver first and its timer only when nothing is there. \<open>None\<close>: still
  pending.
\<close>

definition settle_poll :: "nat \<Rightarrow> nat \<Rightarrow> nat \<Rightarrow> 't channel \<Rightarrow> (string, 't) result option" where
  "settle_poll timeout started now ch =
     (case ch of
        Sent result \<Rightarrow> Some result
      | Closed_channel \<Rightarrow> Some (Inl ''the asyncio loop dropped the handler before it settled'')
      | Open \<Rightarrow> if started + deadline timeout \<le> now then Some (Inl (stalled_message timeout)) else None)"

text \<open>
  The steps: time passes; the coroutine is over (its scope expires no sooner than the time
  limit); the caller starts to wait; a poll of the caller gives it a result.
\<close>

inductive race_step ::
  "nat \<Rightarrow> ('c script_value \<Rightarrow> 't) \<Rightarrow> ('c, 't) race \<Rightarrow> ('c, 't) race \<Rightarrow> bool" for timeout convert where
  tick: "race_step timeout convert s (s\<lparr>rc_now := rc_now s + 1\<rparr>)"
| over: "rc_over s = None \<Longrightarrow> out \<noteq> Stalled \<Longrightarrow> (\<And>e. out = Expired e \<Longrightarrow> timeout \<le> rc_now s) \<Longrightarrow>
    race_step timeout convert s (coroutine_over convert out s)"
| waits: "rc_started s = None \<Longrightarrow> race_step timeout convert s (s\<lparr>rc_started := Some (rc_now s)\<rparr>)"
| polled: "rc_started s = Some t0 \<Longrightarrow> rc_settled s = None \<Longrightarrow>
    settle_poll timeout t0 (rc_now s) (rc_channel s) = Some r \<Longrightarrow>
    race_step timeout convert s (s\<lparr>rc_settled := Some (rc_now s, r)\<rparr>)"

section \<open>Invariant\<close>

text \<open>What the caller is told of an outcome, as the rest of the development has it.\<close>

definition told :: "nat \<Rightarrow> ('c script_value \<Rightarrow> 't) \<Rightarrow> 'c awaited \<Rightarrow> (string, 't) result" where
  "told timeout convert out = Started_settle (Pending (received_of convert out) timeout)"

definition race_ok :: "nat \<Rightarrow> ('c script_value \<Rightarrow> 't) \<Rightarrow> ('c, 't) race \<Rightarrow> bool" where
  "race_ok timeout convert s \<longleftrightarrow>
     (case rc_over s of
        None \<Rightarrow> rc_finish s \<and> rc_channel s = Open
      | Some (t, out) \<Rightarrow> t \<le> rc_now s \<and> out \<noteq> Stalled \<and> \<not> rc_finish s
          \<and> (\<forall>e. out = Expired e \<longrightarrow> timeout \<le> t)
          \<and> (rc_settled s = None \<longrightarrow> rc_channel s =
               (case received_of convert out of Got r \<Rightarrow> Sent r | _ \<Rightarrow> Closed_channel)))
   \<and> (case rc_settled s of
        None \<Rightarrow> True
      | Some (t, r) \<Rightarrow> t \<le> rc_now s \<and> (\<exists>t0. rc_started s = Some t0
          \<and> (r = told timeout convert Stalled \<and> t0 + deadline timeout \<le> t
             \<and> (\<forall>t' out. rc_over s = Some (t', out) \<longrightarrow> t \<le> t')
           \<or> (\<exists>t' out. rc_over s = Some (t', out) \<and> t' \<le> t \<and> r = told timeout convert out))))"

lemma received_of_simps [simp]:
  "received_of convert (Returned v) = Got (Inr (convert v))" "received_of convert (Raised e) = Got (Inl e)"
  "received_of convert (Expired e) = Got (Inl e)" "received_of convert Dropped = SenderDropped"
  "received_of convert Stalled = NothingYet"
  by (simp_all add: received_of_def await_handler_def Completion_done_def Completion_fail_def)

lemma told_simps [simp]:
  "told timeout convert (Returned v) = Inr (convert v)" "told timeout convert (Raised e) = Inl e"
  "told timeout convert (Expired e) = Inl e"
  "told timeout convert Dropped = Inl ''the asyncio loop dropped the handler before it settled''"
  "told timeout convert Stalled = Inl (stalled_message timeout)"
  by (simp_all add: told_def Started_settle_def stalled_message_def deadline_def)

lemma coroutine_over_simps [simp]:
  "rc_now (coroutine_over convert out s) = rc_now s" "rc_settled (coroutine_over convert out s) = rc_settled s"
  "rc_over (coroutine_over convert out s) = Some (rc_now s, out)" "\<not> rc_finish (coroutine_over convert out s)"
  "rc_started (coroutine_over convert out s) = rc_started s"
  by (simp_all add: coroutine_over_def report_once_def Let_def split: awaited.split)

lemma coroutine_over_channel:
  assumes "rc_finish s" and "rc_channel s = Open" and "rc_settled s = None" and "out \<noteq> Stalled"
  shows "rc_channel (coroutine_over convert out s) =
    (case received_of convert out of Got r \<Rightarrow> Sent r | _ \<Rightarrow> Closed_channel)"
  using assms by (cases out) (simp_all add: coroutine_over_def report_once_def)

lemma channel_told:
  assumes "race_ok timeout convert s" and "rc_settled s = None"
  shows "rc_channel s = Sent r \<Longrightarrow> \<exists>t out. rc_over s = Some (t, out) \<and> r = told timeout convert out"
    and "rc_channel s = Closed_channel \<Longrightarrow> \<exists>t. rc_over s = Some (t, Dropped)"
    and "rc_channel s = Open \<Longrightarrow> rc_over s = None"
proof -
  have "rc_channel s \<noteq> Open" if "rc_over s = Some p" for p
    using assms that by (cases p; cases "received_of convert (snd p)") (simp_all add: race_ok_def)
  then show "rc_channel s = Open \<Longrightarrow> rc_over s = None" by (cases "rc_over s") blast+
  have over: "\<exists>t out. rc_over s = Some (t, out) \<and> out \<noteq> Stalled \<and>
      rc_channel s = (case received_of convert out of Got r \<Rightarrow> Sent r | _ \<Rightarrow> Closed_channel)"
    if "rc_channel s \<noteq> Open"
    using assms that by (auto simp: race_ok_def split: option.splits)
  then show "rc_channel s = Sent r \<Longrightarrow> \<exists>t out. rc_over s = Some (t, out) \<and> r = told timeout convert out"
    by (auto split: received.splits) (metis awaited.exhaust received.inject received.distinct(1,3) received_of_simps told_simps(1-3))
  show "rc_channel s = Closed_channel \<Longrightarrow> \<exists>t. rc_over s = Some (t, Dropped)"
    using over by (auto split: received.splits) (metis awaited.exhaust received.distinct(1,3) received_of_simps)+
qed

lemma race_ok_polled:
  assumes "race_ok timeout convert s" and "rc_settled s = None" and "rc_started s = Some t0"
    and "settle_poll timeout t0 (rc_now s) (rc_channel s) = Some r"
  shows "race_ok timeout convert (s\<lparr>rc_settled := Some (rc_now s, r)\<rparr>)"
proof (cases "rc_channel s")
  case Open
  with assms(4) have "t0 + deadline timeout \<le> rc_now s" "r = told timeout convert Stalled"
    by (simp_all add: settle_poll_def split: if_splits)
  with assms(1,3) channel_told(3)[OF assms(1,2) Open] show ?thesis by (simp add: race_ok_def)
next
  case (Sent r')
  with assms channel_told(1)[OF assms(1,2) Sent] show ?thesis
    by (auto simp: race_ok_def settle_poll_def)
next
  case Closed_channel
  with assms channel_told(2)[OF assms(1,2) Closed_channel] show ?thesis
    by (auto simp: race_ok_def settle_poll_def)
qed

lemma race_ok_step:
  assumes "race_ok timeout convert s" and "race_step timeout convert s s'"
  shows "race_ok timeout convert s'"
  using assms(2)
proof cases
  case tick
  with assms(1) show ?thesis by (fastforce simp: race_ok_def split: option.splits)
next
  case (over out)
  with assms(1) coroutine_over_channel[of s out convert] show ?thesis
    by (auto simp: race_ok_def split: option.splits)
next
  case waits
  with assms(1) show ?thesis by (auto simp: race_ok_def split: option.splits)
next
  case (polled t0 r)
  with race_ok_polled[OF assms(1)] show ?thesis by blast
qed

interpretation race: machine "\<lambda>s. s = race_init" "race_step timeout convert" "race_ok timeout convert"
  for timeout convert
  using race_ok_step by unfold_locales (auto simp: race_ok_def race_init_def)

lemma settled_stays: "race_step timeout convert s s' \<Longrightarrow> rc_settled s = Some x \<Longrightarrow> rc_settled s' = Some x"
  by (cases rule: race_step.cases) auto

lemma settled_stays_run:
  "(race_step timeout convert)\<^sup>*\<^sup>* s s' \<Longrightarrow> rc_settled s = Some x \<Longrightarrow> rc_settled s' = Some x"
  by (induction rule: rtranclp_induct) (auto dest: settled_stays)

text \<open>Time passes by itself.\<close>

lemma ticks: "(race_step timeout convert)\<^sup>*\<^sup>* s (s\<lparr>rc_now := rc_now s + n\<rparr>)"
proof (induction n)
  case (Suc n)
  then show ?case
    using tick[of timeout convert "s\<lparr>rc_now := rc_now s + n\<rparr>"] by (simp add: rtranclp.rtrancl_into_rtrancl)
qed simp

text \<open>A poll gives a result exactly when the coroutine is over or the limit has passed.\<close>

lemma poll_ready:
  assumes "race_ok timeout convert s" and "rc_settled s = None"
  shows "settle_poll timeout t0 (rc_now s) (rc_channel s) \<noteq> None \<longleftrightarrow>
    rc_over s \<noteq> None \<or> t0 + timeout + SETTLE_BACKSTOP \<le> rc_now s"
proof (cases "rc_channel s")
  case Open
  with channel_told(3)[OF assms] show ?thesis by (simp add: settle_poll_def deadline_def)
next
  case (Sent r)
  with channel_told(1)[OF assms Sent] show ?thesis by (auto simp: settle_poll_def)
next
  case Closed_channel
  with channel_told(2)[OF assms Closed_channel] show ?thesis by (auto simp: settle_poll_def)
qed

lemma wait_ends:
  assumes "rc_started s = Some t0" and "rc_settled s = None"
  shows "\<exists>s' t r. (race_step timeout convert)\<^sup>*\<^sup>* s s' \<and> rc_settled s' = Some (t, r)
    \<and> t = max (rc_now s) (t0 + timeout + SETTLE_BACKSTOP)"
proof -
  define late where "late = s\<lparr>rc_now := rc_now s + (t0 + timeout + SETTLE_BACKSTOP - rc_now s)\<rparr>"
  have late: "rc_now late = max (rc_now s) (t0 + timeout + SETTLE_BACKSTOP)" "rc_channel late = rc_channel s"
    "rc_started late = Some t0" "rc_settled late = None"
    using assms by (simp_all add: late_def)
  have "\<exists>r. settle_poll timeout t0 (rc_now late) (rc_channel late) = Some r"
    by (auto simp: settle_poll_def deadline_def late split: channel.split)
  then obtain r where "settle_poll timeout t0 (rc_now late) (rc_channel late) = Some r" by blast
  note step = polled[OF late(3,4) this]
  have "(race_step timeout convert)\<^sup>*\<^sup>* s late" unfolding late_def by (rule ticks)
  then have "(race_step timeout convert)\<^sup>*\<^sup>* s (late\<lparr>rc_settled := Some (rc_now late, r)\<rparr>)"
    using step by (rule rtranclp.rtrancl_into_rtrancl)
  with late(1) show ?thesis by (intro exI[of _ "late\<lparr>rc_settled := Some (rc_now late, r)\<rparr>"]) simp
qed

lemma settled_answer:
  assumes "race_ok timeout convert s" and "rc_started s = Some t0" and "rc_settled s = Some (t, r)"
  shows "\<exists>out. r = told timeout convert out
    \<and> (if out = Stalled
       then t0 + timeout + SETTLE_BACKSTOP \<le> t \<and> (\<forall>t' o'. rc_over s = Some (t', o') \<longrightarrow> t \<le> t')
       else \<exists>t'. rc_over s = Some (t', out) \<and> t' \<le> t \<and> (\<forall>e. out = Expired e \<longrightarrow> timeout \<le> t'))"
proof -
  from assms consider
    (stalled) "r = told timeout convert Stalled" "t0 + timeout + SETTLE_BACKSTOP \<le> t"
      "\<forall>t' out. rc_over s = Some (t', out) \<longrightarrow> t \<le> t'"
  | (over) t' out where "rc_over s = Some (t', out)" "t' \<le> t" "r = told timeout convert out"
    by (auto simp: race_ok_def deadline_def add.assoc simp del: told_simps)
  then show ?thesis
  proof cases
    case stalled
    then show ?thesis by (intro exI[of _ Stalled]) simp
  next
    case over
    with assms(1) have "out \<noteq> Stalled" "\<forall>e. out = Expired e \<longrightarrow> timeout \<le> t'"
      by (auto simp: race_ok_def)
    with over show ?thesis by (intro exI[of _ out]) simp
  qed
qed

section \<open>Properties\<close>

text \<open>
  C20. The wait for a coroutine handler, whatever the order of the coroutine's, the loop's and
  the caller's steps. It ends: a poll gives a result as soon as the coroutine reported or was
  dropped, and in any case once the time limit and five seconds have passed since the caller
  started to wait, so that waiting until then is always enough. It ends with one answer that
  never changes, the one every other theorem of the development takes a coroutine's outcome
  for: what the coroutine did if it was over by then, and the complaint about the loop only
  when the limit had passed and nothing had been reported before. A coroutine is cancelled no
  sooner than its time limit.
\<close>

theorem async_handler_settles:
  assumes "(race_step timeout convert)\<^sup>*\<^sup>* race_init s" and "rc_started s = Some t0"
  shows "(rc_settled s = None \<longrightarrow>
      (settle_poll timeout t0 (rc_now s) (rc_channel s) \<noteq> None \<longleftrightarrow>
         rc_over s \<noteq> None \<or> t0 + timeout + SETTLE_BACKSTOP \<le> rc_now s)
      \<and> (\<exists>s' t r. (race_step timeout convert)\<^sup>*\<^sup>* s s' \<and> rc_settled s' = Some (t, r)
           \<and> t = max (rc_now s) (t0 + timeout + SETTLE_BACKSTOP)))
    \<and> (\<forall>t r. rc_settled s = Some (t, r) \<longrightarrow>
        (\<forall>s'. (race_step timeout convert)\<^sup>*\<^sup>* s s' \<longrightarrow> rc_settled s' = Some (t, r))
      \<and> (\<exists>out. r = Started_settle (Pending (received_of convert out) timeout)
          \<and> (if out = Stalled
             then t0 + timeout + SETTLE_BACKSTOP \<le> t \<and> (\<forall>t' o'. rc_over s = Some (t', o') \<longrightarrow> t \<le> t')
             else \<exists>t'. rc_over s = Some (t', out) \<and> t' \<le> t \<and> (\<forall>e. out = Expired e \<longrightarrow> timeout \<le> t'))))"
proof -
  have ok: "race_ok timeout convert s" by (rule race.inv_reachable[OF refl assms(1)])
  show ?thesis
    using poll_ready[OF ok] wait_ends[OF assms(2)] settled_stays_run[of timeout convert s]
      settled_answer[OF ok assms(2)] unfolding told_def by blast
qed

text \<open>A coroutine that raises at once, and one whose loop stands still.\<close>

definition raised_race :: "(unit, unit) race" where
  "raised_race = (coroutine_over (\<lambda>_. ()) (Raised ''boom'') (race_init\<lparr>rc_started := Some 0\<rparr>))
     \<lparr>rc_settled := Some (0, Inl ''boom'')\<rparr>"

lemma raised_race_reached: "(race_step 10 (\<lambda>_. ()))\<^sup>*\<^sup>* race_init raised_race"
proof -
  let ?w = "(race_init :: (unit, unit) race)\<lparr>rc_started := Some (rc_now (race_init :: (unit, unit) race))\<rparr>"
  let ?s = "coroutine_over (\<lambda>_. ()) (Raised ''boom'') ?w"
  have "race_step 10 (\<lambda>_. ()) race_init ?w"
    by (rule waits) (simp add: race_init_def)
  moreover have "race_step 10 (\<lambda>_. ()) ?w ?s"
    by (rule over) (simp_all add: race_init_def)
  moreover have "race_step 10 (\<lambda>_. ()) ?s (?s\<lparr>rc_settled := Some (rc_now ?s, Inl ''boom'')\<rparr>)"
    by (rule polled) (simp_all add: race_init_def coroutine_over_channel settle_poll_def)
  moreover have "?s\<lparr>rc_settled := Some (rc_now ?s, Inl ''boom'')\<rparr> = raised_race"
    by (simp add: raised_race_def race_init_def)
  ultimately show ?thesis by (metis rtranclp.rtrancl_into_rtrancl rtranclp.rtrancl_refl)
qed

definition waiting_race :: "(unit, unit) race" where
  "waiting_race = race_init\<lparr>rc_started := Some 0\<rparr>"

lemma waiting_race_reached: "(race_step 10 (\<lambda>_. ()))\<^sup>*\<^sup>* race_init waiting_race"
  using waits[of "race_init :: (unit, unit) race" 10 "\<lambda>_. ()"]
  by (auto simp: waiting_race_def race_init_def)

theorem async_handler_settles_witness:
  "(\<exists>s' r. (race_step 10 (\<lambda>_. ()))\<^sup>*\<^sup>* waiting_race s' \<and> rc_settled s' = Some (5000000010, r))
    \<and> (\<exists>out :: unit awaited. rc_settled raised_race = Some (0, Started_settle (Pending (received_of (\<lambda>_. ()) out) 10))
         \<and> out = Raised ''boom'')"
proof
  have "rc_started waiting_race = Some 0" "rc_settled waiting_race = None" "rc_now waiting_race = 0"
    by (simp_all add: waiting_race_def race_init_def)
  with async_handler_settles[OF waiting_race_reached]
  show "\<exists>s' r. (race_step 10 (\<lambda>_. ()))\<^sup>*\<^sup>* waiting_race s' \<and> rc_settled s' = Some (5000000010, r)"
    by (fastforce simp: SETTLE_BACKSTOP_def from_secs_def)
next
  have s: "rc_settled raised_race = Some (0, Inl ''boom'')" "rc_over raised_race = Some (0, Raised ''boom'')"
    "rc_started raised_race = Some 0"
    by (simp_all add: raised_race_def race_init_def)
  from async_handler_settles[OF raised_race_reached s(3)] s(1,2)
  show "\<exists>out :: unit awaited. rc_settled raised_race = Some (0, Started_settle (Pending (received_of (\<lambda>_. ()) out) 10))
      \<and> out = Raised ''boom''"
    by (auto simp: SETTLE_BACKSTOP_def from_secs_def split: if_splits simp del: received_of_simps)
qed

end
