(* ===== verification/Smpp_Debug.thy ===== *)
theory Smpp_Debug
  imports Smpp_Prelude
begin

text \<open>
  Rust's \<open>{:?}\<close> of strings and options, on UTF-8 octets, and why a text that holds one can be
  read back. The one thing left to a parameter is Unicode's table of the characters above
  ASCII that are shown as they are (\<open>shown\<close>).
\<close>

section \<open>UTF-8\<close>

definition is_scalar :: "nat \<Rightarrow> bool" where
  "is_scalar c \<longleftrightarrow> c < 0xD800 \<or> 0xE000 \<le> c \<and> c < 0x110000"

text \<open>\<open>char::encode_utf8\<close>.\<close>

definition encode_utf8 :: "nat \<Rightarrow> string" where
  "encode_utf8 c =
     (if c < 0x80 then [char_of c]
      else if c < 0x800 then [char_of (0xC0 + c div 64), char_of (0x80 + c mod 64)]
      else if c < 0x10000 then
        [char_of (0xE0 + c div 4096), char_of (0x80 + c div 64 mod 64), char_of (0x80 + c mod 64)]
      else [char_of (0xF0 + c div 262144), char_of (0x80 + c div 4096 mod 64),
        char_of (0x80 + c div 64 mod 64), char_of (0x80 + c mod 64)])"

text \<open>The next character of \<open>str::chars\<close> (the number of octets from the first of them).\<close>

definition lead_len :: "char \<Rightarrow> nat" where
  "lead_len c = (if (of_char c :: nat) < 0x80 then 1 else if (of_char c :: nat) < 0xE0 then 2
     else if (of_char c :: nat) < 0xF0 then 3 else 4)"

definition next_code_point :: "string \<Rightarrow> nat" where
  "next_code_point s =
     (let n = lead_len (hd s); x = of_char (hd s) in
      foldl (\<lambda>a c. 64 * a + of_char c mod 64)
        (if n = 1 then x else if n = 2 then x mod 32 else if n = 3 then x mod 16 else x mod 8)
        (take (n - 1) (tl s)))"

function chars :: "string \<Rightarrow> nat list" where
  "chars [] = []"
| "chars (c # s) = next_code_point (c # s) # chars (drop (lead_len c) (c # s))"
  by pat_completeness auto
termination
  by (relation "measure length") (auto simp: lead_len_def)

declare chars.simps(2) [simp del]

text \<open>A Rust \<open>String\<close> is the encoding of a sequence of characters.\<close>

definition encode_str :: "nat list \<Rightarrow> string" where
  "encode_str cs = concat (map encode_utf8 cs)"

definition is_str :: "string \<Rightarrow> bool" where
  "is_str s \<longleftrightarrow> list_all is_scalar (chars s) \<and> encode_str (chars s) = s"

lemma encode_utf8_nonempty [simp]: "encode_utf8 c \<noteq> []"
  by (simp add: encode_utf8_def)

lemma octet: "n < 256 \<Longrightarrow> (of_char (char_of n :: char) :: nat) = n"
  by simp

text \<open>The digits of a character to base 64, in their ranges.\<close>

lemma utf8_digits:
  fixes c :: nat
  shows "c < 0x800 \<Longrightarrow> c div 64 < 32" "c < 0x10000 \<Longrightarrow> c div 4096 < 16" "c < 0x110000 \<Longrightarrow> c div 262144 < 8"
    "64 * (c div 64) + c mod 64 = c" "64 * (c div 4096) + c div 64 mod 64 = c div 64"
    "64 * (c div 262144) + c div 4096 mod 64 = c div 4096"
    "c mod 64 < 64" "c div 64 mod 64 < 64" "c div 4096 mod 64 < 64"
proof -
  show "64 * (c div 4096) + c div 64 mod 64 = c div 64"
    using mult_div_mod_eq[of 64 "c div 64"] by (simp add: div_mult2_eq[symmetric])
  show "64 * (c div 262144) + c div 4096 mod 64 = c div 4096"
    using mult_div_mod_eq[of 64 "c div 4096"] by (simp add: div_mult2_eq[symmetric])
qed auto

lemma lead_mod:
  "x < 32 \<Longrightarrow> (0xC0 + x) mod 32 = x" "x < 16 \<Longrightarrow> (0xE0 + x) mod 16 = x" "x < 8 \<Longrightarrow> (0xF0 + x) mod 8 = x"
  "x < 64 \<Longrightarrow> (0x80 + x) mod 64 = x" for x :: nat
proof -
  show "x < 32 \<Longrightarrow> (0xC0 + x) mod 32 = x" by (subst mod_add_left_eq[symmetric]) simp
  show "x < 16 \<Longrightarrow> (0xE0 + x) mod 16 = x" by (subst mod_add_left_eq[symmetric]) simp
  show "x < 8 \<Longrightarrow> (0xF0 + x) mod 8 = x" by (subst mod_add_left_eq[symmetric]) simp
  show "x < 64 \<Longrightarrow> (0x80 + x) mod 64 = x" by (subst mod_add_left_eq[symmetric]) simp
qed

lemma next_encode:
  assumes "is_scalar c"
  shows "lead_len (hd (encode_utf8 c)) = length (encode_utf8 c) \<and> next_code_point (encode_utf8 c @ r) = c"
proof -
  note low = octet[of "0x80 + c mod 64"] octet[of "0x80 + c div 64 mod 64"] octet[of "0x80 + c div 4096 mod 64"]
  note rules = next_code_point_def encode_utf8_def lead_len_def Let_def lead_mod utf8_digits(4-9)
  consider "c < 0x80" | "0x80 \<le> c" "c < 0x800" | "0x800 \<le> c" "c < 0x10000" | "0x10000 \<le> c" "c < 0x110000"
    using assms by (fastforce simp: is_scalar_def)
  then show ?thesis
  proof cases
    case 1
    then show ?thesis by (simp add: next_code_point_def encode_utf8_def lead_len_def octet del: of_char_of)
  next
    case 2
    then have "c div 64 < 32" by (intro utf8_digits(1))
    moreover from this have "of_char (char_of (0xC0 + c div 64) :: char) = 0xC0 + c div 64" by (intro octet) simp
    ultimately show ?thesis
      using 2 low utf8_digits(7)[of c] by (simp add: rules del: of_char_of)
  next
    case 3
    then have "c div 4096 < 16" by (intro utf8_digits(2))
    moreover from this have "of_char (char_of (0xE0 + c div 4096) :: char) = 0xE0 + c div 4096" by (intro octet) simp
    ultimately show ?thesis
      using 3 low utf8_digits(7,8)[of c] by (simp add: rules del: of_char_of)
  next
    case 4
    then have "c div 262144 < 8" by (intro utf8_digits(3))
    moreover from this have "of_char (char_of (0xF0 + c div 262144) :: char) = 0xF0 + c div 262144" by (intro octet) simp
    ultimately show ?thesis
      using 4 low utf8_digits(7-9)[of c] by (simp add: rules del: of_char_of)
  qed
qed

lemma chars_encode: "is_scalar c \<Longrightarrow> chars (encode_utf8 c @ r) = c # chars r"
proof -
  assume c: "is_scalar c"
  obtain x xs where x: "encode_utf8 c = x # xs" by (cases "encode_utf8 c") simp_all
  have "lead_len x = Suc (length xs)" using next_encode[OF c, of r] x by simp
  then show ?thesis using next_encode[OF c, of r] x by (simp add: chars.simps)
qed

lemma chars_encode_str: "list_all is_scalar cs \<Longrightarrow> chars (encode_str cs) = cs"
  by (induction cs) (simp_all add: encode_str_def chars_encode)

lemma is_strE:
  assumes "is_str s"
  obtains cs where "list_all is_scalar cs" "s = encode_str cs" "chars s = cs"
  using assms unfolding is_str_def by metis

lemma is_str_ascii: "list_all (\<lambda>c. (of_char c :: nat) < 0x80) s \<Longrightarrow> is_str s"
proof (induction s)
  case (Cons c s)
  then have c: "is_scalar (of_char c)" "encode_utf8 (of_char c) = [c]"
    by (simp_all add: is_scalar_def encode_utf8_def)
  with chars_encode[of "of_char c" s] Cons show ?case
    by (simp add: is_str_def encode_str_def)
qed (simp add: is_str_def encode_str_def)

section \<open>Printing\<close>

text \<open>
  \<open>char::escape_debug\<close> as \<open>{:?}\<close> of a string uses it: a backslash and a letter for the usual
  five and for the double quote, \<open>\u{...}\<close> for everything that is not shown.
\<close>

definition escape_unicode :: "nat \<Rightarrow> string" where
  "escape_unicode c = [CHR 0x5C, CHR ''u'', CHR ''{''] @ to_ascii_lowercase (hex_digits c) @ ''}''"

definition escape_debug :: "(nat \<Rightarrow> bool) \<Rightarrow> nat \<Rightarrow> string" where
  "escape_debug shown c =
     (if c = 0x00 then [CHR 0x5C, CHR ''0'']
      else if c = 0x09 then [CHR 0x5C, CHR ''t'']
      else if c = 0x0D then [CHR 0x5C, CHR ''r'']
      else if c = 0x0A then [CHR 0x5C, CHR ''n'']
      else if c = 0x5C then [CHR 0x5C, CHR 0x5C]
      else if c = 0x22 then [CHR 0x5C, CHR 0x22]
      else if c < 0x80 then (if 0x20 \<le> c \<and> c < 0x7F then encode_utf8 c else escape_unicode c)
      else if shown c then encode_utf8 c
      else escape_unicode c)"

definition debug_str :: "(nat \<Rightarrow> bool) \<Rightarrow> string \<Rightarrow> string" where
  "debug_str shown s = [CHR 0x22] @ concat (map (escape_debug shown) (chars s)) @ [CHR 0x22]"

definition debug_option :: "('a \<Rightarrow> string) \<Rightarrow> 'a option \<Rightarrow> string" where
  "debug_option pr x = (case x of None \<Rightarrow> ''None'' | Some a \<Rightarrow> ''Some('' @ pr a @ '')'')"

section \<open>Self-delimiting printers\<close>

text \<open>
  The contract of a printer inside a longer text: whoever reads the text from the left knows
  where the value ends and which it is.
\<close>

locale delimited =
  fixes ok :: "'a \<Rightarrow> bool" and pr :: "'a \<Rightarrow> string"
  assumes cut: "ok a \<Longrightarrow> ok b \<Longrightarrow> pr a @ r = pr b @ s \<Longrightarrow> a = b \<and> r = s"
begin

lemma cut_iff: "ok a \<Longrightarrow> ok b \<Longrightarrow> pr a @ r = pr b @ s \<longleftrightarrow> a = b \<and> r = s"
  using cut by blast

lemma inject: "ok a \<Longrightarrow> ok b \<Longrightarrow> pr a = pr b \<longleftrightarrow> a = b"
  using cut[of a b "[]" "[]"] by auto

lemma cut_option:
  assumes "pred_option ok x" and "pred_option ok y" and "debug_option pr x @ r = debug_option pr y @ s"
  shows "x = y \<and> r = s"
proof (cases x; cases y)
  fix a b
  assume "x = Some a" "y = Some b"
  with assms cut[of a b "CHR '')'' # r" "CHR '')'' # s"] show ?thesis by (auto simp: debug_option_def)
qed (use assms(3) in \<open>auto simp: debug_option_def\<close>)

end

text \<open>A word that ends where its terminator first occurs.\<close>

lemma ended_word:
  assumes "e \<notin> set a" and "e \<notin> set b" and "a @ e # r = b @ e # s"
  shows "a = b \<and> r = s"
  using assms
proof (induction a arbitrary: b)
  case Nil
  then show ?case by (cases b) auto
next
  case (Cons c a)
  then show ?case by (cases b) auto
qed

interpretation code_points: delimited is_scalar encode_utf8
proof unfold_locales
  fix a b r s
  assume "is_scalar a" "is_scalar b" and eq: "encode_utf8 a @ r = encode_utf8 b @ s"
  then have "a = b"
    using next_encode by metis
  with eq show "a = b \<and> r = s" by simp
qed

lemma escape_unicode_cut: "escape_unicode a @ r = escape_unicode b @ s \<Longrightarrow> a = b \<and> r = s"
proof -
  assume "escape_unicode a @ r = escape_unicode b @ s"
  then have "to_ascii_lowercase (hex_digits a) @ CHR ''}'' # r = to_ascii_lowercase (hex_digits b) @ CHR ''}'' # s"
    by (simp add: escape_unicode_def)
  moreover have "CHR ''}'' \<notin> set (to_ascii_lowercase (hex_digits k))" for k
    using lower_hex_chars[of "CHR ''}''" k] by auto
  ultimately have "to_ascii_lowercase (hex_digits a) = to_ascii_lowercase (hex_digits b) \<and> r = s"
    by (intro ended_word)
  then show ?thesis by (simp add: lower_hex_inject)
qed

text \<open>The three forms of an escaped character, told apart by their first two octets.\<close>

definition short_escapes :: "(char \<times> nat) list" where
  "short_escapes = [(CHR ''0'', 0x00), (CHR ''t'', 0x09), (CHR ''r'', 0x0D), (CHR ''n'', 0x0A), (CHR 0x5C, 0x5C), (CHR 0x22, 0x22)]"

lemma encode_high:
  assumes "is_scalar c" and "0x80 \<le> c"
  shows "list_all (\<lambda>x. 0x80 \<le> (of_char x :: nat)) (encode_utf8 c)"
  using assms utf8_digits(1-3)[of c] by (auto simp: encode_utf8_def is_scalar_def)

lemma escape_debug_cases:
  assumes "is_scalar c"
  obtains (short) l where "escape_debug shown c = [CHR 0x5C, l]" "map_of short_escapes l = Some c"
  | (unicode) "escape_debug shown c = escape_unicode c"
  | (verbatim) "escape_debug shown c = encode_utf8 c" "hd (encode_utf8 c) \<notin> {CHR 0x5C, CHR 0x22}"
      "list_all (\<lambda>x. 0x20 \<le> (of_char x :: nat) \<and> (of_char x :: nat) \<noteq> 0x7F) (encode_utf8 c)"
proof (cases "c \<in> snd ` set short_escapes")
  case True
  then show ?thesis
    by (intro short[of "fst (the (find (\<lambda>p. snd p = c) short_escapes))"])
      (auto simp: short_escapes_def escape_debug_def)
next
  case False
  show ?thesis
  proof (cases "c < 0x80")
    case True
    with False have "char_of c \<notin> {CHR 0x5C, CHR 0x22}"
      by (auto simp: short_escapes_def char_of_eq_iff take_bit_eq_mod)
    with True False show ?thesis
      by (cases "0x20 \<le> c \<and> c < 0x7F")
        (auto simp: escape_debug_def short_escapes_def encode_utf8_def intro: verbatim unicode)
  next
    case high: False
    obtain x xs where x: "encode_utf8 c = x # xs" by (cases "encode_utf8 c") simp_all
    with high encode_high[OF assms] have "list_all (\<lambda>x. 0x80 \<le> (of_char x :: nat)) (x # xs)" by simp
    then have "x \<notin> {CHR 0x5C, CHR 0x22}"
      "list_all (\<lambda>x. 0x20 \<le> (of_char x :: nat) \<and> (of_char x :: nat) \<noteq> 0x7F) (x # xs)"
      by (auto simp: list_all_iff)
    with x high show ?thesis
      by (cases "shown c") (auto simp: escape_debug_def intro: verbatim unicode)
  qed
qed

lemma escapes_disjoint:
  "map_of short_escapes l = Some a \<Longrightarrow> [CHR 0x5C, l] @ r \<noteq> escape_unicode c @ s"
  "hd (encode_utf8 c) \<notin> {CHR 0x5C, CHR 0x22} \<Longrightarrow> encode_utf8 c @ s \<noteq> [CHR 0x5C, l] @ r"
  "hd (encode_utf8 c) \<notin> {CHR 0x5C, CHR 0x22} \<Longrightarrow> encode_utf8 c @ s \<noteq> escape_unicode d @ r"
  by (auto simp: escape_unicode_def short_escapes_def split: if_splits) (cases "encode_utf8 c"; auto)+

interpretation escaped: delimited is_scalar "escape_debug shown" for shown
proof unfold_locales
  fix a b r s
  assume a: "is_scalar a" and b: "is_scalar b" and eq: "escape_debug shown a @ r = escape_debug shown b @ s"
  note disjoint = escapes_disjoint escapes_disjoint[symmetric]
  from a show "a = b \<and> r = s"
  proof (cases rule: escape_debug_cases[where shown = shown])
    case (short l)
    note a_is = this
    from b show ?thesis
    proof (cases rule: escape_debug_cases[where shown = shown])
      case (short l')
      with eq a_is have "l = l' \<and> r = s" by simp
      with short a_is show ?thesis by simp
    qed (use eq a_is disjoint in metis)+
  next
    case unicode
    note a_is = this
    from b show ?thesis
      by (cases rule: escape_debug_cases[where shown = shown])
        (use eq a_is disjoint escape_unicode_cut in metis)+
  next
    case verbatim
    note a_is = this
    from b show ?thesis
      by (cases rule: escape_debug_cases[where shown = shown])
        (use eq a_is disjoint code_points.cut[OF a b] in metis)+
  qed
qed

lemma escape_no_quote:
  assumes "is_scalar c"
  shows "escape_debug shown c @ s \<noteq> CHR 0x22 # r"
  using assms
proof (cases rule: escape_debug_cases[where shown = shown])
  case verbatim
  then show ?thesis by (cases "encode_utf8 c") auto
qed (simp_all add: escape_unicode_def)

lemma escaped_text_cut:
  "list_all is_scalar cs \<Longrightarrow> list_all is_scalar ds \<Longrightarrow>
   concat (map (escape_debug shown) cs) @ CHR 0x22 # r = concat (map (escape_debug shown) ds) @ CHR 0x22 # s \<Longrightarrow>
   cs = ds \<and> r = s"
proof (induction cs arbitrary: ds)
  case Nil
  then show ?case
    using escape_no_quote[THEN not_sym, of "hd ds"] by (cases ds) simp_all
next
  case (Cons c cs)
  then obtain d ds' where ds: "ds = d # ds'"
    using escape_no_quote[of c shown] by (cases ds) auto
  with Cons.prems have "c = d \<and> concat (map (escape_debug shown) cs) @ CHR 0x22 # r =
      concat (map (escape_debug shown) ds') @ CHR 0x22 # s"
    by (intro escaped.cut) simp_all
  with Cons ds show ?case by simp
qed

interpretation quoted: delimited is_str "debug_str shown" for shown
proof unfold_locales
  fix a b r s
  assume "is_str a" "is_str b" and eq: "debug_str shown a @ r = debug_str shown b @ s"
  then obtain cs ds where a: "list_all is_scalar cs" "a = encode_str cs" "chars a = cs"
    and b: "list_all is_scalar ds" "b = encode_str ds" "chars b = ds"
    using is_strE by metis
  with eq escaped_text_cut[of cs ds shown r s] show "a = b \<and> r = s"
    by (simp add: debug_str_def)
qed

text \<open>Nothing a string holds reaches the output as a control character.\<close>

abbreviation plain :: "string \<Rightarrow> bool" where
  "plain \<equiv> list_all (\<lambda>x. 0x20 \<le> (of_char x :: nat) \<and> (of_char x :: nat) \<noteq> 0x7F)"

lemma escape_plain:
  assumes "is_scalar c"
  shows "plain (escape_debug shown c)"
  using assms
proof (cases rule: escape_debug_cases[where shown = shown])
  case (short l)
  then show ?thesis by (auto simp: short_escapes_def split: if_splits)
next
  case unicode
  then show ?thesis using lower_hex_chars[of _ c] by (fastforce simp: escape_unicode_def list_all_iff)
qed simp

lemma debug_str_plain: "is_str s \<Longrightarrow> plain (debug_str shown s)"
  using escape_plain by (elim is_strE) (fastforce simp: debug_str_def list_all_iff)

end
