(* ===== verification/Smpp_Repr.thy ===== *)
theory Smpp_Repr
  imports Smpp_Sends Smpp_Debug
begin

text \<open>
  What the script's objects print as: the \<open>__repr__\<close> and \<open>__bool__\<close> methods of
  \<open>src/src/pyclasses.rs\<close> and \<open>src/src/sends.rs\<close>.
\<close>

section \<open>The script's objects\<close>

definition BindResult_bool :: "BindResult \<Rightarrow> bool" where
  "BindResult_bool r = br_accept r"

definition SmppResp_bool :: "SmppResp \<Rightarrow> bool" where
  "SmppResp_bool r = SmppResp_ok r"

definition QueryResp_bool :: "QueryResp \<Rightarrow> bool" where
  "QueryResp_bool r = QueryResp_ok r"

definition Pdu_repr :: "Pdu \<Rightarrow> string" where
  "Pdu_repr p =
     ''Pdu(command='' @ p_command p @ '', source_addr='' @ p_source_addr p
     @ '', destination_addr='' @ p_destination_addr p
     @ '', esm_class=0x'' @ hex_lower 2 (unat (p_esm_class p))
     @ '', dcs=0x'' @ hex_lower 2 (unat (p_data_coding p))
     @ '', len='' @ dec_digits (unat (p_sm_length p)) @ '')''"

definition PduReply_repr :: "(nat \<Rightarrow> bool) \<Rightarrow> PduReply \<Rightarrow> string" where
  "PduReply_repr shown r =
     ''PduReply(command_status='' @ status_debug (rp_command_status r)
     @ '', message_id='' @ debug_option (debug_str shown) (rp_message_id r) @ '')''"

definition Bind_repr :: "(nat \<Rightarrow> bool) \<Rightarrow> Bind \<Rightarrow> string" where
  "Bind_repr shown b =
     ''Bind(system_id='' @ debug_str shown (bd_system_id b)
     @ '', client_addr='' @ debug_str shown (bd_client_addr b) @ '')''"

definition BindResult_repr :: "(nat \<Rightarrow> bool) \<Rightarrow> BindResult \<Rightarrow> string" where
  "BindResult_repr shown r =
     (if br_accept r then ''BindResult(accept)''
      else ''BindResult(reject, status='' @ status_debug (br_status r)
        @ '', reason='' @ debug_str shown (br_reason r) @ '')'')"

definition AlertNotification_repr :: "(nat \<Rightarrow> bool) \<Rightarrow> AlertNotification \<Rightarrow> string" where
  "AlertNotification_repr shown a =
     ''AlertNotification(source_addr='' @ debug_str shown (al_source_addr a)
     @ '', esme_addr='' @ debug_str shown (al_esme_addr a)
     @ '', ms_availability_status='' @ debug_option (\<lambda>s. dec_digits (unat s)) (al_ms_availability_status a) @ '')''"

definition Session_repr :: "(nat \<Rightarrow> bool) \<Rightarrow> Session \<Rightarrow> string" where
  "Session_repr shown s =
     ''Session(kind='' @ session_kind s @ '', system_id='' @ debug_str shown (s_system_id s)
     @ '', session_id='' @ debug_str shown (s_session_id s)
     @ '', client_addr='' @ debug_str shown (s_client_addr s) @ '')''"

definition SmppResp_repr :: "(nat \<Rightarrow> bool) \<Rightarrow> SmppResp \<Rightarrow> string" where
  "SmppResp_repr shown r =
     ''SmppResp(command_status='' @ debug_str shown (sr_command_status r)
     @ '', command_status_code=0x'' @ hex_upper 8 (unat (sr_command_status_code r))
     @ '', message_id='' @ debug_str shown (sr_message_id r) @ '')''"

definition QueryResp_repr :: "(nat \<Rightarrow> bool) \<Rightarrow> QueryResp \<Rightarrow> string" where
  "QueryResp_repr shown r =
     ''QueryResp(command_status='' @ debug_str shown (qr_command_status r)
     @ '', command_status_code=0x'' @ hex_upper 8 (unat (qr_command_status_code r))
     @ '', message_id='' @ debug_str shown (qr_message_id r)
     @ '', message_state='' @ dec_digits (unat (qr_message_state r))
     @ '', final_date='' @ debug_str shown (qr_final_date r)
     @ '', error_code='' @ dec_digits (unat (qr_error_code r)) @ '')''"

section \<open>Reading them back\<close>

lemma word_part_cut:
  assumes "\<And>n. e \<notin> set (f n)" and "\<And>m n. f m = f n \<longleftrightarrow> m = n"
  shows "f m @ e # r = f n @ e # s \<longleftrightarrow> m = n \<and> r = s"
  using ended_word[OF assms(1) assms(1)] assms(2) by blast

lemma dec_cut:
  "dec_digits m @ CHR '','' # r = dec_digits n @ CHR '','' # s \<longleftrightarrow> m = n \<and> r = s"
  "dec_digits m @ CHR '')'' # r = dec_digits n @ CHR '')'' # s \<longleftrightarrow> m = n \<and> r = s"
  by (intro word_part_cut dec_digits_inject; use dec_digits_chars in fastforce)+

lemma status_cut: "status_debug d @ CHR '','' # r = status_debug e @ CHR '','' # s \<longleftrightarrow> d = e \<and> r = s"
proof (rule word_part_cut)
  show "CHR '','' \<notin> set (status_debug e)" for e by (cases e) simp_all
qed (rule status_table.enc_inject)

lemma hex_cut:
  "hex_upper 8 m @ CHR '','' # r = hex_upper 8 n @ CHR '','' # s \<longleftrightarrow> m = n \<and> r = s"
proof (rule word_part_cut)
  have "hex_char d \<noteq> CHR '',''" if "d < 16" for d
    using that by (auto simp: hex_char_def char_of_eq_iff take_bit_eq_mod)
  then show "CHR '','' \<notin> set (hex_upper 8 n)" for n
    by (fastforce simp: hex_upper_def dest!: hex_digits_chars)
qed simp

lemma debug_octet_cut:
  "debug_option (\<lambda>s. dec_digits (unat s)) x @ CHR '')'' # r = debug_option (\<lambda>s. dec_digits (unat s)) y @ CHR '')'' # s
     \<longleftrightarrow> x = y \<and> r = s" for x y :: "u8 option"
  by (cases x; cases y) (auto simp: debug_option_def dec_cut word_unat_eq_iff)

lemma debug_string_cut:
  "pred_option is_str x \<Longrightarrow> pred_option is_str y \<Longrightarrow>
   debug_option (debug_str shown) x @ r = debug_option (debug_str shown) y @ s \<longleftrightarrow> x = y \<and> r = s"
  using quoted.cut_option by blast

lemmas cuts = quoted.cut_iff dec_cut status_cut hex_cut debug_octet_cut debug_string_cut
  quoted.inject dec_digits_inject debug_octet_cut[where r = "[]" and s = "[]", simplified]
  debug_string_cut[where r = "[]" and s = "[]", simplified]

text \<open>
  The objects with an escaped \<open>repr\<close>, what of them it is meant to show, and the strings in them.
\<close>

datatype script_object =
    Obj_reply PduReply | Obj_bind Bind | Obj_result BindResult | Obj_alert AlertNotification
  | Obj_session Session | Obj_resp SmppResp | Obj_query QueryResp

primrec object_repr :: "(nat \<Rightarrow> bool) \<Rightarrow> script_object \<Rightarrow> string" where
  "object_repr shown (Obj_reply r) = PduReply_repr shown r"
| "object_repr shown (Obj_bind b) = Bind_repr shown b"
| "object_repr shown (Obj_result r) = BindResult_repr shown r"
| "object_repr shown (Obj_alert a) = AlertNotification_repr shown a"
| "object_repr shown (Obj_session s) = Session_repr shown s"
| "object_repr shown (Obj_resp r) = SmppResp_repr shown r"
| "object_repr shown (Obj_query r) = QueryResp_repr shown r"

primrec visible :: "script_object \<Rightarrow> script_object" where
  "visible (Obj_reply r) =
     Obj_reply (default_ok\<lparr>rp_command_status := rp_command_status r, rp_message_id := rp_message_id r\<rparr>)"
| "visible (Obj_bind b) = Obj_bind (b\<lparr>bd_password := []\<rparr>)"
| "visible (Obj_result r) =
     Obj_result (if br_accept r then r\<lparr>br_status := ESME_ROK, br_reason := []\<rparr> else r)"
| "visible (Obj_alert a) = Obj_alert a"
| "visible (Obj_session s) = Obj_session s"
| "visible (Obj_resp r) = Obj_resp r"
| "visible (Obj_query r) = Obj_query r"

primrec object_strings :: "script_object \<Rightarrow> string list" where
  "object_strings (Obj_reply r) = (case rp_message_id r of None \<Rightarrow> [] | Some i \<Rightarrow> [i])"
| "object_strings (Obj_bind b) = [bd_system_id b, bd_client_addr b]"
| "object_strings (Obj_result r) = [br_reason r]"
| "object_strings (Obj_alert a) = [al_source_addr a, al_esme_addr a]"
| "object_strings (Obj_session s) = [s_system_id s, s_session_id s, s_client_addr s]"
| "object_strings (Obj_resp r) = [sr_command_status r, sr_message_id r]"
| "object_strings (Obj_query r) = [qr_command_status r, qr_message_id r, qr_final_date r]"

lemmas repr_defs = PduReply_repr_def Bind_repr_def BindResult_repr_def AlertNotification_repr_def
  Session_repr_def SmppResp_repr_def QueryResp_repr_def

lemma Bind_repr_iff:
  assumes "list_all is_str (object_strings (Obj_bind b))" and "list_all is_str (object_strings (Obj_bind b'))"
  shows "Bind_repr shown b = Bind_repr shown b' \<longleftrightarrow> visible (Obj_bind b) = visible (Obj_bind b')"
  using assms by (cases b; cases b') (simp add: Bind_repr_def cuts)

lemma PduReply_repr_iff:
  assumes "list_all is_str (object_strings (Obj_reply b))" and "list_all is_str (object_strings (Obj_reply b'))"
  shows "PduReply_repr shown b = PduReply_repr shown b' \<longleftrightarrow> visible (Obj_reply b) = visible (Obj_reply b')"
proof -
  have "pred_option is_str (rp_message_id b)" "pred_option is_str (rp_message_id b')"
    using assms by (simp_all add: pred_option_def split: option.splits)
  then show ?thesis by (cases b; cases b') (auto simp: PduReply_repr_def cuts default_ok_def)
qed

lemma BindResult_repr_iff:
  assumes "list_all is_str (object_strings (Obj_result b))" and "list_all is_str (object_strings (Obj_result b'))"
  shows "BindResult_repr shown b = BindResult_repr shown b' \<longleftrightarrow> visible (Obj_result b) = visible (Obj_result b')"
  using assms by (cases b; cases b') (auto simp: BindResult_repr_def cuts)

lemma AlertNotification_repr_iff:
  assumes "list_all is_str (object_strings (Obj_alert b))" and "list_all is_str (object_strings (Obj_alert b'))"
  shows "AlertNotification_repr shown b = AlertNotification_repr shown b' \<longleftrightarrow> b = b'"
  using assms by (cases b; cases b') (simp add: AlertNotification_repr_def cuts)

lemma Session_repr_iff:
  assumes "list_all is_str (object_strings (Obj_session b))" and "list_all is_str (object_strings (Obj_session b'))"
  shows "Session_repr shown b = Session_repr shown b' \<longleftrightarrow> b = b'"
  using assms by (cases b; cases b') (auto simp: Session_repr_def session_kind_def cuts split: SourceKind.splits)

lemma SmppResp_repr_iff:
  assumes "list_all is_str (object_strings (Obj_resp b))" and "list_all is_str (object_strings (Obj_resp b'))"
  shows "SmppResp_repr shown b = SmppResp_repr shown b' \<longleftrightarrow> b = b'"
  using assms by (cases b; cases b') (simp add: SmppResp_repr_def cuts word_unat_eq_iff)

lemma QueryResp_repr_iff:
  assumes "list_all is_str (object_strings (Obj_query b))" and "list_all is_str (object_strings (Obj_query b'))"
  shows "QueryResp_repr shown b = QueryResp_repr shown b' \<longleftrightarrow> b = b'"
  using assms by (cases b; cases b') (auto simp: QueryResp_repr_def cuts word_unat_eq_iff)

lemma parts_plain:
  "plain (dec_digits n)" "plain (status_debug e)" "plain (hex_upper w n)" "plain (session_kind s)"
  "plain (debug_option (\<lambda>s. dec_digits (unat s)) (x :: u8 option))"
  "pred_option is_str y \<Longrightarrow> plain (debug_option (debug_str shown) y)"
proof -
  show dec: "plain (dec_digits n)" for n using dec_digits_chars[of _ n] by (fastforce simp: list_all_iff)
  show "plain (status_debug e)" by (cases e) simp_all
  have "32 \<le> (of_char (hex_char d) :: nat) \<and> (of_char (hex_char d) :: nat) \<noteq> 127" if "d < 16" for d
    using that by (auto simp: hex_char_def)
  then show "plain (hex_upper w n)"
    by (auto simp: hex_upper_def list_all_iff dest!: hex_digits_chars)
  show "plain (session_kind s)" by (simp add: session_kind_def split: SourceKind.split)
  show "plain (debug_option (\<lambda>s. dec_digits (unat s)) x)"
    using dec by (simp add: debug_option_def split: option.split)
  show "pred_option is_str y \<Longrightarrow> plain (debug_option (debug_str shown) y)"
    using debug_str_plain by (cases y) (simp_all add: debug_option_def)
qed

lemma object_repr_plain: "list_all is_str (object_strings x) \<Longrightarrow> plain (object_repr shown x)"
  by (cases x) (auto simp: repr_defs debug_str_plain parts_plain pred_option_def split: option.splits)

section \<open>Properties\<close>

text \<open>
  C27. What a script prints or logs of an object cannot be forged by whoever chose the strings in
  it: of every class but \<open>Pdu\<close>, the \<open>repr\<close> determines the class and exactly the fields it is
  meant to show, and no control character of a string reaches it, whatever quotes, commas or
  line breaks a peer put into a system id, a message id or a date. The password of a bind is
  not among these fields.
\<close>

theorem reprs_cannot_be_forged:
  assumes "list_all is_str (object_strings x)" and "list_all is_str (object_strings y)"
  shows "(object_repr shown x = object_repr shown y \<longleftrightarrow> visible x = visible y) \<and> plain (object_repr shown x)
    \<and> (\<forall>b pw. Bind_repr shown (b\<lparr>bd_password := pw\<rparr>) = Bind_repr shown b)"
proof -
  have "object_repr shown x = object_repr shown y \<longleftrightarrow> visible x = visible y"
    using assms
    by (cases x; cases y)
      (simp_all add: Bind_repr_iff PduReply_repr_iff BindResult_repr_iff AlertNotification_repr_iff
        Session_repr_iff SmppResp_repr_iff QueryResp_repr_iff del: visible.simps(1-3) object_strings.simps,
       simp_all add: repr_defs)
  with object_repr_plain[OF assms(1)] show ?thesis by (simp add: Bind_repr_def)
qed

text \<open>A system id that tries to look like a system id and an address.\<close>

theorem reprs_cannot_be_forged_witness:
  "Bind_repr (\<lambda>_. True) \<lparr>bd_system_id = ''x\", client_addr=\"y'', bd_password = ''pw'', bd_client_addr = []\<rparr> \<noteq>
   Bind_repr (\<lambda>_. True) \<lparr>bd_system_id = ''x'', bd_password = ''pw'', bd_client_addr = ''y\", client_addr=\"''\<rparr>"
  using reprs_cannot_be_forged
    [of "Obj_bind \<lparr>bd_system_id = ''x\", client_addr=\"y'', bd_password = ''pw'', bd_client_addr = []\<rparr>"
      "Obj_bind \<lparr>bd_system_id = ''x'', bd_password = ''pw'', bd_client_addr = ''y\", client_addr=\"''\<rparr>" "\<lambda>_. True"]
  by (simp add: is_str_ascii)

text \<open>
  A \<open>Pdu\<close> prints its addresses as they are: two messages with different addresses can have the
  same \<open>repr\<close>, and a line break in an address breaks the line.
\<close>

theorem pdu_repr_can_be_forged:
  "\<exists>q. Pdu_repr (p\<lparr>p_source_addr := ''1'', p_destination_addr := ''2, destination_addr=3''\<rparr>) = Pdu_repr q
     \<and> p_destination_addr q = ''3''"
  "\<not> plain (Pdu_repr (p\<lparr>p_source_addr := [CHR 0x0A]\<rparr>))"
proof -
  show "\<exists>q. Pdu_repr (p\<lparr>p_source_addr := ''1'', p_destination_addr := ''2, destination_addr=3''\<rparr>) = Pdu_repr q
      \<and> p_destination_addr q = ''3''"
    by (rule exI[of _ "p\<lparr>p_source_addr := ''1, destination_addr=2'', p_destination_addr := ''3''\<rparr>"])
      (simp add: Pdu_repr_def)
  show "\<not> plain (Pdu_repr (p\<lparr>p_source_addr := [CHR 0x0A]\<rparr>))"
    by (simp add: Pdu_repr_def)
qed

end
