(* ===== verification/Smpp_Secrets.thy ===== *)
theory Smpp_Secrets
  imports Smpp_Config Smpp_Debug
begin

text \<open>
  What the configuration's errors say (the messages of \<open>ConfigError\<close> in \<open>src/src/config.rs\<close>), and
  that neither they nor the configuration a script reads depend on the passwords of binds that
  come from the environment.
\<close>

section \<open>Messages\<close>

text \<open>\<open>ParseIntError\<close>'s.\<close>

primrec parse_int_message :: "parse_int_error \<Rightarrow> string" where
  "parse_int_message Empty = ''cannot parse integer from empty string''"
| "parse_int_message InvalidDigit = ''invalid digit found in string''"
| "parse_int_message PosOverflow = ''number too large to fit in target type''"

text \<open>\<open>upper\<close> is Unicode's upper-casing of a bind's name.\<close>

primrec ConfigError_display :: "(nat \<Rightarrow> bool) \<Rightarrow> (string \<Rightarrow> string) \<Rightarrow> ConfigError \<Rightarrow> string" where
  "ConfigError_display shown upper (Read path source) = ''read '' @ path @ '': '' @ source"
| "ConfigError_display shown upper (Parse path source) = ''parse '' @ path @ '': '' @ YamlError_display source"
| "ConfigError_display shown upper (EnvBindMissing bind field) =
     ''bind '' @ debug_str shown bind @ '' from env: missing SMPP_BIND_'' @ upper bind @ ''_'' @ field"
| "ConfigError_display shown upper (EnvBindInvalid bind field value source) =
     ''bind '' @ debug_str shown bind @ '' from env: SMPP_BIND_'' @ upper bind @ ''_'' @ field
     @ '' = '' @ debug_str shown value @ '' ('' @ parse_int_message source @ '')''"

section \<open>Environments that differ in passwords\<close>

definition is_password :: "(string \<Rightarrow> string) \<Rightarrow> string \<Rightarrow> bool" where
  "is_password lower key \<longleftrightarrow> map_option snd (bind_var lower key) = Some ''PASSWORD''"

text \<open>The same variables in the same order, with the same values but for non-empty passwords.\<close>

definition differ_in :: "('k \<Rightarrow> bool) \<Rightarrow> ('k \<times> string) list \<Rightarrow> ('k \<times> string) list \<Rightarrow> bool" where
  "differ_in secret = list_all2 (\<lambda>(k, v) (k', v'). k = k' \<and> (v = v' \<or> secret k \<and> v \<noteq> [] \<and> v' \<noteq> []))"

abbreviation same_fields :: "(string \<times> string) list \<Rightarrow> (string \<times> string) list \<Rightarrow> bool" where
  "same_fields \<equiv> differ_in (\<lambda>f. f = ''PASSWORD'')"

abbreviation same_groups ::
  "(string \<times> (string \<times> string) list) list \<Rightarrow> (string \<times> (string \<times> string) list) list \<Rightarrow> bool" where
  "same_groups \<equiv> list_all2 (\<lambda>(n, fs) (n', fs'). n = n' \<and> same_fields fs fs')"

lemma differ_in_lookup:
  assumes "differ_in secret env env'"
  shows "\<not> secret k \<Longrightarrow> map_of env k = map_of env' k"
    and "rel_option (\<lambda>v v'. v \<noteq> [] \<longleftrightarrow> v' \<noteq> []) (map_of env k) (map_of env' k)"
  using assms unfolding differ_in_def
  by (induction rule: list_all2_induct) (auto split: prod.splits)

lemma bt_insert_related:
  assumes "list_all2 (\<lambda>(k, v) (k', v'). k = k' \<and> R k v v') m m'" and "R k v v'"
  shows "list_all2 (\<lambda>(k, v) (k', v'). k = k' \<and> R k v v') (bt_insert k v m) (bt_insert k v' m')"
  using assms by (induction rule: list_all2_induct) (auto split: prod.splits)

lemma map_of_related:
  "list_all2 (\<lambda>(k, v) (k', v'). k = k' \<and> R v v') m m' \<Longrightarrow> rel_option R (map_of m k) (map_of m' k)"
  by (induction rule: list_all2_induct) (auto split: prod.splits)

lemma group_var_related:
  assumes "same_groups m m'" and "v = v' \<or> is_password lower k \<and> v \<noteq> [] \<and> v' \<noteq> []"
  shows "same_groups (group_var lower m (k, v)) (group_var lower m' (k, v'))"
proof (cases "bind_var lower k")
  case None
  with assms(1) show ?thesis by (simp add: group_var_def)
next
  case (Some nf)
  obtain name field where nf: "nf = (name, field)" by (cases nf)
  have "same_fields (unwrap_or [] (map_of m name)) (unwrap_or [] (map_of m' name))"
    using map_of_related[OF assms(1), of name] by (cases rule: option.rel_cases) (simp_all add: differ_in_def)
  then have "same_fields (bt_insert field v (unwrap_or [] (map_of m name))) (bt_insert field v' (unwrap_or [] (map_of m' name)))"
    using assms(2) Some nf unfolding differ_in_def by (intro bt_insert_related) (auto simp: is_password_def)
  with assms(1) Some nf show ?thesis
    using bt_insert_related[of "\<lambda>_. same_fields" m m' name] by (simp add: group_var_def)
qed

lemma groups_related:
  assumes "differ_in (is_password lower) env env'"
  shows "same_groups (foldl (group_var lower) [] env) (foldl (group_var lower) [] env')"
proof -
  have "same_groups m m' \<Longrightarrow> same_groups (foldl (group_var lower) m env) (foldl (group_var lower) m' env')" for m m'
    using assms[unfolded differ_in_def]
    by (induction arbitrary: m m' rule: list_all2_induct) (auto intro: group_var_related split: prod.splits)
  then show ?thesis by simp
qed

section \<open>Binds\<close>

definition hide :: "BindConfig \<Rightarrow> BindConfig" where
  "hide b = b\<lparr>bc_password := []\<rparr>"

lemma fields_read:
  assumes "same_fields fs fs'"
  shows "f \<noteq> ''PASSWORD'' \<Longrightarrow> parse_u name fs f d = parse_u name fs' f d"
    and "f \<noteq> ''PASSWORD'' \<Longrightarrow> require_field name fs f = require_field name fs' f"
    and "map_sum id (\<lambda>_. ()) (require_field name fs f) = map_sum id (\<lambda>_. ()) (require_field name fs' f)"
  using differ_in_lookup[OF assms, of f]
  by (auto simp: parse_u_def require_field_def rel_option_iff split: option.splits)

lemma map_sum_rbind: "map_sum id f (rbind r g) = rbind r (\<lambda>a. map_sum id f (g a))"
  by (cases r) simp_all

lemma rbind_ignored:
  "map_sum id (\<lambda>_. ()) r = map_sum id (\<lambda>_. ()) r' \<Longrightarrow> rbind r (\<lambda>_. x) = rbind r' (\<lambda>_. x)"
  by (cases r; cases r') simp_all

lemma bind_of_fields_related:
  assumes "same_fields fs fs'"
  shows "map_sum id (map_option hide) (bind_of_fields lower name fs) =
    map_sum id (map_option hide) (bind_of_fields lower name fs')"
proof -
  note same = fields_read(1,2)[OF assms, of _ name] differ_in_lookup(1)[OF assms]
  note pw = rbind_ignored[OF fields_read(3)[OF assms, of name "''PASSWORD''"]]
  show ?thesis
    by (simp add: bind_of_fields_def same Let_def map_sum_rbind hide_def pw split: option.split)
qed

lemma hide_case:
  "map_option hide a = map_option hide b \<Longrightarrow> map hide xs = map hide ys \<Longrightarrow>
   map hide (case a of None \<Rightarrow> xs | Some x \<Rightarrow> x # xs) = map hide (case b of None \<Rightarrow> ys | Some y \<Rightarrow> y # ys)"
  by (cases a; cases b) simp_all

lemma binds_of_groups_related:
  "same_groups gs gs' \<Longrightarrow>
   map_sum id (map hide) (binds_of_groups lower gs) = map_sum id (map hide) (binds_of_groups lower gs')"
proof (induction rule: list_all2_induct)
  case (Cons g gs g' gs')
  obtain n fs fs' where g: "g = (n, fs)" "g' = (n, fs')" and "same_fields fs fs'"
    using Cons.hyps by (cases g; cases g') auto
  from bind_of_fields_related[OF this(3), of lower n] Cons.IH show ?case
    by (cases "bind_of_fields lower n fs"; cases "bind_of_fields lower n fs'";
        cases "binds_of_groups lower gs"; cases "binds_of_groups lower gs'")
      (auto simp: g intro!: hide_case)
qed simp

lemma binds_from_env_related:
  assumes "differ_in (is_password lower) env env'"
  shows "map_sum id (map hide) (binds_from_env lower env) = map_sum id (map hide) (binds_from_env lower env')"
  using binds_of_groups_related[OF groups_related[OF assms]] by (simp add: binds_from_env_def)

lemma not_password: "strip_prefix ''SMPP_BIND_'' k = None \<Longrightarrow> \<not> is_password lower k"
  by (simp add: is_password_def bind_var_def)

lemma env_var_related:
  assumes "differ_in (is_password lower) env env'" and "strip_prefix ''SMPP_BIND_'' k = None"
  shows "env_var env k = env_var env' k"
  using differ_in_lookup(1)[OF assms(1) not_password[OF assms(2)]] by (simp add: env_var_def)

section \<open>Configurations\<close>

definition hide_all :: "SmppConfig \<Rightarrow> SmppConfig" where
  "hide_all cfg = cfg\<lparr>cf_binds := map hide (cf_binds cfg)\<rparr>"

lemma rbind_related:
  assumes "map_sum id h r = map_sum id h r'" and "\<And>a b. h a = h b \<Longrightarrow> f a = f b"
  shows "rbind r f = rbind r' f"
  using assms(1) by (cases r; cases r') (auto intro: assms(2))

lemma from_file_related:
  assumes "differ_in (is_password lower) env env'" and "expand_env_vars env raw = expand_env_vars env' raw"
  shows "map_sum id hide_all (from_file saphyr lower env path (Inr raw)) =
    map_sum id hide_all (from_file saphyr lower env' path (Inr raw))"
proof -
  have vars: "env_var env ''SMPP_DEFAULT_CHAIN'' = env_var env' ''SMPP_DEFAULT_CHAIN''"
    "env_var env ''SMPP_SERVER_MAX_MPS'' = env_var env' ''SMPP_SERVER_MAX_MPS''"
    "env_var env ''SMPP_SERVER_THROTTLE_ACTION'' = env_var env' ''SMPP_SERVER_THROTTLE_ACTION''"
    using env_var_related[OF assms(1)] by simp_all
  show ?thesis
  proof (cases "from_yaml saphyr (expand_env_vars env' raw)")
    case (Inr cfg)
    show ?thesis
      unfolding from_file_def map_err_simps rbind_simps Let_def assms(2) Inr vars map_sum_rbind
      by (intro rbind_related[OF binds_from_env_related[OF assms(1)]])
        (simp add: hide_all_def split: option.split sum.split)
  qed (simp add: from_file_def assms(2))
qed

lemma build_config_dict_hidden: "build_config_dict to_yaml (hide_all cfg) = build_config_dict to_yaml cfg"
  using config_dict_hides_passwords[where cfg = cfg and pw = "\<lambda>_. []"] by (simp add: hide_all_def hide_def[abs_def])

section \<open>Properties\<close>

text \<open>
  C26. Passwords of binds stay where they belong: two environments that differ only in the
  (non-empty) passwords of binds, under a document that refers to none of them, give the same
  outcome of loading the configuration as far as anyone can see, the same error message or the
  same configuration for the script to read.
\<close>

theorem env_passwords_stay_hidden:
  assumes "differ_in (is_password lower) env env'" and "expand_env_vars env raw = expand_env_vars env' raw"
  shows "map_sum (ConfigError_display shown upper) (build_config_dict to_yaml) (from_file saphyr lower env path (Inr raw)) =
    map_sum (ConfigError_display shown upper) (build_config_dict to_yaml) (from_file saphyr lower env' path (Inr raw))"
proof -
  have "map_sum e (build_config_dict to_yaml) r = map_sum e (build_config_dict to_yaml) (map_sum id hide_all r)"
    for e :: "ConfigError \<Rightarrow> string" and r
    by (cases r) (simp_all add: build_config_dict_hidden)
  then show ?thesis using from_file_related[OF assms] by metis
qed

text \<open>A bind whose port is not a number: the message names the variable and quotes the number.\<close>

definition bad_port_env :: "string \<Rightarrow> env" where
  "bad_port_env pw = [(''SMPP_BIND_EU_HOST'', ''smsc''), (''SMPP_BIND_EU_PASSWORD'', pw), (''SMPP_BIND_EU_PORT'', ''x'')]"

lemma bad_port_result:
  "pw \<noteq> [] \<Longrightarrow> binds_from_env to_ascii_lowercase (bad_port_env pw) = Inl (EnvBindInvalid ''eu'' ''PORT'' ''x'' InvalidDigit)"
proof -
  have "foldl (group_var to_ascii_lowercase) [] (bad_port_env pw) =
      [(''eu'', [(''HOST'', ''smsc''), (''PASSWORD'', pw), (''PORT'', ''x'')])]"
    unfolding bad_port_env_def by code_simp
  then show ?thesis
    by (simp add: binds_from_env_def bind_of_fields_def parse_u_def parse_uint_def)
qed

definition empty_config :: SmppConfig where
  "empty_config = \<lparr>cf_server = ServerConfig_default, cf_binds = [],
     cf_routing = \<lparr>rt_default_chain = [], rt_rules = []\<rparr>, cf_bind_address = None, cf_port = None\<rparr>"

definition bad_port_load :: "string \<Rightarrow> (string, cval) result" where
  "bad_port_load pw = map_sum (ConfigError_display (\<lambda>_. True) to_ascii_uppercase) (build_config_dict (\<lambda>_. None))
     (from_file (\<lambda>_ _. Inr empty_config) to_ascii_lowercase (bad_port_env pw) ''smpp.yaml'' (Inr []))"

theorem env_passwords_stay_hidden_witness:
  "bad_port_load ''secret'' = bad_port_load ''hunter2'' \<and> bad_port_load ''hunter2'' =
     Inl ''bind \"eu\" from env: SMPP_BIND_EU_PORT = \"x\" (invalid digit found in string)''"
proof
  have pw: "is_password to_ascii_lowercase ''SMPP_BIND_EU_PASSWORD''" by code_simp
  have "differ_in (is_password to_ascii_lowercase) (bad_port_env ''secret'') (bad_port_env ''hunter2'')"
    by (simp add: differ_in_def bad_port_env_def pw)
  moreover have "expand_env_vars (bad_port_env ''secret'') [] = expand_env_vars (bad_port_env ''hunter2'') []"
    by (simp add: expand_env_vars.simps[of _ "[]"])
  ultimately show "bad_port_load ''secret'' = bad_port_load ''hunter2''"
    unfolding bad_port_load_def by (rule env_passwords_stay_hidden)
  have "debug_str (\<lambda>_. True) ''eu'' = ''\"eu\"''" "debug_str (\<lambda>_. True) ''x'' = ''\"x\"''"
    "to_ascii_uppercase ''eu'' = ''EU''"
    by code_simp+
  then show "bad_port_load ''hunter2'' =
      Inl ''bind \"eu\" from env: SMPP_BIND_EU_PORT = \"x\" (invalid digit found in string)''"
    by (simp add: bad_port_load_def from_file_def from_yaml_def bad_port_result)
qed

end
