(* ===== verification/Smpp_Conformance.thy ===== *)
theory Smpp_Conformance
  imports Smpp_Repr Smpp_Secrets
begin

text \<open>
  The repository's own unit tests, run on the model: each lemma has the inputs and the expected
  values of the test it is named after. The codec is the instance \<open>spec_codec\<close>.
\<close>

section \<open>\<open>pyclasses.rs\<close>\<close>

lemma receipt_tolerates_missing_keys:
  "map_option (map_option (\<lambda>r. (r_id r, r_stat r, r_sub r, r_text r))) (Receipt_parse (str_bytes ''id:XYZ stat:EXPIRED'')) =
   Some (Some (Some ''XYZ'', Some ''EXPIRED'', None, None))"
  by code_simp

lemma receipt_non_receipt_body_is_none:
  "Receipt_parse (str_bytes ''hey are we still on for lunch?'') = Some None"
  by code_simp

lemma bind_reject_carries_status_and_reason:
  "map_sum id (\<lambda>r. (BindResult_bool r, br_status r, br_reason r)) (Bind_reject b ''ESME_RINVPASWD'' ''wrong'') =
   Inr (False, ESME_RINVPASWD, ''wrong'')"
  by (simp add: Bind_reject_def BindResult_bool_def parse_status_def parse_smpp_status_def status_names_def)

lemma bind_accept_yields_accept_result: "BindResult_bool (Bind_accept b)"
  by (simp add: Bind_accept_def BindResult_bool_def)

section \<open>\<open>tlv.rs\<close>\<close>

lemma tag_names_are_case_insensitive_and_accept_the_tlv_prefix:
  "tag_from_name spec_codec ''MESSAGE_PAYLOAD'' = Some 0x0424"
  "tag_from_name spec_codec ''message_payload'' = Some 0x0424"
  "tag_from_name spec_codec ''TLV_MESSAGE_PAYLOAD'' = Some 0x0424"
  "tag_from_name spec_codec ''  MESSAGE_STATE  '' = Some 0x0427"
  "tag_from_name spec_codec ''NOPE'' = None"
  by code_simp+

lemma integer_tags_use_their_spec_width_not_the_value:
  "value_to_bytes spec_codec 0x0427 (PyInt 2 :: unit pyval) = Inr [2]"
  "value_to_bytes spec_codec 0x020C (PyInt 2 :: unit pyval) = Inr [0, 2]"
  "value_to_bytes spec_codec 0x0017 (PyInt 2 :: unit pyval) = Inr [0, 0, 0, 2]"
proof -
  have "int_width spec_codec 0x0427 = Some 1" "int_width spec_codec 0x020C = Some 2" "int_width spec_codec 0x0017 = Some 4"
    "be_bytes 8 2 = [0, 0, 0, 0, 0, 0, 0, 2]"
    by code_simp+
  then show "value_to_bytes spec_codec 0x0427 (PyInt 2 :: unit pyval) = Inr [2]"
    "value_to_bytes spec_codec 0x020C (PyInt 2 :: unit pyval) = Inr [0, 2]"
    "value_to_bytes spec_codec 0x0017 (PyInt 2 :: unit pyval) = Inr [0, 0, 0, 2]"
    by (simp_all add: value_to_bytes_def Let_def)
qed

lemma receipted_message_id_str_is_nul_terminated:
  "value_to_bytes spec_codec 0x001E (PyStr ''0a1b2'' :: unit pyval) = Inr [0x30, 0x61, 0x31, 0x62, 0x32, 0x00]"
  by code_simp

lemma every_int_width_tag_is_a_known_tag:
  "list_all (\<lambda>(tag, width). name_for_tag spec_codec (tag_code spec_codec tag) \<noteq> None \<and> width \<in> {1, 2, 4}) INT_WIDTHS"
  by code_simp

lemma raw_integer_tags_pass_through_and_range_is_checked:
  "tag_from_py spec_codec (PyInt 0x1400 :: unit pyval) = Inr 0x1400"
  "tag_from_py spec_codec (PyInt 70000 :: unit pyval) = Inl (PyValueError (TLV_tag_out_of_range 70000))"
  by code_simp+

lemma duplicate_tags_are_rejected:
  "\<exists>m. tlvs_from_py spec_codec
     (Some [(PyStr ''MESSAGE_STATE'', PyInt 2), (PyInt 0x0427, PyBytes [2] :: unit pyval)]) = Inl (PyValueError m)"
proof -
  have "(case tlvs_from_py spec_codec
      (Some [(PyStr ''MESSAGE_STATE'', PyInt 2), (PyInt 0x0427, PyBytes [2] :: unit pyval)]) of
        Inl (PyValueError m) \<Rightarrow> True | _ \<Rightarrow> False)"
    by code_simp
  then show ?thesis by (auto split: sum.splits py_error.splits)
qed

section \<open>\<open>outcome.rs\<close>\<close>

lemma a_status_outside_the_table_keeps_its_value_instead_of_borrowing_a_name:
  "status_name table_decoder 0x401 = ''0x00000401''"
  "status_name table_decoder 0x9 = ''0x00000009''"
  "status_name table_decoder 0xFF = ''ESME_RUNKNOWNERR''"
  by code_simp+

lemma only_the_two_back_off_statuses_count_as_throttling:
  "\<forall>e. is_throttle (status_code e) \<longleftrightarrow> e \<in> {ESME_RTHROTTLED, ESME_RMSGQFUL}"
  by code_simp

lemma the_exception_carries_the_reason_and_the_nack_status:
  "\<exists>v. into_pyerr (Nack ESME_RINVCMDLEN) ''submit_sm'' ''bind'' = SmppSendError v
    \<and> SendErrorValue_into_pyobject None v = Raised_instance
        [(''reason'', PyStr ''nack''), (''command'', PyStr ''submit_sm''),
         (''command_status'', PyStr ''ESME_RINVCMDLEN''), (''command_status_code'', PyInt 2)]
    \<and> find_str ''generic_nack ESME_RINVCMDLEN'' (se_message v) \<noteq> None"
  by (simp add: into_pyerr_def SendErrorValue_into_pyobject_def SendErrorValue_instance_def starts_with_def)

section \<open>\<open>config.rs\<close>\<close>

lemma expand_env_vars_unclosed_is_left_literal: "expand_env_vars env ''a ${UNCLOSED literal'' = ''a ${UNCLOSED literal''"
  by (simp add: expand_env_vars.simps starts_with_def Let_def)

lemma expand_env_vars_missing_without_default_is_empty: "expand_env_vars [] ''v=[${UNSET}]'' = ''v=[]''"
  by (simp add: expand_env_vars.simps starts_with_def split_once_def env_var_def Let_def)

lemma listen_falls_back_to_flat_then_default:
  "listen (empty_config\<lparr>cf_bind_address := Some ''8.8.8.8'', cf_port := Some 4321\<rparr>) = (''8.8.8.8'', 4321)"
  "listen empty_config = (''0.0.0.0'', 2775)"
  by (simp_all add: listen_def empty_config_def ServerConfig_default_def)

lemma binds_from_env_missing_required_field_errors:
  "binds_from_env to_ascii_lowercase
     [(''SMPP_BIND_ENVMISS_HOST'', ''miss.example.net''), (''SMPP_BIND_ENVMISS_SYSTEM_ID'', ''miss_id'')] =
   Inl (EnvBindMissing ''envmiss'' ''PASSWORD'')"
  by code_simp

lemma binds_from_env_without_host_is_ignored:
  "binds_from_env to_ascii_lowercase
     [(''SMPP_BIND_ENVGHOST_SYSTEM_ID'', ''ghost''), (''SMPP_BIND_ENVGHOST_PASSWORD'', ''boo'')] = Inr []"
  by code_simp

lemma config_error_messages_render:
  "find_str ''SMPP_BIND_ALPHA_PASSWORD''
     (ConfigError_display (\<lambda>_. True) to_ascii_uppercase (EnvBindMissing ''alpha'' ''PASSWORD'')) \<noteq> None"
  by code_simp

section \<open>\<open>runtime.rs\<close> and \<open>sends.rs\<close>\<close>

lemma awaiting_bind_stops_at_the_deadline:
  "awaiting_bind False False 0 bind_deadline" "awaiting_bind False False (from_secs 14) bind_deadline"
  "\<not> awaiting_bind False False bind_deadline bind_deadline" "\<not> awaiting_bind False False (from_secs 16) bind_deadline"
  "\<not> awaiting_bind True c w bind_deadline" "\<not> awaiting_bind a True w bind_deadline"
  by (simp_all add: awaiting_bind_def bind_deadline_def from_secs_def)

lemma short_message_limit_is_the_254_byte_spec_maximum:
  "check_short_message ''submit_sm'' 254 True = Inr ()"
  "check_short_message ''submit_sm'' 255 True = Inl (PyValueError (Short_message_too_long ''submit_sm'' 255 True))"
  by (simp_all add: check_short_message_def SHORT_MESSAGE_MAX_def)

lemma a_body_over_the_short_message_limit_still_fits:
  "fold_message_payload spec_codec ''data_sm'' (replicate 300 0x78) [] =
     Inr [\<lparr>tlv_tag = 0x0424, tlv_value = replicate 300 0x78\<rparr>]"
  by (simp add: fold_message_payload_def spec_codec_def)

lemma try_acquire_drains_burst_then_refuses:
  "fst (limiter_run (replicate 6 (Try_acquire 0)) (RateLimiter_new 5 0)) = 5"
proof -
  have ops: "replicate 6 x = [x, x, x, x, x, x]" for x :: limiter_op by (simp add: numeral_eq_Suc)
  show ?thesis
    by (simp add: ops limiter_step_eq RateLimiter_new_def refill_def as_secs_f64_def Let_def)
qed

end
