(* ===== verification/Spec2Isabelle.thy ===== *)
theory Spec2Isabelle
  imports Smpp_System Smpp_Install Smpp_Harness Smpp_Leak Smpp_Async Smpp_Conformance
begin

text \<open>
  \<^bold>\<open>siphon-smpp\<close>: a verification library of the SMPP 3.4 addon of the siphon scripting platform.

  The program (\<open>src/src/\<close>) is a server other systems (ESMEs) bind to, and a client that keeps
  outbound binds to message centres (SMSCs) up. The wire codec and its session loops are the
  crate \<open>smpp34\<close>; the addon implements the codec's two listeners, hands every PDU to a
  Python handler of a script, turns the handler's result into the response, and offers the
  script functions that send requests. One shared \<open>State\<close> holds the two session lists and the
  rate limiters; all listeners, all sends and the metrics sampler work on it.

  \<^bold>\<open>Theories and what they model.\<close>

  \<^item> \<open>Smpp_Prelude\<close>: results (\<open>Inl\<close> the error), Rust's string operations on UTF-8 octets,
    number parsing and printing, big-endian octets. The locales \<open>machine\<close> and
    \<open>ending_machine\<close> are the contract of a step relation with an invariant and of one whose
    runs end; they are interpreted on the runtime (\<open>Smpp_System\<close>), the load driver
    (\<open>Smpp_Harness\<close>), the wait for a coroutine (\<open>Smpp_Async\<close>) and the counting allocator
    (\<open>Smpp_Leak\<close>).
  \<^item> \<open>Smpp_Status\<close>: Table 5-2 (\<open>TABLE_5_2\<close> of \<open>outcome.rs\<close>) and the names of statuses in both
    directions (\<open>parse_smpp_status\<close> of \<open>pyclasses.rs\<close>, \<open>status_name\<close>, \<open>is_throttle\<close>). The locale
    \<open>name_table\<close> is the contract of a printer and parser of names; it is interpreted on the
    statuses here and on the throttle actions in \<open>Smpp_Config\<close>. The statuses are an instance of
    \<open>enum\<close>.
  \<^item> \<open>Smpp_Python\<close>: the Python values and exceptions that cross the script boundary.
  \<^item> \<open>Smpp_Tlv\<close>: \<open>tlv.rs\<close>, optional parameters from and to a dict. What the codec provides
    (its tag table, its readers, its status decoder, the length octet it writes) is the record
    \<open>codec\<close>, an argument of every definition that uses it; \<open>spec_codec\<close> is an instance with the
    numbers of the specification for the witnesses.
  \<^item> \<open>Smpp_Receipt\<close>: the delivery receipt parser of \<open>pyclasses.rs\<close>, on octet positions, with a
    slice out of range or off a character boundary as \<open>None\<close> (a panic).
  \<^item> \<open>Smpp_Pdu\<close>: the classes scripts see (\<open>pyclasses.rs\<close>).
  \<^item> \<open>Smpp_Float\<close>: rounding to \<open>f64\<close> on rationals (to nearest, ties to even; the sizes that
    occur neither overflow nor leave the normal range) and the conversions of \<open>Duration\<close>.
  \<^item> \<open>Smpp_Limiter\<close>: \<open>RateLimiter\<close> of \<open>runtime.rs\<close>. Clock readings are natural numbers of
    nanoseconds; every operation on token counts is rounded as the code's \<open>f64\<close> operation is.
    The locale \<open>metered\<close> is what the bound on a run of passes needs of a limiter.
  \<^item> \<open>Smpp_Metrics\<close>: \<open>metrics.rs\<close>, with the host's store as the list of calls made on it.
  \<^item> \<open>Smpp_Outcome\<close>: \<open>outcome.rs\<close>, how a send ended.
  \<^item> \<open>Smpp_Dispatch\<close>: \<open>dispatch.rs\<close>, running script handlers. Handlers, the executor and the
    event loop are the record \<open>script_env\<close>.
  \<^item> \<open>Smpp_Async\<close>: a coroutine handler, the channel it reports through and the caller that waits
    for it (\<open>Completion\<close>, \<open>submit_coroutine\<close> and \<open>settle\<close> of \<open>dispatch.rs\<close>) as a step relation.
  \<^item> \<open>Smpp_Config\<close>: \<open>config.rs\<close> and \<open>build_config_dict\<close> of \<open>install.rs\<close>. The YAML parser and
    printer and the Unicode lower-casing of names are arguments.
  \<^item> \<open>Smpp_State\<close>: \<open>State\<close>, \<open>BindSession\<close>, \<open>EsmeSession\<close> of \<open>runtime.rs\<close>. An \<open>Arc\<close> is an
    address: session handles are numbered as they are created, limiters are cells of a list,
    so that sharing one would show. The locale \<open>session_registry\<close> is the contract of a session
    list, interpreted on both lists.
  \<^item> \<open>Smpp_Server\<close>: the server listener of \<open>runtime.rs\<close> (bind requests, the six kinds of
    request, session events) with admission and accounting.
  \<^item> \<open>Smpp_Client\<close>: the listener and the supervisor of an outbound bind.
  \<^item> \<open>Smpp_Spawn\<close>: \<open>spawn\<close> of \<open>runtime.rs\<close> and \<open>install\<close> of \<open>metrics.rs\<close>: the tasks of a
    process and what the codec's server and clients are given.
  \<^item> \<open>Smpp_Sends\<close>: \<open>sends.rs\<close>, the nine send helpers with their keyword arguments. What the
    codec's session returned, how long it took and what other tasks did to the state meanwhile
    is the record \<open>net\<close>.
  \<^item> \<open>Smpp_Calls\<close>: what the send helpers promise.
  \<^item> \<open>Smpp_System\<close>: the step relation of the whole runtime and its reachable states.
  \<^item> \<open>Smpp_Install\<close>: the module a script imports (\<open>install.rs\<close>), the decorators and read-outs of
    \<open>python/smpp.py\<close>, the registrations they leave with the host, and the fixed handler set
    of the benchmarks (\<open>dispatch.rs\<close>).
  \<^item> \<open>Smpp_Harness\<close>: the load harness (\<open>harness/src/main.rs\<close>): its mock SMSC, the driver with
    its concurrent submit tasks as a step relation, and its report.
  \<^item> \<open>Smpp_Leak\<close>: the leak check (\<open>examples/leak_check.rs\<close>): its counting allocator, the work it
    measures and its verdict.
  \<^item> \<open>Smpp_Debug\<close>: Rust's \<open>{:?}\<close> of strings on UTF-8; the locale \<open>delimited\<close> is the contract of a
    printer whose output can be read back from the left.
  \<^item> \<open>Smpp_Repr\<close>: the \<open>__repr__\<close> and \<open>__bool__\<close> methods of the script's classes.
  \<^item> \<open>Smpp_Secrets\<close>: the messages of configuration errors, and what they and the script's view say
    of passwords.
  \<^item> \<open>Smpp_Conformance\<close>: unit tests of the repository, run on the model.

  \<^bold>\<open>What is shown.\<close>

  \<^item> The receipt parser never panics, and parsing inverts printing for any selection and order
    of fields with the text last; the \<open>receipt\<close> attribute is there exactly when there is a
    receipt, has each field under its key, and prefers the text over the parameters.
  \<^item> Statuses: the name read is unambiguous and can be written back. Parameters: integer
    widths, no duplicates, no parameter lost between a reply and the response the handler sends.
  \<^item> The limiter never lets more through than its burst plus its rate, up to four parts in a
    million of rounding, for every interleaving of its users, ends every wait, and never hinders
    a sender that keeps to the rate by a nanosecond.
  \<^item> Every request handler equals its row of a reference contract (\<open>answer\<close>, \<open>serve\<close>), counts
    each request once and touches no other session's limiter; over the cap a request is
    refused, or held until the bucket has a token for it, as configured.
  \<^item> Script: a PDU goes to the first function the script decorated for its command, a session
    event to all functions decorated for it, in order, however the run is cut into executor
    jobs; a bind is accepted only by a function of the script that ran, and binds are closed by
    default; the module a script imports is complete and its configuration has the runtime's
    value under every key. The wait for a coroutine can be ended by a poll once the coroutine is
    over or the limit has passed, and never sooner, with one answer in every interleaving, so that
    describing it by its outcome, as the other theorems do, loses nothing.
  \<^item> What is printed: a \<open>repr\<close> shows exactly its fields and cannot be forged by the strings in
    them, and neither an error message nor the script's view of the configuration depends on a
    bind's password from the environment.
  \<^item> The supervisor's delays follow a reference schedule without overflow, and its waits end.
  \<^item> Sends: the peer's answer is reported verbatim and its absence with the right reason, in the
    attributes of an exception that is raised for nothing else; a call is refused in exactly the
    cases it should be and then has no effect; nothing the codec would panic on is sent; a
    relayed request arrives unchanged.
  \<^item> The runtime: an invariant of all reachable states by rule induction over the step relation
    (every session has its own limiter, of the configured cap), the cap on what is let through of
    a session's own requests in any run (\<open>session_trace\<close>), handles are never reused, and the
    session lists refine a directory.
  \<^item> Two runtimes back to back (below): the script on the server side is handed the message
    with every field, or the id a query asks about, and what it answers is what the script that
    sent it is told.
  \<^item> The load driver: its report does not depend on how its tasks interleave, at most its window
    is in flight, its runs end, and the five percentiles it reports are in order and each of its
    rank. The leak check counts live memory exactly and its verdict is right.
  \<^item> Theorems record where the code departs from its documentation or its own conventions: numbers
    of binds in the environment wrap, a missing \<open>server:\<close> section means zero timers, parameters of
    a reply built by its class are dropped, a later key cuts the text of a receipt, the load driver
    accepts a window of zero and then never starts, and the \<open>repr\<close> of a \<open>Pdu\<close> prints addresses
    unescaped.

  \<^bold>\<open>Loops and bounds.\<close> A loop that waits takes the clock readings of its turns as a list and is
  \<open>None\<close> when they end before it does; \<open>acquire_returns\<close>, \<open>over_cap_is_paced\<close>,
  \<open>paced_send_goes_out\<close> and \<open>bind_wait_ends\<close> show how many readings are enough (two, and
  sixteen); a reading after a sleep is later than the whole nanoseconds slept. The supervisor
  runs for as many attempts as it is given. The load driver's step relation ends after at most
  four turns per submit; the wait for a coroutine is a step relation in which time passes freely,
  and a poll at its limit is enough to end it. All other loops are structural recursion or have a
  termination proof. Numbers the code keeps at a width are words (\<open>u8\<close>, \<open>u16\<close>, \<open>u32\<close>, \<open>u64\<close>).

  \<^bold>\<open>Not modelled.\<close> The codec, the YAML library, the Python interpreter, siphon's host and Unicode's
  tables of letters and printable characters (they are arguments); log lines; the texts of
  exceptions other than \<open>SmppSendError\<close> (an exception holds the data its text is made of); the
  deserialisers serde derives from the configuration's types, except for the defaults of the
  server section; the conversion of attributes and arguments PyO3 generates; the argument
  parser of the harness and the lines it and the leak check print; the re-exports of \<open>lib.rs\<close>,
  test code and benchmarks.
\<close>

section \<open>Two runtimes back to back\<close>

text \<open>
  A message from a script on one runtime, through \<open>submit_via\<close>, the codec and the server
  listener of another runtime, to that runtime's script, and the answer back. Of the codec it
  is assumed that a response arrives with the status and the message id it was built with.
\<close>

definition transport_ok :: "(resp \<Rightarrow> response) \<Rightarrow> bool" where
  "transport_ok tr \<longleftrightarrow>
     (\<forall>b ts. Reply_status (tr (Accept b ts)) = status_code ESME_ROK)
   \<and> (\<forall>e ts. Reply_status (tr (RejectWith e ts)) = status_code e)
   \<and> (\<forall>i ts. Reply_message_id (tr (Accept (AcceptId i) ts)) = i)"

text \<open>What the caller reads of an acceptance and of a refusal.\<close>

lemma submit_response_read:
  assumes "transport_ok tr" and "\<forall>e. from_command_status C (status_code e) = e"
  shows "SmppResp_ok (SmppResp_from_reply C (tr (Accept (AcceptId i) ts)))
      \<and> sr_message_id (SmppResp_from_reply C (tr (Accept (AcceptId i) ts))) = i"
    and "e \<noteq> ESME_ROK \<Longrightarrow> \<not> SmppResp_ok (SmppResp_from_reply C (tr (RejectWith e ts)))
      \<and> parse_smpp_status (sr_command_status (SmppResp_from_reply C (tr (RejectWith e ts)))) = Some e"
proof -
  show "SmppResp_ok (SmppResp_from_reply C (tr (Accept (AcceptId i) ts)))
      \<and> sr_message_id (SmppResp_from_reply C (tr (Accept (AcceptId i) ts))) = i"
    using assms(1) by (simp add: transport_ok_def SmppResp_from_reply_def SmppResp_ok_def)
  show "\<not> SmppResp_ok (SmppResp_from_reply C (tr (RejectWith e ts)))
      \<and> parse_smpp_status (sr_command_status (SmppResp_from_reply C (tr (RejectWith e ts)))) = Some e"
    if "e \<noteq> ESME_ROK"
    using assms(1) status_name_parse_roundtrip[OF assms(2)] status_code_inject[of e ESME_ROK] that
    by (simp add: transport_ok_def SmppResp_from_reply_def SmppResp_ok_def Let_def del: status_code.simps)
qed

lemma submit_prepared:
  assumes "prepare C (Call_submit d kw) = Inr (Wire_submit q)"
  shows "tlvs_from_py C (mk_tlvs kw) = Inr (ss_tlvs q)" and "q = submit_sm_pdu C d kw (ss_tlvs q)"
  using assms by (auto simp: result_iffs submit_sm_pdu_def)

text \<open>Samples for the witness: a bind without a cap, a message, a transport of responses.\<close>

definition sample_uncapped :: State where
  "sample_uncapped = sample_bound\<lparr>st_binds := map (\<lambda>b. b\<lparr>bs_throttle := None\<rparr>) (st_binds sample_bound)\<rparr>"

definition sample_message_kw :: "unit message_kw" where
  "sample_message_kw =
     \<lparr>mk_source_addr = ''100'', mk_short_message = [0x68, 0x69], mk_source_addr_ton = None,
      mk_source_addr_npi = None, mk_dest_addr_ton = None, mk_dest_addr_npi = None,
      mk_service_type = None, mk_esm_class = None, mk_protocol_id = None, mk_priority_flag = None,
      mk_schedule_delivery_time = None, mk_validity_period = None, mk_registered_delivery = Some 1,
      mk_replace_if_present_flag = None, mk_data_coding = None, mk_sm_default_msg_id = None,
      mk_tlvs = None\<rparr>"

definition spec_transport :: "resp \<Rightarrow> response" where
  "spec_transport r = (case r of
     Accept b ts \<Rightarrow> Submit_sm_resp 0 (case b of AcceptId i \<Rightarrow> Some i | _ \<Rightarrow> None)
   | RejectWith e ts \<Rightarrow> Submit_sm_resp (status_code e) None)"

lemma spec_transport_ok: "transport_ok spec_transport"
  by (simp add: transport_ok_def spec_transport_def)

lemma sample_message_sent:
  "\<exists>r. send spec_codec (sample_net result 0) ''up'' (Call_submit ''200'' sample_message_kw) sample_uncapped =
     Some (r, Some (7, Wire_submit (submit_sm_pdu spec_codec ''200'' sample_message_kw [])), sample_uncapped)"
  by (simp add: submit_via_def check_short_message_def SHORT_MESSAGE_MAX_def tlvs_from_py_def
      request_on_bind_def bind_handle_def pace_def sample_uncapped_def sample_bound_def sample_net_def Let_def)
    (simp add: sample_message_kw_def)

text \<open>
  C7. End to end: the script of the receiving runtime is handed the message the sending script
  wrote, every keyword argument in its field with the documented default where none was given
  and the optional parameters as encoded, and the sending script reads what the receiving one
  answered: for a reply with \<open>ESME_ROK\<close>, success with the reply's message id; for a reply with
  another status, the name of that status; with no function for \<open>submit_sm\<close>, success with an
  empty id; for one that failed, \<open>ESME_RSYSERR\<close>; and \<open>ESME_RTHROTTLED\<close> if the receiving
  session was over its cap.
\<close>

theorem message_end_to_end:
  assumes "is_success_ok ok" and "transport_ok tr" and "\<forall>e. from_command_status C (status_code e) = e"
    and "send C N target (Call_submit d kw) st = Some (r, Some (h, Wire_submit q), st')"
    and "on_inbound ok io client sid (In_submit q) srv = Some (resp, srv')"
    and "nt_result N = Inr (tr resp)"
  shows "\<exists>v ts x srv1. tlvs_from_py C (mk_tlvs kw) = Inr ts
    \<and> from_submit q = \<lparr>p_command = ''submit_sm'', p_message_id = [],
        p_service_type = unwrap_or [] (mk_service_type kw),
        p_source_addr_ton = unwrap_or 1 (mk_source_addr_ton kw), p_source_addr_npi = unwrap_or 1 (mk_source_addr_npi kw),
        p_source_addr = mk_source_addr kw,
        p_dest_addr_ton = unwrap_or 1 (mk_dest_addr_ton kw), p_dest_addr_npi = unwrap_or 1 (mk_dest_addr_npi kw),
        p_destination_addr = d, p_esm_class = unwrap_or 0 (mk_esm_class kw),
        p_protocol_id = unwrap_or 0 (mk_protocol_id kw), p_priority_flag = unwrap_or 0 (mk_priority_flag kw),
        p_schedule_delivery_time = unwrap_or [] (mk_schedule_delivery_time kw),
        p_validity_period = unwrap_or [] (mk_validity_period kw),
        p_registered_delivery = unwrap_or 0 (mk_registered_delivery kw),
        p_replace_if_present_flag = unwrap_or 0 (mk_replace_if_present_flag kw),
        p_data_coding = unwrap_or 0 (mk_data_coding kw), p_sm_default_msg_id = unwrap_or 0 (mk_sm_default_msg_id kw),
        p_sm_length = sm_length_of C (mk_short_message kw), p_destinations = [],
        p_short_message = mk_short_message kw, p_tlvs = ts\<rparr>
    \<and> r = Inr v \<and> admit_inbound (io_clock io) sid srv = Some (x, srv1)
    \<and> (if x = Throttled
       then \<not> SmppResp_ok v \<and> parse_smpp_status (sr_command_status v) = Some ESME_RTHROTTLED
       else case dispatch_on_pdu (io_script io) ''submit_sm'' (from_submit q) (esme_session sid client srv) of
           None \<Rightarrow> SmppResp_ok v \<and> sr_message_id v = []
         | Some (Inl error) \<Rightarrow> \<not> SmppResp_ok v \<and> parse_smpp_status (sr_command_status v) = Some ESME_RSYSERR
         | Some (Inr rep) \<Rightarrow>
             (if rp_command_status rep = ESME_ROK
              then SmppResp_ok v \<and> sr_message_id v = unwrap_or [] (rp_message_id rep)
              else \<not> SmppResp_ok v
                \<and> parse_smpp_status (sr_command_status v) = Some (rp_command_status rep)))"
proof -
  from assms(4) have prep: "prepare C (Call_submit d kw) = Inr (Wire_submit q)"
    and r: "r = Inr (SmppResp_from_reply C (tr resp))"
    by (cases rule: send_cases; simp add: reported_def assms(6))+
  note read = submit_response_read[OF assms(2,3)]
  let ?v = "SmppResp_from_reply C (tr resp)"
  let ?result = "dispatch_on_pdu (io_script io) ''submit_sm'' (from_submit q) (esme_session sid client srv)"
  have serve: "serve io client sid (In_submit q) srv = Some (resp, srv')"
    using assms(5) by (simp only: on_inbound_serve[OF assms(1)])
  then obtain x srv1 where adm: "admit_inbound (io_clock io) sid srv = Some (x, srv1)"
    by (auto simp: serve_def admit_def split: option.splits)
  have told: "if x = Throttled
      then \<not> SmppResp_ok ?v \<and> parse_smpp_status (sr_command_status ?v) = Some ESME_RTHROTTLED
      else case ?result of
          None \<Rightarrow> SmppResp_ok ?v \<and> sr_message_id ?v = []
        | Some (Inl error) \<Rightarrow> \<not> SmppResp_ok ?v \<and> parse_smpp_status (sr_command_status ?v) = Some ESME_RSYSERR
        | Some (Inr rep) \<Rightarrow>
            (if rp_command_status rep = ESME_ROK
             then SmppResp_ok ?v \<and> sr_message_id ?v = unwrap_or [] (rp_message_id rep)
             else \<not> SmppResp_ok ?v \<and> parse_smpp_status (sr_command_status ?v) = Some (rp_command_status rep))"
    using serve
  proof (cases rule: serve_cases)
    case (throttled st1)
    with adm read(2)[of ESME_RTHROTTLED "[]"] show ?thesis by (simp add: admit_def)
  next
    case (served st1)
    with adm have x: "x = Proceed" by (simp add: admit_def)
    have "resp = answer (In_submit q) ?result" using served(2) by simp
    then show ?thesis
      using x read(1)[of _ "[]"] read(2)[of _ "[]"] by (auto simp: answer_def Let_def split: option.split sum.split)
  qed
  show ?thesis
    using r adm told submit_prepared(1)[OF prep]
    by (intro exI[of _ ?v] exI[of _ "ss_tlvs q"] exI[of _ x] exI[of _ srv1] conjI)
      (simp_all only:, subst submit_prepared(2)[OF prep], simp add: from_submit_def submit_sm_pdu_def)
qed

theorem message_end_to_end_witness:
  "\<exists>v st'. send spec_codec (sample_net (Inr (spec_transport (Accept (AcceptId ''77'') []))) 0) ''up''
     (Call_submit ''200'' sample_message_kw) sample_uncapped =
       Some (Inr v, Some (7, Wire_submit (submit_sm_pdu spec_codec ''200'' sample_message_kw [])), st')
     \<and> SmppResp_ok v \<and> sr_message_id v = ''77''"
proof -
  let ?q = "submit_sm_pdu spec_codec ''200'' sample_message_kw []"
  define rep where "rep = default_ok\<lparr>rp_message_id := Some ''77''\<rparr>"
  have rep: "rp_command_status rep = ESME_ROK" "rp_message_id rep = Some ''77''"
    by (simp_all add: rep_def default_ok_def)
  let ?io = "replying_io ''submit_sm'' rep"
  let ?srv = "spawn_state sample_config None"
  obtain r where sent: "send spec_codec (sample_net (Inr (spec_transport (Accept (AcceptId ''77'') []))) 0) ''up''
      (Call_submit ''200'' sample_message_kw) sample_uncapped = Some (r, Some (7, Wire_submit ?q), sample_uncapped)"
    using sample_message_sent by blast
  have admit: "admit_inbound (io_clock ?io) ''s9'' ?srv = Some (Proceed, ?srv)"
    by (simp add: admit_inbound_def spawn_state_def find_esme_def)
  obtain srv' where served: "on_inbound spec_is_success ?io ''::1'' ''s9'' (In_submit ?q) ?srv =
      Some (Accept (AcceptId ''77'') [], srv')"
    by (simp add: on_submit_sm_def admit dispatch_pdu_eq replying_dispatch submit_sm_response_def rep Let_def)
  have dec: "\<forall>e. from_command_status spec_codec (status_code e) = e"
    by (simp add: spec_codec_def table_decoder_code)
  have "nt_result (sample_net (Inr (spec_transport (Accept (AcceptId ''77'') []))) 0) =
      Inr (spec_transport (Accept (AcceptId ''77'') []))" by (simp add: sample_net_def)
  from message_end_to_end[OF spec_is_success_ok spec_transport_ok dec sent served this] sent show ?thesis
    by (auto simp: admit replying_dispatch rep)
qed

subsection \<open>Queries\<close>

text \<open>
  The same for \<open>query_sm\<close>, from the keyword arguments of \<open>query_via\<close> to the function the other
  script decorated. Of the codec it is assumed that a response arrives with the fields it was
  built with.
\<close>

definition query_transport_ok :: "(resp \<Rightarrow> query_sm_resp) \<Rightarrow> bool" where
  "query_transport_ok tr \<longleftrightarrow>
     (\<forall>i d s e ts. tr (Accept (AcceptQuery i d s e) ts) =
        \<lparr>qp_command_status = status_code ESME_ROK, qp_message_id = i, qp_final_date = d, qp_message_state = s,
         qp_error_code = e\<rparr>)
   \<and> (\<forall>e ts. qp_command_status (tr (RejectWith e ts)) = status_code e)"

lemma query_via_sent:
  assumes "query_via C N target kw st = Some (r, Some (h, Wire_query q), st')" and "nt_result N = Inr resp"
  shows "r = Inr (QueryResp_from_reply C resp)" and "qs_message_id q = qk_message_id kw"
  using assms by (auto simp: query_via_def request_on_bind_def settle_on_bind_def Let_def split: sum.splits if_splits)

lemma query_answer:
  assumes "registry_ok (io_script io) (load_script script)" and "exec_shed (io_script io) 0 = None"
  shows "fst (on_query_sm io client sid q srv) =
    (case map (\<lambda>fn. fn_value (io_script io) fn (PduArgs (from_query q) (esme_session sid client srv)))
         (pdu_functions ''query_sm'' script) of
       Inr (PyObject c t (PduReplyObj r)) # _ \<Rightarrow>
         (if rp_command_status r = ESME_ROK
          then accept (AcceptQuery (unwrap_or [] (rp_message_id r)) (rp_final_date r)
            (unwrap_or 0 (rp_message_state r)) (rp_error_code r))
          else reject (rp_command_status r))
     | Inr v # _ \<Rightarrow> accept (AcceptQuery [] [] 0 0)
     | _ \<Rightarrow> reject ESME_RQUERYFAIL)"
  by (auto simp: on_query_sm_def dispatch_pdu_opt_eq dispatch_pdu_script[OF assms] default_ok_def
      split: list.splits sum.splits pyval.splits py_object.splits)

text \<open>
  C25. A query end to end: the function the other runtime's script decorated for \<open>query_sm\<close> is
  asked about the message id the caller gave, and what it answers with \<open>pdu.reply_query\<close> is what
  the caller reads, the id it asked for unless the answer gave another. A script without such
  a function, or one that raises, is reported as \<open>ESME_RQUERYFAIL\<close>.
\<close>

theorem query_end_to_end:
  assumes "query_transport_ok tr" and "\<forall>e. from_command_status C (status_code e) = e"
    and "registry_ok (io_script io) (load_script script)" and "exec_shed (io_script io) 0 = None"
    and "query_via C N target kw st = Some (r, Some (h, Wire_query q), st')"
    and "nt_result N = Inr (tr (fst (on_query_sm io client sid q srv)))"
    and "answers = map (\<lambda>fn. fn_value (io_script io) fn (PduArgs (from_query q) (esme_session sid client srv)))
      (pdu_functions ''query_sm'' script)"
  shows "p_message_id (from_query q) = qk_message_id kw
    \<and> (\<exists>v. r = Inr v
      \<and> (\<forall>c t state i date e rest.
           answers = Inr (PyObject c t (PduReplyObj (reply_query (from_query q) state i date e))) # rest \<longrightarrow>
           QueryResp_ok v \<and> qr_message_state v = state \<and> qr_final_date v = date \<and> qr_error_code v = e
           \<and> qr_message_id v = unwrap_or (qk_message_id kw) i)
      \<and> (answers = [] \<or> isl (hd answers) \<longrightarrow>
           \<not> QueryResp_ok v \<and> qr_command_status v = ''ESME_RQUERYFAIL''))"
proof -
  note sent = query_via_sent[OF assms(5,6)]
  let ?v = "QueryResp_from_reply C (tr (fst (on_query_sm io client sid q srv)))"
  note answer = query_answer[OF assms(3,4), of client sid q srv, folded assms(7)]
  have id: "p_message_id (from_query q) = qk_message_id kw" using sent(2) by (simp add: from_query_def)
  have "QueryResp_ok ?v \<and> qr_message_state ?v = state \<and> qr_final_date ?v = date \<and> qr_error_code ?v = e
      \<and> qr_message_id ?v = unwrap_or (qk_message_id kw) i"
    if "answers = Inr (PyObject c t (PduReplyObj (reply_query (from_query q) state i date e))) # rest"
    for c t state i date e rest
    using assms(1) unfolding answer that
    by (auto simp: reply_query_def id query_transport_ok_def QueryResp_from_reply_def QueryResp_ok_def Let_def
        simp del: status_code.simps split: option.splits)
  moreover have "\<not> QueryResp_ok ?v \<and> qr_command_status ?v = ''ESME_RQUERYFAIL''" if "answers = [] \<or> isl (hd answers)"
  proof -
    have "fst (on_query_sm io client sid q srv) = reject ESME_RQUERYFAIL"
      using that unfolding answer by (auto simp: isl_def split: list.splits)
    moreover have "status_name (from_command_status C) (status_code ESME_RQUERYFAIL) = ''ESME_RQUERYFAIL''"
      using assms(2) by (simp add: status_name_def del: status_code.simps)
    ultimately show ?thesis
      using assms(1) status_code_inject[of ESME_RQUERYFAIL ESME_ROK]
      by (simp add: query_transport_ok_def QueryResp_from_reply_def QueryResp_ok_def Let_def del: status_code.simps)
  qed
  ultimately show ?thesis using sent(1) id by blast
qed

text \<open>A query about message 42, answered with message state 2 (delivered).\<close>

definition sample_query :: query_sm where
  "sample_query = \<lparr>qs_message_id = ''42'', qs_source_addr_ton = 1, qs_source_addr_npi = 1, qs_source_addr = []\<rparr>"

definition sample_query_script :: "unit script_decl list" where
  "sample_query_script = [OnPdu ''query_sm'' (script_fn_of (PyObject ''PduReply'' (Some True)
     (PduReplyObj (reply_query (from_query sample_query) 2 None ''2401010000'' 0))))]"

definition sample_query_io :: "unit io" where
  "sample_query_io = sample_io\<lparr>io_script := host_env sample_query_script\<rparr>"

definition spec_query_transport :: "resp \<Rightarrow> query_sm_resp" where
  "spec_query_transport r = (case r of
     Accept b ts \<Rightarrow> (case b of
       AcceptQuery i d s e \<Rightarrow> \<lparr>qp_command_status = 0, qp_message_id = i, qp_final_date = d, qp_message_state = s, qp_error_code = e\<rparr>
     | _ \<Rightarrow> \<lparr>qp_command_status = 0, qp_message_id = [], qp_final_date = [], qp_message_state = 0, qp_error_code = 0\<rparr>)
   | RejectWith e ts \<Rightarrow>
       \<lparr>qp_command_status = status_code e, qp_message_id = [], qp_final_date = [], qp_message_state = 0, qp_error_code = 0\<rparr>)"

lemma spec_query_transport_ok: "query_transport_ok spec_query_transport"
  by (simp add: query_transport_ok_def spec_query_transport_def)

definition sample_query_net :: "query_sm_resp net" where
  "sample_query_net =
     \<lparr>nt_clock = [],
      nt_result = Inr (spec_query_transport (fst (on_query_sm sample_query_io ''::1'' ''s9'' sample_query
        (spawn_state sample_config None)))),
      nt_waited = 0, nt_meanwhile = (\<lambda>st. st)\<rparr>"

definition sample_query_kw :: query_kw where
  "sample_query_kw = \<lparr>qk_message_id = ''42'', qk_source_addr = None, qk_source_addr_ton = None, qk_source_addr_npi = None\<rparr>"

lemma sample_query_sent:
  "\<exists>r. query_via spec_codec sample_query_net ''up'' sample_query_kw sample_uncapped =
     Some (r, Some (7, Wire_query sample_query), sample_uncapped)"
  by (simp add: query_via_def request_on_bind_def bind_handle_def sample_query_def sample_query_kw_def
      sample_query_net_def sample_uncapped_def sample_bound_def Let_def)

theorem query_end_to_end_witness:
  "\<exists>v. query_via spec_codec sample_query_net ''up'' sample_query_kw sample_uncapped =
       Some (Inr v, Some (7, Wire_query sample_query), sample_uncapped)
     \<and> QueryResp_ok v \<and> qr_message_state v = 2 \<and> qr_final_date v = ''2401010000'' \<and> qr_message_id v = ''42''"
proof -
  obtain r where sent: "query_via spec_codec sample_query_net ''up'' sample_query_kw sample_uncapped =
      Some (r, Some (7, Wire_query sample_query), sample_uncapped)"
    using sample_query_sent by blast
  have dec: "\<forall>e. from_command_status spec_codec (status_code e) = e"
    by (simp add: spec_codec_def table_decoder_code)
  have script: "io_script sample_query_io = host_env sample_query_script" by (simp add: sample_query_io_def)
  have result: "nt_result sample_query_net = Inr (spec_query_transport (fst (on_query_sm sample_query_io
      ''::1'' ''s9'' sample_query (spawn_state sample_config None))))"
    by (simp add: sample_query_net_def)
  have fns: "pdu_functions ''query_sm'' sample_query_script = [script_fn_of (PyObject ''PduReply'' (Some True)
      (PduReplyObj (reply_query (from_query sample_query) 2 None ''2401010000'' 0)))]"
    by (simp add: pdu_functions_def sample_query_script_def map_filter_simps)
  have kw: "qk_message_id sample_query_kw = ''42''" by (simp add: sample_query_kw_def)
  from query_end_to_end[OF spec_query_transport_ok dec _ _ sent result refl, of sample_query_script] sent
  show ?thesis by (auto simp: script host_env_ok host_env_value fns kw)
qed

end
